(* ===== verification/Prelude.thy ===== *)
theory Prelude
  imports Main "HOL-Library.Word"
begin

text \<open>
  Shared vocabulary of the development: the C++ exceptions that cross component boundaries,
  programs that read and write a state and may throw, generic reachability with the locale
  that turns a preserved predicate into an invariant, and the list and map facts that the
  component theories use.
\<close>

section \<open>Exceptions and stateful programs\<close>

named_theorems prog_simps \<open>equations that execute a program on a state\<close>
named_theorems inv_intros \<open>preservation facts of the component invariants\<close>

text \<open>
  The exceptions the sources throw or let pass. A \<^verbatim>\<open>pj::Error\<close> is not a
  \<^verbatim>\<open>std::exception\<close>, so the handlers of the sources tell the two apart.
  \<open>Undefined\<close> is no exception: it marks a point where the program has undefined
  behaviour (a null dereference, a read past the end), and no handler of the sources catches it.
\<close>

datatype exn =
    PjError string
  | RuntimeError string
  | SpdlogEx string
  | InvalidArgument
  | OutOfRange
  | FutureError
  | NoActiveException
  | Undefined string

text \<open>
  A program maps a state to an outcome and the state it leaves, also when it throws: the effects
  that happened before a \<^verbatim>\<open>throw\<close> stay.
\<close>

type_synonym ('w, 'a) prog = "'w \<Rightarrow> (exn + 'a) \<times> 'w"

definition returnM :: "'a \<Rightarrow> ('w, 'a) prog" where
  [prog_simps]: "returnM x w = (Inr x, w)"

definition throwM :: "exn \<Rightarrow> ('w, 'a) prog" where
  [prog_simps]: "throwM e w = (Inl e, w)"

definition bindM :: "('w, 'a) prog \<Rightarrow> ('a \<Rightarrow> ('w, 'b) prog) \<Rightarrow> ('w, 'b) prog" where
  [prog_simps]: "bindM m f w = (case m w of (Inl e, w') \<Rightarrow> (Inl e, w') | (Inr x, w') \<Rightarrow> f x w')"

definition thenM :: "('w, 'a) prog \<Rightarrow> ('w, 'b) prog \<Rightarrow> ('w, 'b) prog" where
  [prog_simps]: "thenM m n = bindM m (\<lambda>_. n)"

definition getM :: "('w \<Rightarrow> 'a) \<Rightarrow> ('w, 'a) prog" where
  [prog_simps]: "getM f w = (Inr (f w), w)"

definition modifyM :: "('w \<Rightarrow> 'w) \<Rightarrow> ('w, unit) prog" where
  [prog_simps]: "modifyM f w = (Inr (), f w)"

definition whenM :: "bool \<Rightarrow> ('w, unit) prog \<Rightarrow> ('w, unit) prog" where
  [prog_simps]: "whenM b m = (if b then m else returnM ())"

text \<open>
  A \<^verbatim>\<open>try\<close> block: the handler sees the exception and says whether one of the
  \<^verbatim>\<open>catch\<close> clauses matches it; an exception that no clause matches goes on.
\<close>

definition tryM :: "('w, 'a) prog \<Rightarrow> (exn \<Rightarrow> ('w, 'a) prog option) \<Rightarrow> ('w, 'a) prog" where
  [prog_simps]: "tryM m h w =
     (case m w of
        (Inr x, w') \<Rightarrow> (Inr x, w')
      | (Inl e, w') \<Rightarrow> (case h e of None \<Rightarrow> (Inl e, w') | Some k \<Rightarrow> k w'))"

text \<open>Running a program of one component on the part of a larger state that holds it.\<close>

definition liftM :: "('w \<Rightarrow> 's) \<Rightarrow> ('s \<Rightarrow> 'w \<Rightarrow> 'w) \<Rightarrow> ('s, 'a) prog \<Rightarrow> ('w, 'a) prog" where
  [prog_simps]: "liftM get put m w = (case m (get w) of (r, s) \<Rightarrow> (r, put s w))"

lemma bindM_return [simp]: "bindM (returnM x) f = f x"
  by (rule ext) (simp add: prog_simps)

lemma bindM_assoc: "bindM (bindM m f) g = bindM m (\<lambda>x. bindM (f x) g)"
  by (rule ext) (auto simp: bindM_def split: prod.splits sum.splits)

text \<open>Inversion of a sequence that returned, and of one that threw.\<close>

lemma bindM_Inr_iff:
  "bindM m f w = (Inr y, w') \<longleftrightarrow> (\<exists>x u. m w = (Inr x, u) \<and> f x u = (Inr y, w'))"
  by (auto simp: bindM_def split: prod.splits sum.splits)

lemma bindM_Inl_iff:
  "bindM m f w = (Inl e, w') \<longleftrightarrow>
     m w = (Inl e, w') \<or> (\<exists>x u. m w = (Inr x, u) \<and> f x u = (Inl e, w'))"
  by (auto simp: bindM_def split: prod.splits sum.splits)

text \<open>
  A predicate on states that a program keeps, whatever its outcome; the rules compose the
  facts of the operations along a program.
\<close>

definition keeps :: "('w \<Rightarrow> bool) \<Rightarrow> ('w, 'a) prog \<Rightarrow> bool" where
  "keeps P m \<longleftrightarrow> (\<forall>w. P w \<longrightarrow> P (snd (m w)))"

lemma keepsI [intro?]: "(\<And>w. P w \<Longrightarrow> P (snd (m w))) \<Longrightarrow> keeps P m"
  by (simp add: keeps_def)

lemma keepsD: "keeps P m \<Longrightarrow> P w \<Longrightarrow> m w = (r, w') \<Longrightarrow> P w'"
  by (metis keeps_def snd_conv)

lemma keeps_return [inv_intros]: "keeps P (returnM x)"
  by (simp add: keeps_def returnM_def)

lemma keeps_throw [inv_intros]: "keeps P (throwM e)"
  by (simp add: keeps_def throwM_def)

lemma keeps_get [inv_intros]: "keeps P (getM f)"
  by (simp add: keeps_def getM_def)

lemma keeps_bind [inv_intros]: "keeps P m \<Longrightarrow> (\<And>x. keeps P (f x)) \<Longrightarrow> keeps P (bindM m f)"
  by (fastforce simp: keeps_def bindM_def split: prod.splits sum.splits)

lemma keeps_then [inv_intros]: "keeps P m \<Longrightarrow> keeps P n \<Longrightarrow> keeps P (thenM m n)"
  by (simp add: thenM_def keeps_bind)

lemma keeps_when [inv_intros]: "keeps P m \<Longrightarrow> keeps P (whenM b m)"
  by (simp add: whenM_def keeps_return)

lemma keeps_modify: "(\<And>w. P w \<Longrightarrow> P (f w)) \<Longrightarrow> keeps P (modifyM f)"
  by (simp add: keeps_def modifyM_def)

lemma keeps_try:
  assumes "keeps P m" and "\<And>e k. h e = Some k \<Longrightarrow> keeps P k"
  shows "keeps P (tryM m h)"
  using assms by (fastforce simp: keeps_def tryM_def split: prod.splits sum.splits option.splits)

lemma keeps_if [inv_intros]: "keeps P m \<Longrightarrow> keeps P n \<Longrightarrow> keeps P (if b then m else n)"
  by simp

lemma keeps_lift:
  assumes "keeps Q m" and "\<And>w. P w \<Longrightarrow> Q (get w)"
    and "\<And>w s. P w \<Longrightarrow> Q s \<Longrightarrow> P (put s w)"
  shows "keeps P (liftM get put m)"
  using assms by (fastforce simp: keeps_def liftM_def split: prod.splits)

text \<open>
  The same for a predicate that only has to hold when the program returns: a process that an
  exception has ended has no invariant.
\<close>

named_theorems ok_intros \<open>preservation by programs that return\<close>

definition okeeps :: "('w \<Rightarrow> bool) \<Rightarrow> ('w, 'a) prog \<Rightarrow> bool" where
  "okeeps P m \<longleftrightarrow> (\<forall>w x w'. P w \<longrightarrow> m w = (Inr x, w') \<longrightarrow> P w')"

lemma okeepsD: "okeeps P m \<Longrightarrow> P w \<Longrightarrow> m w = (Inr x, w') \<Longrightarrow> P w'"
  by (auto simp: okeeps_def)

lemma okeepsI: "(\<And>w x w'. P w \<Longrightarrow> m w = (Inr x, w') \<Longrightarrow> P w') \<Longrightarrow> okeeps P m"
  by (auto simp: okeeps_def)

lemma okeeps_keeps: "keeps P m \<Longrightarrow> okeeps P m"
  by (auto simp: okeeps_def dest: keepsD)

lemma okeeps_bind [ok_intros]: "okeeps P m \<Longrightarrow> (\<And>x. okeeps P (f x)) \<Longrightarrow> okeeps P (bindM m f)"
  unfolding okeeps_def bindM_Inr_iff by blast

lemma okeeps_then [ok_intros]: "okeeps P m \<Longrightarrow> okeeps P n \<Longrightarrow> okeeps P (thenM m n)"
  by (simp add: thenM_def okeeps_bind)

lemma okeeps_basic [ok_intros]: "okeeps P (returnM x)" "okeeps P (throwM e)" "okeeps P (getM f)"
  by (auto intro!: okeeps_keeps inv_intros)

lemma okeeps_modify: "(\<And>w. P w \<Longrightarrow> P (f w)) \<Longrightarrow> okeeps P (modifyM f)"
  by (auto intro!: okeeps_keeps keeps_modify)

section \<open>Reachable states and invariants\<close>

inductive reach :: "('s \<Rightarrow> bool) \<Rightarrow> ('s \<Rightarrow> 's \<Rightarrow> bool) \<Rightarrow> 's \<Rightarrow> bool"
  for init :: "'s \<Rightarrow> bool" and step :: "'s \<Rightarrow> 's \<Rightarrow> bool" where
  reach_init: "init s \<Longrightarrow> reach init step s"
| reach_step: "reach init step s \<Longrightarrow> step s t \<Longrightarrow> reach init step t"

text \<open>
  A machine that simulates an abstract one event by event, where the abstract one sees only the
  kind of an event, does so for every sequence of events.
\<close>

locale stepwise_simulation =
  fixes step :: "'s \<Rightarrow> 'e \<Rightarrow> 's"
    and astep :: "'a \<Rightarrow> 'k \<Rightarrow> 'a"
    and kind :: "'e \<Rightarrow> 'k"
    and rel :: "'s \<Rightarrow> 'a \<Rightarrow> bool"
  assumes sim: "rel s a \<Longrightarrow> rel (step s e) (astep a (kind e))"
begin

lemma run: "rel s a \<Longrightarrow> rel (foldl step s es) (foldl astep a (map kind es))"
  by (induction es arbitrary: s a) (simp_all add: sim)

end

text \<open>
  The contract of a component whose every step keeps an invariant: what its clients may assume
  of any state it can be in.
\<close>

locale invariant_system =
  fixes init :: "'s \<Rightarrow> bool" and step :: "'s \<Rightarrow> 's \<Rightarrow> bool" and inv :: "'s \<Rightarrow> bool"
  assumes inv_init: "init s \<Longrightarrow> inv s"
    and inv_step: "inv s \<Longrightarrow> step s t \<Longrightarrow> inv t"
begin

lemma reach_inv: "reach init step s \<Longrightarrow> inv s"
  by (induction rule: reach.induct) (auto intro: inv_init inv_step)

lemma steps_inv: "step\<^sup>*\<^sup>* s t \<Longrightarrow> inv s \<Longrightarrow> inv t"
  by (induction rule: rtranclp_induct) (auto intro: inv_step)

end

section \<open>Bytes\<close>

type_synonym byte = "8 word"

text \<open>The bytes of a \<^verbatim>\<open>std::string\<close> and back.\<close>

definition bytes_of_string :: "string \<Rightarrow> byte list" where
  "bytes_of_string s = map (\<lambda>c. of_nat (of_char c)) s"

definition string_of_bytes :: "byte list \<Rightarrow> string" where
  "string_of_bytes bs = map (\<lambda>b. char_of (unat b)) bs"

lemma bytes_string_roundtrip [simp]: "bytes_of_string (string_of_bytes bs) = bs"
proof -
  have "unat b mod 256 = unat b" for b :: byte
    using unsigned_less [of b, where 'a = nat] by simp
  then show ?thesis by (simp add: bytes_of_string_def string_of_bytes_def comp_def map_idI)
qed

lemma string_bytes_roundtrip [simp]: "string_of_bytes (bytes_of_string s) = s"
proof -
  have "unat (of_nat (of_char c) :: byte) = of_char c" for c
    using nat_of_char_less_256 [of c] by (simp add: unsigned_of_nat take_bit_nat_eq_self)
  then show ?thesis by (simp add: bytes_of_string_def string_of_bytes_def comp_def map_idI)
qed

section \<open>Lists and maps\<close>

text \<open>\<^verbatim>\<open>std::map::emplace\<close> stores a value only under a key that is not there yet.\<close>

definition map_emplace :: "'k \<Rightarrow> 'v \<Rightarrow> ('k \<rightharpoonup> 'v) \<Rightarrow> ('k \<rightharpoonup> 'v)" where
  "map_emplace k v m = (if m k = None then m(k \<mapsto> v) else m)"

definition map_erase :: "'k \<Rightarrow> ('k \<rightharpoonup> 'v) \<Rightarrow> ('k \<rightharpoonup> 'v)" where
  "map_erase k m = m(k := None)"

lemma map_emplace_same [simp]: "map_emplace k v m k = (case m k of None \<Rightarrow> Some v | Some u \<Rightarrow> Some u)"
  by (simp add: map_emplace_def split: option.splits)

lemma map_emplace_other [simp]: "k' \<noteq> k \<Longrightarrow> map_emplace k v m k' = m k'"
  by (simp add: map_emplace_def)

lemma map_emplace_le: "m \<subseteq>\<^sub>m map_emplace k v m"
  by (auto simp: map_emplace_def map_le_def)

lemma map_erase_same [simp]: "map_erase k m k = None"
  by (simp add: map_erase_def)

lemma map_erase_other [simp]: "k' \<noteq> k \<Longrightarrow> map_erase k m k' = m k'"
  by (simp add: map_erase_def)

text \<open>The position \<^verbatim>\<open>std::find_if\<close> stops at, and the element removed at a position.\<close>

fun find_if :: "('a \<Rightarrow> bool) \<Rightarrow> 'a list \<Rightarrow> nat option" where
  "find_if p [] = None"
| "find_if p (x # xs) = (if p x then Some 0 else map_option Suc (find_if p xs))"

definition erase_at :: "nat \<Rightarrow> 'a list \<Rightarrow> 'a list" where
  "erase_at i xs = take i xs @ drop (Suc i) xs"

lemma find_if_None: "find_if p xs = None \<longleftrightarrow> (\<forall>x\<in>set xs. \<not> p x)"
  by (induction xs) auto

lemma find_if_Some:
  "find_if p xs = Some i \<Longrightarrow> i < length xs \<and> p (xs ! i) \<and> (\<forall>j<i. \<not> p (xs ! j))"
proof (induction xs arbitrary: i)
  case Nil
  then show ?case by simp
next
  case (Cons x xs)
  then show ?case by (auto simp: nth_Cons split: if_splits nat.splits)
qed

lemma set_erase_at: "set (erase_at i xs) \<subseteq> set xs"
  unfolding erase_at_def by (auto dest: in_set_takeD in_set_dropD)

lemma length_erase_at: "i < length xs \<Longrightarrow> length (erase_at i xs) = length xs - 1"
  by (simp add: erase_at_def)

lemma map_erase_at: "map f (erase_at i xs) = erase_at i (map f xs)"
  by (simp add: erase_at_def take_map drop_map)

lemma distinct_erase_at: "distinct xs \<Longrightarrow> distinct (erase_at i xs)"
  by (simp add: erase_at_def set_take_disj_set_drop_if_distinct)

lemma erase_at_append: "erase_at (length xs) (xs @ [x]) = xs"
  by (simp add: erase_at_def)

end
