(* ===== verification/Event_Queue.thy ===== *)
theory Event_Queue
  imports Prelude
begin

text \<open>
  \<^verbatim>\<open>OptionalQueue\<close> of \<^verbatim>\<open>tg2sip/queue.h\<close>: the mutex-protected queue that
  carries the events of PJSIP, TDLib and the state machines to the gateway thread. Each operation
  holds the mutex for its whole body, so an execution with many threads is some sequence of
  whole operations.
\<close>

section \<open>The queue\<close>

type_synonym 'a optional_queue = "'a option list"

definition queue_empty :: "'a optional_queue" where
  "queue_empty = []"

definition emplace :: "'a option \<Rightarrow> 'a optional_queue \<Rightarrow> 'a optional_queue" where
  "emplace v q = q @ [v]"

definition queue_pop :: "'a optional_queue \<Rightarrow> 'a option \<times> 'a optional_queue" where
  "queue_pop q = (case q of [] \<Rightarrow> (None, []) | v # q' \<Rightarrow> (v, q'))"

section \<open>The interface of a FIFO queue\<close>

text \<open>
  What the clients rely on: an abstract list of the stored values, adding at its end, taking from
  its front, and an empty answer exactly when there is nothing to take.
\<close>

locale fifo =
  fixes fempty :: "'q" and fput :: "'a \<Rightarrow> 'q \<Rightarrow> 'q" and fget :: "'q \<Rightarrow> 'a option \<times> 'q"
    and fabs :: "'q \<Rightarrow> 'a list" and finv :: "'q \<Rightarrow> bool"
  assumes fabs_empty: "fabs fempty = []"
    and finv_empty: "finv fempty"
    and fabs_put: "finv q \<Longrightarrow> fabs (fput x q) = fabs q @ [x]"
    and finv_put: "finv q \<Longrightarrow> finv (fput x q)"
    and fget_Nil: "finv q \<Longrightarrow> fabs q = [] \<Longrightarrow> fget q = (None, q)"
    and fget_Cons: "finv q \<Longrightarrow> fabs q = x # xs \<Longrightarrow>
      fst (fget q) = Some x \<and> fabs (snd (fget q)) = xs \<and> finv (snd (fget q))"
begin

lemma finv_get: "finv q \<Longrightarrow> finv (snd (fget q))"
  by (cases "fabs q") (auto simp: fget_Nil fget_Cons)

lemma fabs_get: "finv q \<Longrightarrow> fabs (snd (fget q)) = tl (fabs q)"
  by (cases "fabs q") (auto simp: fget_Nil fget_Cons)

lemma fst_get: "finv q \<Longrightarrow> fst (fget q) = (case fabs q of [] \<Rightarrow> None | x # _ \<Rightarrow> Some x)"
  by (cases "fabs q") (auto simp: fget_Nil fget_Cons)

end

section \<open>The queue implements the interface\<close>

text \<open>
  Every producer of the sources emplaces a value, never \<^verbatim>\<open>std::nullopt\<close>; a stored
  \<^verbatim>\<open>nullopt\<close> would be indistinguishable from an empty queue.
\<close>

definition queue_inv :: "'a optional_queue \<Rightarrow> bool" where
  "queue_inv q = (None \<notin> set q)"

definition queue_abs :: "'a optional_queue \<Rightarrow> 'a list" where
  "queue_abs q = map the q"

lemma queue_abs_Cons:
  assumes "queue_inv q" and "queue_abs q = x # xs"
  obtains q' where "q = Some x # q'" and "queue_abs q' = xs" and "queue_inv q'"
proof (cases q)
  case Nil
  with assms(2) show ?thesis by (simp add: queue_abs_def)
next
  case (Cons v q')
  with assms have "v = Some x" by (cases v) (simp_all add: queue_inv_def queue_abs_def)
  moreover from Cons assms have "queue_abs q' = xs" "queue_inv q'"
    by (simp_all add: queue_inv_def queue_abs_def)
  ultimately show ?thesis using Cons that by blast
qed

interpretation oq: fifo queue_empty "\<lambda>x. emplace (Some x)" queue_pop queue_abs queue_inv
proof unfold_locales
  fix q :: "'a optional_queue" and x xs
  assume "queue_inv q" and "queue_abs q = x # xs"
  then obtain q' where "q = Some x # q'" "queue_abs q' = xs" "queue_inv q'"
    by (rule queue_abs_Cons)
  then show "fst (queue_pop q) = Some x \<and> queue_abs (snd (queue_pop q)) = xs \<and> queue_inv (snd (queue_pop q))"
    by (simp add: queue_pop_def)
qed (auto simp: queue_empty_def emplace_def queue_pop_def queue_abs_def queue_inv_def)

section \<open>Properties\<close>

text \<open>An operation on a queue, as one thread performs it under the mutex.\<close>

datatype 'a queue_op = Emplace 'a | Pop

fun run_queue :: "'a queue_op list \<Rightarrow> 'a optional_queue \<Rightarrow> 'a list \<times> 'a optional_queue" where
  "run_queue [] q = ([], q)"
| "run_queue (Emplace x # ops) q = run_queue ops (emplace (Some x) q)"
| "run_queue (Pop # ops) q =
     (case queue_pop q of (v, q') \<Rightarrow>
      case run_queue ops q' of (out, q'') \<Rightarrow> ((case v of None \<Rightarrow> out | Some x \<Rightarrow> x # out), q''))"

primrec emplaced :: "'a queue_op list \<Rightarrow> 'a list" where
  "emplaced [] = []"
| "emplaced (p # ops) = (case p of Emplace x \<Rightarrow> x # emplaced ops | Pop \<Rightarrow> emplaced ops)"

lemma run_queue_fifo:
  "queue_inv q \<Longrightarrow> run_queue ops q = (out, q') \<Longrightarrow>
     out @ queue_abs q' = queue_abs q @ emplaced ops \<and> queue_inv q'"
proof (induction ops q arbitrary: out q' rule: run_queue.induct)
  case (1 q)
  then show ?case by simp
next
  case (2 x ops q)
  from 2(1) [OF oq.finv_put [OF 2(2)]] 2(2,3) show ?case
    by (simp add: oq.fabs_put)
next
  case (3 ops q)
  obtain v p where pop: "queue_pop q = (v, p)" by (cases "queue_pop q")
  obtain os r where rest: "run_queue ops p = (os, r)" by (cases "run_queue ops p")
  have p: "queue_inv p" "queue_abs p = tl (queue_abs q)"
    and v: "v = (case queue_abs q of [] \<Rightarrow> None | x # _ \<Rightarrow> Some x)"
    using oq.finv_get [OF 3(2)] oq.fabs_get [OF 3(2)] oq.fst_get [OF 3(2)] pop by auto
  from 3(1) [OF pop [symmetric] p(1) rest] 3(3) pop rest p v show ?case
    by (auto split: list.splits)
qed

end
