(* ===== verification/Ring_Buffer.thy ===== *)
theory Ring_Buffer
  imports Prelude
begin

text \<open>
  \<^verbatim>\<open>voip::RingBuffer\<close> of \<^verbatim>\<open>tg2sip/voip/ring_buffer.h\<close>: the bounded buffer of PCM
  samples between the media thread of PJSIP and the audio thread of the calling backend. The
  indices are 64-bit \<^verbatim>\<open>size_t\<close> values, so \<^verbatim>\<open>head - tail + capacity_\<close> is the wrapping
  subtraction of the source. The sequential operations are shown to implement a bounded FIFO of
  samples; the lock-free interleaving of one producer and one consumer is in the theory
  \<^verbatim>\<open>Ring_Buffer_SPSC\<close>.
\<close>

section \<open>State and operations\<close>

type_synonym sample = "16 word"
type_synonym size_t = "64 word"

record ring_buffer =
  rb_capacity :: size_t
  rb_buffer :: "sample list"
  rb_head :: size_t
  rb_tail :: size_t

definition new_ring_buffer :: "size_t \<Rightarrow> ring_buffer" where
  "new_ring_buffer capacity_samples =
     \<lparr>rb_capacity = capacity_samples, rb_buffer = replicate (unat capacity_samples) 0, rb_head = 0, rb_tail = 0\<rparr>"

text \<open>Number of stored samples, and of free slots, from two index values.\<close>

definition pop_available :: "size_t \<Rightarrow> size_t \<Rightarrow> size_t \<Rightarrow> size_t" where
  "pop_available cap head tail = (head - tail + cap) mod cap"

definition push_available :: "size_t \<Rightarrow> size_t \<Rightarrow> size_t \<Rightarrow> size_t" where
  "push_available cap head tail = cap - 1 - (head - tail + cap) mod cap"

definition slot :: "size_t \<Rightarrow> size_t \<Rightarrow> size_t \<Rightarrow> nat" where
  "slot cap base i = unat ((base + i) mod cap)"

definition push_loop :: "size_t \<Rightarrow> size_t \<Rightarrow> sample list \<Rightarrow> nat \<Rightarrow> sample list \<Rightarrow> sample list" where
  "push_loop cap head data n buf =
     fold (\<lambda>i b. b[slot cap head (of_nat i) := data ! i]) [0..<n] buf"

definition push :: "sample list \<Rightarrow> size_t \<Rightarrow> ring_buffer \<Rightarrow> ring_buffer" where
  "push data samples rb =
     (let available = push_available (rb_capacity rb) (rb_head rb) (rb_tail rb);
          samples = (if samples > available then available else samples)
      in if samples = 0 then rb
         else rb\<lparr>rb_buffer := push_loop (rb_capacity rb) (rb_head rb) data (unat samples) (rb_buffer rb),
                 rb_head := (rb_head rb + samples) mod rb_capacity rb\<rparr>)"

text \<open>The samples written through the \<^verbatim>\<open>data\<close> pointer of \<^verbatim>\<open>pop\<close> are returned.\<close>

definition pop :: "size_t \<Rightarrow> ring_buffer \<Rightarrow> sample list \<times> ring_buffer" where
  "pop samples rb =
     (let available = pop_available (rb_capacity rb) (rb_head rb) (rb_tail rb);
          to_copy = (if samples < available then samples else available)
      in (map (\<lambda>i. rb_buffer rb ! slot (rb_capacity rb) (rb_tail rb) (of_nat i)) [0..<unat to_copy]
            @ replicate (unat samples - unat to_copy) 0,
          rb\<lparr>rb_tail := (rb_tail rb + to_copy) mod rb_capacity rb\<rparr>))"

section \<open>Well-formed buffers and their contents\<close>

text \<open>
  The capacity is a constant of the sources (48000); all that the index arithmetic needs is that
  it is positive and that the sum of two indices fits a \<^verbatim>\<open>size_t\<close>.
\<close>

definition cap_ok :: "size_t \<Rightarrow> bool" where
  "cap_ok cap \<longleftrightarrow> 0 < unat cap \<and> unat cap \<le> 2 ^ 63"

definition rb_inv :: "ring_buffer \<Rightarrow> bool" where
  "rb_inv rb \<longleftrightarrow> cap_ok (rb_capacity rb) \<and> length (rb_buffer rb) = unat (rb_capacity rb)
     \<and> unat (rb_head rb) < unat (rb_capacity rb) \<and> unat (rb_tail rb) < unat (rb_capacity rb)"

text \<open>The stored samples, oldest first: the slots from the tail up to the head, modulo the capacity.\<close>

definition stored :: "nat \<Rightarrow> nat \<Rightarrow> nat \<Rightarrow> nat" where
  "stored c h t = (h + c - t) mod c"

definition ring_slice :: "'a list \<Rightarrow> nat \<Rightarrow> nat \<Rightarrow> 'a list" where
  "ring_slice buf t n = map (\<lambda>i. buf ! ((t + i) mod length buf)) [0..<n]"

definition contents :: "ring_buffer \<Rightarrow> sample list" where
  "contents rb = ring_slice (rb_buffer rb) (unat (rb_tail rb))
     (stored (unat (rb_capacity rb)) (unat (rb_head rb)) (unat (rb_tail rb)))"

lemma length_ring_slice [simp]: "length (ring_slice buf t n) = n"
  by (simp add: ring_slice_def)

section \<open>Index arithmetic\<close>

lemma unat_add_small:
  fixes h k :: size_t
  shows "cap_ok c \<Longrightarrow> unat h < unat c \<Longrightarrow> unat k \<le> unat c \<Longrightarrow> unat (h + k) = unat h + unat k"
  by (subst unat_add_lem [THEN iffD1]) (auto simp: cap_ok_def)

lemma unat_diff_cap:
  assumes "cap_ok c" and "unat h < unat c" and "unat t < unat c"
  shows "unat (h - t + c) = unat h + unat c - unat t"
proof -
  have eq: "h - t + c = h + (c - t)" by simp
  have ct: "unat (c - t) = unat c - unat t"
    using assms(3) by (simp add: unat_sub word_le_nat_alt)
  have "unat (h + (c - t)) = unat h + unat (c - t)"
    using assms ct by (intro unat_add_small [of c]) simp_all
  then show ?thesis using ct assms(3) by (simp only: eq)
qed

lemma unat_pop_available:
  assumes "cap_ok c" and "unat h < unat c" and "unat t < unat c"
  shows "unat (pop_available c h t) = stored (unat c) (unat h) (unat t)"
  by (simp add: pop_available_def stored_def unat_mod unat_diff_cap [OF assms])

lemma stored_less: "0 < c \<Longrightarrow> stored c h t < c"
  by (simp add: stored_def)

lemma unat_push_available:
  assumes "cap_ok c" and "unat h < unat c" and "unat t < unat c"
  shows "unat (push_available c h t) = unat c - 1 - stored (unat c) (unat h) (unat t)"
proof -
  have c: "0 < unat c" using assms(1) by (simp add: cap_ok_def)
  have one: "unat (c - 1) = unat c - 1"
    using c by (subst unat_sub) (simp_all add: word_le_nat_alt)
  have "unat (pop_available c h t) \<le> unat (c - 1)"
    using stored_less [OF c, of "unat h" "unat t"] by (simp add: unat_pop_available assms one)
  then have "unat (c - 1 - pop_available c h t) = unat (c - 1) - unat (pop_available c h t)"
    by (subst unat_sub) (simp_all add: word_le_nat_alt)
  then show ?thesis
    by (simp add: push_available_def one unat_pop_available assms flip: pop_available_def)
qed

lemma slot_eq:
  assumes "cap_ok c" and "unat b < unat c" and "i \<le> unat c"
  shows "slot c b (of_nat i) = (unat b + i) mod unat c"
proof -
  have "unat c < 2 ^ 64" using unsigned_less [of c] by simp
  then have i: "unat (of_nat i :: size_t) = i"
    using assms(3) by (simp add: unsigned_of_nat take_bit_nat_eq_self)
  show ?thesis
    using unat_add_small [OF assms(1,2), of "of_nat i"] assms(3)
    by (simp add: slot_def unat_mod i)
qed

lemma stored_advance_head:
  assumes "h < c" and "t < c" and "k \<le> c - 1 - stored c h t"
  shows "stored c ((h + k) mod c) t = stored c h t + k"
proof -
  have c: "0 < c" using assms(1) by simp
  have "stored c ((h + k) mod c) t = (h + c - t + k) mod c"
  proof -
    have "((h + k) mod c + c - t) mod c = ((h + k) mod c + (c - t)) mod c"
      using assms(2) by simp
    also have "\<dots> = (h + k + (c - t)) mod c" by (simp add: mod_add_left_eq)
    finally show ?thesis using assms(2) by (simp add: stored_def ac_simps)
  qed
  also have "\<dots> = (stored c h t + k) mod c"
    by (simp add: stored_def mod_add_left_eq)
  also have "\<dots> = stored c h t + k"
    using stored_less [OF c, of h t] assms(3) c by (intro mod_less) linarith
  finally show ?thesis .
qed

lemma mod_add_inj:
  fixes a c d e :: nat
  assumes "a < c" and "d < c" and "e < c" and "(a + d) mod c = (a + e) mod c"
  shows "d = e"
proof -
  have mod: "(a + x) mod c = (if a + x < c then a + x else a + x - c)" if "x < c" for x
    using that assms(1) by (auto simp: le_mod_geq)
  show ?thesis
    using assms(1-3) assms(4) [unfolded mod [OF assms(2)] mod [OF assms(3)]]
    by (auto split: if_splits)
qed

lemma tail_plus_stored: "h < c \<Longrightarrow> t < c \<Longrightarrow> (t + stored c h t) mod c = h"
  by (simp add: stored_def mod_add_right_eq)

lemma stored_advance_tail:
  assumes "h < c" and "t < c" and "k \<le> stored c h t"
  shows "stored c h ((t + k) mod c) = stored c h t - k"
proof (rule mod_add_inj)
  have c: "0 < c" using assms(1) by simp
  show "(t + k) mod c < c" using c by simp
  show "stored c h ((t + k) mod c) < c" by (rule stored_less [OF c])
  show "stored c h t - k < c" using stored_less [OF c, of h t] by simp
  have "((t + k) mod c + (stored c h t - k)) mod c = (t + k + (stored c h t - k)) mod c"
    by (rule mod_add_left_eq)
  also have "\<dots> = h"
    using tail_plus_stored [OF assms(1,2)] assms(3) by (simp add: add.assoc)
  finally have "((t + k) mod c + (stored c h t - k)) mod c = h" .
  then show "((t + k) mod c + stored c h ((t + k) mod c)) mod c
      = ((t + k) mod c + (stored c h t - k)) mod c"
    using tail_plus_stored [OF assms(1), of "(t + k) mod c"] c by simp
qed

section \<open>The copy loop\<close>

lemma length_push_loop [simp]: "length (push_loop c h data n buf) = length buf"
  by (induction n) (simp_all add: push_loop_def)

text \<open>The loop writes the first \<open>n\<close> samples to the slots after the head and nothing else.\<close>

lemma push_loop_nth:
  assumes "cap_ok c" and "unat h < unat c" and "length buf = unat c" and "n < unat c" and "j < unat c"
  shows "push_loop c h data n buf ! ((unat h + j) mod unat c) =
    (if j < n then data ! j else buf ! ((unat h + j) mod unat c))"
  using assms(4)
proof (induction n)
  case 0
  then show ?case by (simp add: push_loop_def)
next
  case (Suc n)
  let ?c = "unat c" and ?h = "unat h"
  have step: "push_loop c h data (Suc n) buf = (push_loop c h data n buf)[(?h + n) mod ?c := data ! n]"
    using Suc.prems by (simp add: push_loop_def slot_eq [OF assms(1,2)])
  have same: "(?h + n) mod ?c = (?h + j) mod ?c \<longleftrightarrow> n = j"
    using mod_add_inj [OF assms(2), of n j] Suc.prems assms(5) by auto
  show ?case
    using Suc same assms(3) by (auto simp: step nth_list_update)
qed

section \<open>Refinement of a bounded FIFO\<close>

lemma length_contents: "length (contents rb) = stored (unat (rb_capacity rb)) (unat (rb_head rb)) (unat (rb_tail rb))"
  by (simp add: contents_def ring_slice_def)

lemma rb_inv_new: "cap_ok c \<Longrightarrow> rb_inv (new_ring_buffer c)"
  by (simp add: rb_inv_def new_ring_buffer_def cap_ok_def)

lemma contents_new: "contents (new_ring_buffer c) = []"
  by (simp add: contents_def new_ring_buffer_def stored_def ring_slice_def)

lemma rb_inv_stored:
  "rb_inv rb \<Longrightarrow> length (contents rb) \<le> unat (rb_capacity rb) - 1"
  using stored_less [of "unat (rb_capacity rb)" "unat (rb_head rb)" "unat (rb_tail rb)"]
  by (auto simp: rb_inv_def length_contents)

text \<open>How many samples a push takes: what fits beside what is stored, with one slot kept free.\<close>

definition push_count :: "size_t \<Rightarrow> ring_buffer \<Rightarrow> nat" where
  "push_count samples rb = min (unat samples) (unat (rb_capacity rb) - 1 - length (contents rb))"

lemma push_samples:
  assumes "rb_inv rb"
  shows "unat (if samples > push_available (rb_capacity rb) (rb_head rb) (rb_tail rb)
               then push_available (rb_capacity rb) (rb_head rb) (rb_tail rb) else samples)
    = push_count samples rb"
  using assms by (auto simp: rb_inv_def push_count_def unat_push_available length_contents
      word_less_nat_alt min_def)

lemma push_unfold:
  assumes "rb_inv rb"
  shows "push data samples rb = rb
    \<lparr>rb_buffer := push_loop (rb_capacity rb) (rb_head rb) data (push_count samples rb) (rb_buffer rb),
     rb_head := of_nat ((unat (rb_head rb) + push_count samples rb) mod unat (rb_capacity rb))\<rparr>"
proof -
  let ?av = "push_available (rb_capacity rb) (rb_head rb) (rb_tail rb)"
  let ?n = "if samples > ?av then ?av else samples"
  note [simp] = push_samples [OF assms, of samples]
  have c: "cap_ok (rb_capacity rb)" and h: "unat (rb_head rb) < unat (rb_capacity rb)"
    using assms by (simp_all add: rb_inv_def)
  have le: "unat ?n \<le> unat (rb_capacity rb)"
    by (simp add: push_count_def)
  have head: "(rb_head rb + ?n) mod rb_capacity rb =
      of_nat ((unat (rb_head rb) + push_count samples rb) mod unat (rb_capacity rb))"
    by (subst word_arith_nat_mod) (simp add: unat_add_small [OF c h le])
  show ?thesis
  proof (cases "?n = 0")
    case True
    then have "push_count samples rb = 0"
      using push_samples [OF assms, of samples] by simp
    then show ?thesis
      using True h by (simp add: push_def Let_def push_loop_def)
  next
    case False
    then show ?thesis
      using head by (simp add: push_def Let_def push_samples [OF assms])
  qed
qed

lemma unat_of_nat_mod: "unat (of_nat (x mod unat c) :: size_t) = x mod unat c" if "0 < unat c" for c :: size_t
proof -
  have "x mod unat c < unat c" using that by simp
  also have "\<dots> < 2 ^ 64" using unsigned_less [of c] by simp
  finally show ?thesis by (simp add: unsigned_of_nat take_bit_nat_eq_self)
qed

lemma rb_inv_push [inv_intros]:
  assumes "rb_inv rb"
  shows "rb_inv (push data samples rb)"
  using assms by (simp add: push_unfold rb_inv_def cap_ok_def unat_of_nat_mod)

text \<open>
  Pushing appends the longest prefix of the given samples that fits; the rest is dropped and what
  was stored stays.
\<close>

lemma contents_push:
  assumes inv: "rb_inv rb" and len: "unat samples \<le> length data"
  shows "contents (push data samples rb) =
    contents rb @ take (unat (rb_capacity rb) - 1 - length (contents rb)) (take (unat samples) data)"
proof -
  let ?c = "unat (rb_capacity rb)" and ?h = "unat (rb_head rb)" and ?t = "unat (rb_tail rb)"
  let ?k = "push_count samples rb" and ?s = "stored ?c ?h ?t"
  let ?buf = "push_loop (rb_capacity rb) (rb_head rb) data ?k (rb_buffer rb)"
  have c: "cap_ok (rb_capacity rb)" "0 < ?c" "?h < ?c" "?t < ?c" "length (rb_buffer rb) = ?c"
    using inv by (auto simp: rb_inv_def cap_ok_def)
  have s: "?s < ?c" using c(2) by (rule stored_less)
  have k: "?k \<le> ?c - 1 - ?s" "?k < ?c" "?k \<le> length data"
    using c(2) len by (auto simp: push_count_def length_contents)
  have count: "stored ?c ((?h + ?k) mod ?c) ?t = ?s + ?k"
    using c k(1) by (intro stored_advance_head) simp_all
  have h: "(?t + ?s) mod ?c = ?h" using c by (intro tail_plus_stored) simp_all
  have old: "?buf ! ((?t + i) mod ?c) = rb_buffer rb ! ((?t + i) mod ?c)" if "i < ?s" for i
  proof -
    have "(?h + (?c - ?s + i)) mod ?c = (?t + ?s + (?c - ?s + i)) mod ?c"
      using h by (metis mod_add_left_eq)
    also have "?t + ?s + (?c - ?s + i) = ?t + i + ?c" using s by simp
    finally have j: "(?h + (?c - ?s + i)) mod ?c = (?t + i) mod ?c" by simp
    have "?c - ?s + i < ?c" and "\<not> ?c - ?s + i < ?k"
      using that s k(1) by linarith+
    then show ?thesis
      using push_loop_nth [OF c(1,3,5) k(2), of "?c - ?s + i" data] by (simp only: j if_False)
  qed
  have new: "?buf ! ((?t + i) mod ?c) = data ! (i - ?s)" if "\<not> i < ?s" "i < ?s + ?k" for i
  proof -
    have "(?h + (i - ?s)) mod ?c = (?t + ?s + (i - ?s)) mod ?c"
      by (subst h [symmetric]) (rule mod_add_left_eq)
    also have "?t + ?s + (i - ?s) = ?t + i" using that by simp
    finally have "(?t + i) mod ?c = (?h + (i - ?s)) mod ?c" ..
    moreover have "i - ?s < ?k" using that by simp
    ultimately show ?thesis
      using push_loop_nth [OF c(1,3,5) k(2), of "i - ?s" data] k(2) by simp
  qed
  have "contents (push data samples rb) = ring_slice ?buf ?t (?s + ?k)"
    using c(2) by (simp add: contents_def push_unfold [OF inv] unat_of_nat_mod count)
  also have "\<dots> = ring_slice (rb_buffer rb) ?t ?s @ take ?k data"
    using old new k(3) c(5)
    by (intro nth_equalityI) (auto simp: ring_slice_def nth_append)
  also have "take ?k data = take (?c - 1 - ?s) (take (unat samples) data)"
    by (simp add: push_count_def length_contents min.commute)
  finally show ?thesis by (simp add: contents_def length_contents)
qed

lemma pop_samples:
  assumes "rb_inv rb"
  shows "unat (if samples < pop_available (rb_capacity rb) (rb_head rb) (rb_tail rb)
               then samples else pop_available (rb_capacity rb) (rb_head rb) (rb_tail rb))
    = min (unat samples) (length (contents rb))"
  using assms by (auto simp: rb_inv_def unat_pop_available length_contents word_less_nat_alt min_def)

text \<open>
  Popping takes the oldest samples and pads with silence, so that the caller gets exactly as many
  as it asked for.
\<close>

lemma pop_result:
  assumes "rb_inv rb"
  shows "fst (pop samples rb) =
    take (unat samples) (contents rb) @ replicate (unat samples - length (contents rb)) 0"
proof -
  have c: "cap_ok (rb_capacity rb)" "unat (rb_tail rb) < unat (rb_capacity rb)"
      "length (rb_buffer rb) = unat (rb_capacity rb)"
    using assms by (auto simp: rb_inv_def)
  have bound: "min (unat samples) (length (contents rb)) \<le> unat (rb_capacity rb)"
    using rb_inv_stored [OF assms] by linarith
  have "map (\<lambda>i. rb_buffer rb ! slot (rb_capacity rb) (rb_tail rb) (of_nat i))
        [0..<min (unat samples) (length (contents rb))] = take (unat samples) (contents rb)"
    using bound slot_eq [OF c(1,2)] c(3)
    by (intro nth_equalityI) (auto simp: contents_def ring_slice_def)
  then show ?thesis
    by (simp add: pop_def Let_def pop_samples [OF assms])
qed

lemma pop_state:
  assumes "rb_inv rb"
  shows "snd (pop samples rb) = rb
    \<lparr>rb_tail := of_nat ((unat (rb_tail rb) + min (unat samples) (length (contents rb))) mod unat (rb_capacity rb))\<rparr>"
proof -
  have c: "cap_ok (rb_capacity rb)" "unat (rb_tail rb) < unat (rb_capacity rb)"
    using assms by (auto simp: rb_inv_def)
  have le: "unat (if samples < pop_available (rb_capacity rb) (rb_head rb) (rb_tail rb)
      then samples else pop_available (rb_capacity rb) (rb_head rb) (rb_tail rb)) \<le> unat (rb_capacity rb)"
    using rb_inv_stored [OF assms] unfolding pop_samples [OF assms] by linarith
  show ?thesis
    by (simp add: pop_def Let_def word_arith_nat_mod [of "_ + _"] unat_add_small [OF c le] pop_samples [OF assms])
qed

lemma rb_inv_pop [inv_intros]:
  "rb_inv rb \<Longrightarrow> rb_inv (snd (pop samples rb))"
  by (simp add: pop_state) (simp add: rb_inv_def cap_ok_def unat_of_nat_mod)

lemma contents_pop:
  assumes "rb_inv rb"
  shows "contents (snd (pop samples rb)) = drop (unat samples) (contents rb)"
proof -
  let ?c = "unat (rb_capacity rb)" and ?h = "unat (rb_head rb)" and ?t = "unat (rb_tail rb)"
  let ?s = "stored ?c ?h ?t" and ?k = "min (unat samples) (stored ?c ?h ?t)"
  have c: "0 < ?c" "?h < ?c" "?t < ?c" "length (rb_buffer rb) = ?c"
    using assms by (auto simp: rb_inv_def cap_ok_def)
  have count: "stored ?c ?h ((?t + ?k) mod ?c) = ?s - ?k"
    using c by (intro stored_advance_tail) simp_all
  have "contents (snd (pop samples rb)) = ring_slice (rb_buffer rb) ((?t + ?k) mod ?c) (?s - ?k)"
    unfolding pop_state [OF assms] length_contents
    using c(1) by (simp add: contents_def unat_of_nat_mod count)
  also have "\<dots> = drop ?k (ring_slice (rb_buffer rb) ?t ?s)"
    using c(4) by (intro nth_equalityI) (auto simp: ring_slice_def mod_add_left_eq add.assoc)
  also have "\<dots> = drop (unat samples) (contents rb)"
    by (auto simp: contents_def ring_slice_def min_def)
  finally show ?thesis .
qed

section \<open>The interface the audio path uses\<close>

text \<open>
  A bounded channel of samples: what is put comes out in order, what does not fit is dropped, a
  take always yields the number asked for.
\<close>

locale sample_channel =
  fixes chan_put :: "sample list \<Rightarrow> 'b \<Rightarrow> 'b" and chan_take :: "nat \<Rightarrow> 'b \<Rightarrow> sample list \<times> 'b"
    and chan_abs :: "'b \<Rightarrow> sample list" and chan_inv :: "'b \<Rightarrow> bool" and chan_cap :: "'b \<Rightarrow> nat"
    and chan_max :: nat
  assumes inv_put: "chan_inv b \<Longrightarrow> chan_inv (chan_put d b)"
    and inv_take: "chan_inv b \<Longrightarrow> chan_inv (snd (chan_take n b))"
    and cap_put: "chan_cap (chan_put d b) = chan_cap b"
    and cap_take: "chan_cap (snd (chan_take n b)) = chan_cap b"
    and abs_bound: "chan_inv b \<Longrightarrow> length (chan_abs b) \<le> chan_cap b"
    and abs_put: "chan_inv b \<Longrightarrow> length d \<le> chan_max \<Longrightarrow>
      chan_abs (chan_put d b) = chan_abs b @ take (chan_cap b - length (chan_abs b)) d"
    and take_result: "chan_inv b \<Longrightarrow> n \<le> chan_max \<Longrightarrow>
      fst (chan_take n b) = take n (chan_abs b) @ replicate (n - length (chan_abs b)) 0"
    and abs_take: "chan_inv b \<Longrightarrow> n \<le> chan_max \<Longrightarrow>
      chan_abs (snd (chan_take n b)) = drop n (chan_abs b)"
begin

lemma length_take_result: "chan_inv b \<Longrightarrow> n \<le> chan_max \<Longrightarrow> length (fst (chan_take n b)) = n"
  by (simp add: take_result)

lemma put_lossless:
  "chan_inv b \<Longrightarrow> length d \<le> chan_max \<Longrightarrow> length (chan_abs b) + length d \<le> chan_cap b \<Longrightarrow>
     chan_abs (chan_put d b) = chan_abs b @ d"
  by (simp add: abs_put)

lemma put_take_roundtrip:
  assumes "chan_inv b" and "chan_abs b = []" and "length d \<le> chan_cap b" and "length d \<le> chan_max"
  shows "fst (chan_take (length d) (chan_put d b)) = d"
  using assms put_lossless [of b d] by (simp add: take_result inv_put)

lemma take_underrun:
  "chan_inv b \<Longrightarrow> chan_abs b = [] \<Longrightarrow> n \<le> chan_max \<Longrightarrow> fst (chan_take n b) = replicate n 0"
  by (simp add: take_result)

end

definition rb_put :: "sample list \<Rightarrow> ring_buffer \<Rightarrow> ring_buffer" where
  "rb_put data rb = push data (of_nat (length data)) rb"

definition rb_take :: "nat \<Rightarrow> ring_buffer \<Rightarrow> sample list \<times> ring_buffer" where
  "rb_take n rb = pop (of_nat n) rb"

definition SIZE_MAX :: nat where "SIZE_MAX = 18446744073709551615"

lemma unat_of_nat_size: "n \<le> SIZE_MAX \<Longrightarrow> unat (of_nat n :: size_t) = n"
  by (simp add: SIZE_MAX_def unsigned_of_nat take_bit_nat_eq_self)

lemma rb_capacity_push [simp]: "rb_capacity (push d n rb) = rb_capacity rb"
  by (simp add: push_def Let_def)

lemma rb_capacity_pop [simp]: "rb_capacity (snd (pop n rb)) = rb_capacity rb"
  by (simp add: pop_def Let_def)

interpretation rb: sample_channel rb_put rb_take contents rb_inv "\<lambda>rb. unat (rb_capacity rb) - 1" SIZE_MAX
  by unfold_locales
    (simp_all add: rb_put_def rb_take_def rb_inv_push rb_inv_pop rb_inv_stored [simplified] contents_push
      pop_result contents_pop unat_of_nat_size)

end
