(* ===== verification/Ring_Buffer_SPSC.thy ===== *)
theory Ring_Buffer_SPSC
  imports Ring_Buffer
begin

text \<open>
  The lock-free use of \<^verbatim>\<open>voip::RingBuffer\<close>: one producer thread inside
  \<^verbatim>\<open>push\<close> and one consumer thread inside \<^verbatim>\<open>pop\<close>, interleaved at every load,
  store and buffer access of \<^verbatim>\<open>ring_buffer.h\<close>. The index each thread works with is
  the one it loaded, which the other thread may have moved on since. The steps are atomic and
  in program order, which is what the acquire and release annotations of the two indices give
  to the accesses they order. Ghost fields record what was published and what was taken.
\<close>

section \<open>Threads\<close>

datatype producer =
    PIdle
  | PHead "sample list" size_t size_t
  | PCopy "sample list" nat size_t nat

datatype consumer =
    CIdle
  | CHead size_t size_t
  | CCopy nat size_t nat "sample list"

record spsc =
  shared :: ring_buffer
  producer :: producer
  consumer :: consumer
  published :: "sample list"
  taken :: "sample list"

definition spsc_init :: "spsc \<Rightarrow> bool" where
  "spsc_init s \<longleftrightarrow> (\<exists>c. cap_ok c \<and> s = \<lparr>shared = new_ring_buffer c, producer = PIdle, consumer = CIdle,
      published = [], taken = []\<rparr>)"

text \<open>
  The producer: load \<^verbatim>\<open>head_\<close>; load \<^verbatim>\<open>tail_\<close> and clip the count, returning when
  nothing fits; one buffer write per step; store \<^verbatim>\<open>head_\<close>.
\<close>

inductive prod_step :: "spsc \<Rightarrow> spsc \<Rightarrow> bool" where
  load_head: "producer s = PIdle \<Longrightarrow> unat n \<le> length d \<Longrightarrow>
    prod_step s (s\<lparr>producer := PHead d n (rb_head (shared s))\<rparr>)"
| load_tail: "producer s = PHead d n h \<Longrightarrow>
    av = push_available (rb_capacity (shared s)) h (rb_tail (shared s)) \<Longrightarrow>
    m = (if n > av then av else n) \<Longrightarrow>
    prod_step s (s\<lparr>producer := (if m = 0 then PIdle else PCopy d (unat m) h 0)\<rparr>)"
| write_slot: "producer s = PCopy d n h i \<Longrightarrow> i < n \<Longrightarrow>
    prod_step s (s\<lparr>shared := (shared s)\<lparr>rb_buffer := (rb_buffer (shared s))
        [slot (rb_capacity (shared s)) h (of_nat i) := d ! i]\<rparr>,
      producer := PCopy d n h (Suc i)\<rparr>)"
| store_head: "producer s = PCopy d n h n \<Longrightarrow>
    prod_step s (s\<lparr>shared := (shared s)\<lparr>rb_head := (h + of_nat n) mod rb_capacity (shared s)\<rparr>,
      producer := PIdle, published := published s @ take n d\<rparr>)"

text \<open>
  The consumer: load \<^verbatim>\<open>head_\<close>; load \<^verbatim>\<open>tail_\<close> and compute the count; one buffer read
  per step; store \<^verbatim>\<open>tail_\<close> (the padding with silence touches only the caller's array).
\<close>

inductive cons_step :: "spsc \<Rightarrow> spsc \<Rightarrow> bool" where
  cload_head: "consumer s = CIdle \<Longrightarrow>
    cons_step s (s\<lparr>consumer := CHead n (rb_head (shared s))\<rparr>)"
| cload_tail: "consumer s = CHead n h \<Longrightarrow>
    av = pop_available (rb_capacity (shared s)) h (rb_tail (shared s)) \<Longrightarrow>
    m = (if n < av then n else av) \<Longrightarrow>
    cons_step s (s\<lparr>consumer := CCopy (unat m) (rb_tail (shared s)) 0 []\<rparr>)"
| cread: "consumer s = CCopy k t i out \<Longrightarrow> i < k \<Longrightarrow>
    cons_step s (s\<lparr>consumer := CCopy k t (Suc i)
      (out @ [rb_buffer (shared s) ! slot (rb_capacity (shared s)) t (of_nat i)])\<rparr>)"
| cstore_tail: "consumer s = CCopy k t k out \<Longrightarrow>
    cons_step s (s\<lparr>shared := (shared s)\<lparr>rb_tail := (t + of_nat k) mod rb_capacity (shared s)\<rparr>,
      consumer := CIdle, taken := taken s @ out\<rparr>)"

definition spsc_step :: "spsc \<Rightarrow> spsc \<Rightarrow> bool" where
  "spsc_step s t \<longleftrightarrow> prod_step s t \<or> cons_step s t"

section \<open>Invariant\<close>

abbreviation scap :: "spsc \<Rightarrow> nat" where "scap s \<equiv> unat (rb_capacity (shared s))"
abbreviation shead :: "spsc \<Rightarrow> nat" where "shead s \<equiv> unat (rb_head (shared s))"
abbreviation stail :: "spsc \<Rightarrow> nat" where "stail s \<equiv> unat (rb_tail (shared s))"
abbreviation sstored :: "spsc \<Rightarrow> nat" where "sstored s \<equiv> stored (scap s) (shead s) (stail s)"

fun prod_ok :: "spsc \<Rightarrow> producer \<Rightarrow> bool" where
  "prod_ok s PIdle = True"
| "prod_ok s (PHead d n h) = (h = rb_head (shared s) \<and> unat n \<le> length d)"
| "prod_ok s (PCopy d n h i) = (h = rb_head (shared s) \<and> n \<le> length d \<and> i \<le> n
     \<and> n \<le> scap s - 1 - sstored s
     \<and> (\<forall>j<i. rb_buffer (shared s) ! ((shead s + j) mod scap s) = d ! j))"

fun cons_ok :: "spsc \<Rightarrow> consumer \<Rightarrow> bool" where
  "cons_ok s CIdle = True"
| "cons_ok s (CHead n h) = (unat h < scap s \<and> stored (scap s) (unat h) (stail s) \<le> sstored s)"
| "cons_ok s (CCopy k t i out) = (t = rb_tail (shared s) \<and> k \<le> sstored s \<and> i \<le> k
     \<and> out = take i (contents (shared s)))"

definition spsc_inv :: "spsc \<Rightarrow> bool" where
  "spsc_inv s \<longleftrightarrow> rb_inv (shared s) \<and> published s = taken s @ contents (shared s)
     \<and> prod_ok s (producer s) \<and> cons_ok s (consumer s)"

lemma spsc_inv_init: "spsc_init s \<Longrightarrow> spsc_inv s"
  by (auto simp: spsc_init_def spsc_inv_def rb_inv_new contents_new)

text \<open>A write beyond the head does not touch what is stored.\<close>

lemma head_slots:
  assumes "h < c" and "t < c" and "i < c - stored c h t" and "j < stored c h t"
  shows "(h + i) mod c \<noteq> (t + j) mod c"
proof
  let ?s = "stored c h t"
  assume "(h + i) mod c = (t + j) mod c"
  then have "(t + (?s + i)) mod c = (t + j) mod c"
    using tail_plus_stored [OF assms(1,2)] by (metis add.assoc mod_add_left_eq)
  moreover have "?s + i < c" "j < c"
    using assms(3,4) stored_less [of c h t] assms(1) by linarith+
  ultimately have "?s + i = j" using mod_add_inj [OF assms(2)] by blast
  then show False using assms(4) by simp
qed

lemma ring_slice_update:
  assumes "length buf = c" and "h < c" and "t < c" and "i < c - stored c h t" and "n \<le> stored c h t"
  shows "ring_slice (buf[(h + i) mod c := x]) t n = ring_slice buf t n"
  using assms head_slots [OF assms(2-4)]
  by (auto simp: ring_slice_def intro!: nth_list_update_neq)

lemma contents_write:
  assumes "rb_inv rb" and "i < unat (rb_capacity rb) - stored (unat (rb_capacity rb)) (unat (rb_head rb)) (unat (rb_tail rb))"
  shows "contents (rb\<lparr>rb_buffer := (rb_buffer rb)[(unat (rb_head rb) + i) mod unat (rb_capacity rb) := x]\<rparr>) = contents rb"
  using assms by (simp add: contents_def rb_inv_def ring_slice_update)

text \<open>Moving the head over slots that were filled publishes exactly what was copied there.\<close>

lemma contents_store_head:
  assumes inv: "rb_inv rb"
    and n: "n \<le> unat (rb_capacity rb) - 1 - stored (unat (rb_capacity rb)) (unat (rb_head rb)) (unat (rb_tail rb))"
    and len: "n \<le> length d"
    and copied: "\<forall>j<n. rb_buffer rb ! ((unat (rb_head rb) + j) mod unat (rb_capacity rb)) = d ! j"
  shows "contents (rb\<lparr>rb_head := (rb_head rb + of_nat n) mod rb_capacity rb\<rparr>) = contents rb @ take n d"
    and "unat ((rb_head rb + of_nat n) mod rb_capacity rb) = (unat (rb_head rb) + n) mod unat (rb_capacity rb)"
proof -
  let ?c = "unat (rb_capacity rb)" and ?h = "unat (rb_head rb)" and ?t = "unat (rb_tail rb)"
  have c: "cap_ok (rb_capacity rb)" "0 < ?c" "?h < ?c" "?t < ?c" "length (rb_buffer rb) = ?c"
    using inv by (auto simp: rb_inv_def cap_ok_def)
  have "n \<le> ?c" using n by simp
  from slot_eq [OF c(1,3) this] show head: "unat ((rb_head rb + of_nat n) mod rb_capacity rb) = (?h + n) mod ?c"
    by (simp add: slot_def)
  let ?s = "stored ?c ?h ?t"
  have count: "stored ?c ((?h + n) mod ?c) ?t = ?s + n"
    using c n by (intro stored_advance_head) simp_all
  have new: "rb_buffer rb ! ((?t + i) mod ?c) = d ! (i - ?s)" if "\<not> i < ?s" "i < ?s + n" for i
  proof -
    have "(?h + (i - ?s)) mod ?c = (?t + ?s + (i - ?s)) mod ?c"
      by (subst tail_plus_stored [OF c(3,4), symmetric]) (rule mod_add_left_eq)
    also have "?t + ?s + (i - ?s) = ?t + i" using that by simp
    finally have "(?t + i) mod ?c = (?h + (i - ?s)) mod ?c" ..
    moreover have "i - ?s < n" using that by simp
    ultimately show ?thesis using copied by (simp only:)
  qed
  have "ring_slice (rb_buffer rb) ?t (?s + n) = ring_slice (rb_buffer rb) ?t ?s @ take n d"
    using new len c(5) by (intro nth_equalityI) (auto simp: ring_slice_def nth_append)
  then show "contents (rb\<lparr>rb_head := (rb_head rb + of_nat n) mod rb_capacity rb\<rparr>) = contents rb @ take n d"
    by (simp add: contents_def head count)
qed

lemma contents_store_tail:
  assumes inv: "rb_inv rb" and k: "k \<le> stored (unat (rb_capacity rb)) (unat (rb_head rb)) (unat (rb_tail rb))"
  shows "contents (rb\<lparr>rb_tail := (rb_tail rb + of_nat k) mod rb_capacity rb\<rparr>) = drop k (contents rb)"
    and "unat ((rb_tail rb + of_nat k) mod rb_capacity rb) = (unat (rb_tail rb) + k) mod unat (rb_capacity rb)"
proof -
  let ?c = "unat (rb_capacity rb)" and ?h = "unat (rb_head rb)" and ?t = "unat (rb_tail rb)"
  have c: "cap_ok (rb_capacity rb)" "0 < ?c" "?h < ?c" "?t < ?c" "length (rb_buffer rb) = ?c"
    using inv by (auto simp: rb_inv_def cap_ok_def)
  have "k \<le> ?c" using k stored_less [OF c(2), of ?h ?t] by simp
  from slot_eq [OF c(1,4) this] show tail: "unat ((rb_tail rb + of_nat k) mod rb_capacity rb) = (?t + k) mod ?c"
    by (simp add: slot_def)
  have "stored ?c ?h ((?t + k) mod ?c) = stored ?c ?h ?t - k"
    using c k by (intro stored_advance_tail) simp_all
  then show "contents (rb\<lparr>rb_tail := (rb_tail rb + of_nat k) mod rb_capacity rb\<rparr>) = drop k (contents rb)"
    using c(5) by (auto simp: contents_def tail ring_slice_def mod_add_left_eq add.assoc intro!: nth_equalityI)
qed

section \<open>Every step keeps the invariant\<close>

inductive_cases prod_stepE: "prod_step s t"
inductive_cases cons_stepE: "cons_step s t"

lemma prod_step_inv:
  assumes "prod_step s t" and "spsc_inv s"
  shows "spsc_inv t"
  using assms
proof (induction rule: prod_step.induct)
  case (load_head s n d)
  then show ?case
    by (cases "consumer s") (simp_all add: spsc_inv_def)
next
  case (load_tail s d n h av m)
  have rb: "rb_inv (shared s)" and h: "h = rb_head (shared s)" and n: "unat n \<le> length d"
    using load_tail by (simp_all add: spsc_inv_def)
  have "unat av = scap s - 1 - sstored s"
    using rb load_tail(2) h by (simp add: rb_inv_def unat_push_available)
  then have "unat m \<le> scap s - 1 - sstored s" "unat m \<le> length d"
    using load_tail(3) n by (auto simp: word_less_nat_alt split: if_splits)
  with load_tail(4) h show ?case
    by (cases "consumer s") (simp_all add: spsc_inv_def)
next
  case (write_slot s d n h i)
  have rb: "rb_inv (shared s)" and h: "h = rb_head (shared s)" and n: "n \<le> scap s - 1 - sstored s"
    and cp: "\<forall>j<i. rb_buffer (shared s) ! ((shead s + j) mod scap s) = d ! j" "n \<le> length d"
    using write_slot by (simp_all add: spsc_inv_def)
  have c: "cap_ok (rb_capacity (shared s))" "shead s < scap s" "length (rb_buffer (shared s)) = scap s"
    using rb by (simp_all add: rb_inv_def)
  have i: "i < scap s - sstored s" "i < scap s" using write_slot(2) n by linarith+
  have sl: "slot (rb_capacity (shared s)) h (of_nat i) = (shead s + i) mod scap s"
    using slot_eq [OF c(1,2), of i] i h by simp
  have "((rb_buffer (shared s))[(shead s + i) mod scap s := d ! i]) ! ((shead s + j) mod scap s) = d ! j"
    if "j < Suc i" for j
  proof (cases "j = i")
    case True
    with c i(2) show ?thesis by simp
  next
    case False
    then have "(shead s + i) mod scap s \<noteq> (shead s + j) mod scap s"
      using mod_add_inj [OF c(2) i(2), of j] that i(2) by linarith
    with False that cp(1) show ?thesis by simp
  qed
  then show ?case
    using write_slot rb h sl contents_write [OF rb i(1), of "d ! i"] n cp(2)
    by (cases "consumer s") (simp_all add: spsc_inv_def rb_inv_def)
next
  case (store_head s d n h)
  have rb: "rb_inv (shared s)" and h: "h = rb_head (shared s)"
    and n: "n \<le> scap s - 1 - sstored s" "n \<le> length d"
    and cp: "\<forall>j<n. rb_buffer (shared s) ! ((shead s + j) mod scap s) = d ! j"
    using store_head by (simp_all add: spsc_inv_def)
  note new = contents_store_head [OF rb n cp]
  have c: "0 < scap s" "shead s < scap s" "stail s < scap s"
    using rb by (auto simp: rb_inv_def)
  have more: "stored (scap s) ((shead s + n) mod scap s) (stail s) = sstored s + n"
    using c n(1) by (intro stored_advance_head) simp_all
  have "rb_inv ((shared s)\<lparr>rb_head := (h + of_nat n) mod rb_capacity (shared s)\<rparr>)"
    using rb new(2) c(1) h by (simp add: rb_inv_def)
  then show ?case
    using store_head new h more
    by (cases "consumer s") (auto simp: spsc_inv_def length_contents)
qed

lemma cons_step_inv:
  assumes "cons_step s t" and "spsc_inv s"
  shows "spsc_inv t"
  using assms
proof (induction rule: cons_step.induct)
  case (cload_head s n)
  then show ?case
    by (cases "producer s") (simp_all add: spsc_inv_def rb_inv_def)
next
  case (cload_tail s n h av m)
  have rb: "rb_inv (shared s)" and h: "unat h < scap s" "stored (scap s) (unat h) (stail s) \<le> sstored s"
    using cload_tail by (simp_all add: spsc_inv_def)
  have "unat av = stored (scap s) (unat h) (stail s)"
    using rb cload_tail(2) h(1) by (simp add: rb_inv_def unat_pop_available)
  then have "unat m \<le> sstored s"
    using cload_tail(3) h(2) by (auto simp: word_less_nat_alt split: if_splits)
  with cload_tail(4) show ?case
    by (cases "producer s") (simp_all add: spsc_inv_def)
next
  case (cread s k t i out)
  have rb: "rb_inv (shared s)" and t: "t = rb_tail (shared s)" and k: "k \<le> sstored s"
    and out: "out = take i (contents (shared s))"
    using cread by (simp_all add: spsc_inv_def)
  have c: "cap_ok (rb_capacity (shared s))" "stail s < scap s" "length (rb_buffer (shared s)) = scap s" "0 < scap s"
    using rb by (auto simp: rb_inv_def)
  have i: "i < sstored s" using cread(2) k by simp
  then have "i \<le> scap s" using stored_less [OF c(4), of "shead s" "stail s"] by simp
  then have "rb_buffer (shared s) ! slot (rb_capacity (shared s)) t (of_nat i) = contents (shared s) ! i"
    using slot_eq [OF c(1,2), of i] t i c(3) by (simp add: contents_def ring_slice_def)
  then have "out @ [rb_buffer (shared s) ! slot (rb_capacity (shared s)) t (of_nat i)] = take (Suc i) (contents (shared s))"
    using out i by (simp add: take_Suc_conv_app_nth length_contents)
  with cread k t show ?case
    by (cases "producer s") (simp_all add: spsc_inv_def)
next
  case (cstore_tail s k t out)
  have rb: "rb_inv (shared s)" and t: "t = rb_tail (shared s)" and k: "k \<le> sstored s"
    and out: "out = take k (contents (shared s))"
    using cstore_tail by (simp_all add: spsc_inv_def)
  note new = contents_store_tail [OF rb k]
  have c: "0 < scap s" "shead s < scap s" "stail s < scap s"
    using rb by (auto simp: rb_inv_def)
  have less: "stored (scap s) (shead s) ((stail s + k) mod scap s) = sstored s - k"
    using c k by (intro stored_advance_tail) simp_all
  have "rb_inv ((shared s)\<lparr>rb_tail := (t + of_nat k) mod rb_capacity (shared s)\<rparr>)"
    using rb new(2) c(1) t by (simp add: rb_inv_def)
  then show ?case
    using cstore_tail new t less out
    by (cases "producer s") (auto simp: spsc_inv_def)
qed

interpretation spsc: invariant_system spsc_init spsc_step spsc_inv
  by unfold_locales (auto simp: spsc_step_def intro: spsc_inv_init prod_step_inv cons_step_inv)

section \<open>Wait freedom\<close>

text \<open>
  What is left of the operation a thread is in: it shrinks with every step of that thread and the
  other thread never raises it.
\<close>

fun prod_left :: "producer \<Rightarrow> nat" where
  "prod_left PIdle = 0"
| "prod_left (PHead d n h) = unat n + 3"
| "prod_left (PCopy d n h i) = n - i + 1"

fun cons_left :: "consumer \<Rightarrow> nat" where
  "cons_left CIdle = 0"
| "cons_left (CHead n h) = unat n + 3"
| "cons_left (CCopy k t i out) = k - i + 1"

lemma prod_step_left: "prod_step s t \<Longrightarrow> producer s \<noteq> PIdle \<Longrightarrow> prod_left (producer t) < prod_left (producer s)"
  by (induction rule: prod_step.induct) (auto simp: word_less_nat_alt)

lemma cons_step_left: "cons_step s t \<Longrightarrow> consumer s \<noteq> CIdle \<Longrightarrow> cons_left (consumer t) < cons_left (consumer s)"
  by (induction rule: cons_step.induct) (auto simp: word_less_nat_alt)

lemma prod_step_frame: "prod_step s t \<Longrightarrow> consumer t = consumer s"
  by (induction rule: prod_step.induct) auto

lemma cons_step_frame: "cons_step s t \<Longrightarrow> producer t = producer s"
  by (induction rule: cons_step.induct) auto

lemma prod_enabled: "spsc_inv s \<Longrightarrow> \<exists>t. prod_step s t"
proof (cases "producer s")
  case PIdle
  then have "prod_step s (s\<lparr>producer := PHead [] 0 (rb_head (shared s))\<rparr>)"
    by (intro prod_step.load_head) simp_all
  then show ?thesis by blast
next
  case (PHead d n h)
  then show ?thesis using prod_step.load_tail by blast
next
  case (PCopy d n h i)
  assume "spsc_inv s"
  with PCopy have "i < n \<or> i = n" by (auto simp: spsc_inv_def)
  with PCopy show ?thesis using prod_step.write_slot prod_step.store_head by blast
qed

lemma cons_enabled: "spsc_inv s \<Longrightarrow> \<exists>t. cons_step s t"
proof (cases "consumer s")
  case CIdle
  then show ?thesis using cons_step.cload_head by blast
next
  case (CHead n h)
  then show ?thesis using cons_step.cload_tail by blast
next
  case (CCopy k t i out)
  assume "spsc_inv s"
  with CCopy have "i < k \<or> i = k" by (auto simp: spsc_inv_def)
  with CCopy show ?thesis using cons_step.cread cons_step.cstore_tail by blast
qed

section \<open>A concrete run\<close>

text \<open>Capacity 4: the sample 5 is pushed; a pop of it and a push of 7 are under way at once.\<close>

definition run0 :: spsc where
  "run0 = \<lparr>shared = new_ring_buffer 4, producer = PIdle, consumer = CIdle, published = [], taken = []\<rparr>"

definition run_mid :: spsc where
  "run_mid = \<lparr>shared = \<lparr>rb_capacity = 4, rb_buffer = [5, 0, 0, 0], rb_head = 1, rb_tail = 0\<rparr>,
     producer = PCopy [7] 1 1 0, consumer = CCopy 1 0 0 [], published = [5], taken = []\<rparr>"

lemmas step_simps = run0_def new_ring_buffer_def push_available_def pop_available_def slot_def

lemma replicate_4: "replicate 4 x = [x, x, x, x]"
  by (simp add: numeral_eq_Suc)

lemma reach_prod: "reach spsc_init spsc_step s \<Longrightarrow> prod_step s t \<Longrightarrow> reach spsc_init spsc_step t"
  by (auto intro: reach.reach_step simp: spsc_step_def)

lemma reach_cons: "reach spsc_init spsc_step s \<Longrightarrow> cons_step s t \<Longrightarrow> reach spsc_init spsc_step t"
  by (auto intro: reach.reach_step simp: spsc_step_def)

lemma reach_run_mid: "reach spsc_init spsc_step run_mid"
proof -
  let ?rb0 = "\<lparr>rb_capacity = 4, rb_buffer = [0, 0, 0, 0], rb_head = 0, rb_tail = 0\<rparr>"
  let ?rb1 = "\<lparr>rb_capacity = 4, rb_buffer = [5, 0, 0, 0], rb_head = 0, rb_tail = 0\<rparr>"
  let ?rb2 = "\<lparr>rb_capacity = 4, rb_buffer = [5, 0, 0, 0], rb_head = 1, rb_tail = 0\<rparr>"
  let ?st = "\<lambda>rb p c pub. \<lparr>shared = rb, producer = p, consumer = c, published = pub, taken = []\<rparr>"
  have 0: "reach spsc_init spsc_step (?st ?rb0 PIdle CIdle [])"
    by (rule reach.reach_init, unfold spsc_init_def, rule exI [of _ "4 :: size_t"])
      (simp add: new_ring_buffer_def cap_ok_def replicate_4)
  have 1: "prod_step (?st ?rb0 PIdle CIdle []) (?st ?rb0 (PHead [5] 1 0) CIdle [])"
    using prod_step.load_head [of "?st ?rb0 PIdle CIdle []" 1 "[5]"] by simp
  have 2: "prod_step (?st ?rb0 (PHead [5] 1 0) CIdle []) (?st ?rb0 (PCopy [5] 1 0 0) CIdle [])"
    using prod_step.load_tail [of "?st ?rb0 (PHead [5] 1 0) CIdle []"] by (simp add: step_simps)
  have 3: "prod_step (?st ?rb0 (PCopy [5] 1 0 0) CIdle []) (?st ?rb1 (PCopy [5] 1 0 1) CIdle [])"
    using prod_step.write_slot [of "?st ?rb0 (PCopy [5] 1 0 0) CIdle []"] by (simp add: step_simps)
  have 4: "prod_step (?st ?rb1 (PCopy [5] 1 0 1) CIdle []) (?st ?rb2 PIdle CIdle [5])"
    using prod_step.store_head [of "?st ?rb1 (PCopy [5] 1 0 1) CIdle []"] by (simp add: step_simps)
  have 5: "cons_step (?st ?rb2 PIdle CIdle [5]) (?st ?rb2 PIdle (CHead 1 1) [5])"
    using cons_step.cload_head [of "?st ?rb2 PIdle CIdle [5]" 1] by simp
  have 6: "cons_step (?st ?rb2 PIdle (CHead 1 1) [5]) (?st ?rb2 PIdle (CCopy 1 0 0 []) [5])"
    using cons_step.cload_tail [of "?st ?rb2 PIdle (CHead 1 1) [5]"] by (simp add: step_simps)
  have 7: "prod_step (?st ?rb2 PIdle (CCopy 1 0 0 []) [5]) (?st ?rb2 (PHead [7] 1 1) (CCopy 1 0 0 []) [5])"
    using prod_step.load_head [of "?st ?rb2 PIdle (CCopy 1 0 0 []) [5]" 1 "[7]"] by simp
  have 8: "prod_step (?st ?rb2 (PHead [7] 1 1) (CCopy 1 0 0 []) [5]) run_mid"
    using prod_step.load_tail [of "?st ?rb2 (PHead [7] 1 1) (CCopy 1 0 0 []) [5]"]
    by (simp add: step_simps run_mid_def)
  note r4 = reach_prod [OF reach_prod [OF reach_prod [OF reach_prod [OF 0 1] 2] 3] 4]
  show ?thesis by (rule reach_prod [OF reach_prod [OF reach_cons [OF reach_cons [OF r4 5] 6] 7] 8])
qed

section \<open>Properties\<close>

text \<open>
  C4. In every interleaving of one producer and one consumer, what the consumer has taken, followed
  by what the buffer holds, is exactly the sequence of samples the producer has published: nothing
  is lost, duplicated, reordered or read half-written, and at most capacity - 1 samples are held.
\<close>

theorem spsc_fifo:
  assumes "reach spsc_init spsc_step s"
  shows "published s = taken s @ contents (shared s)
    \<and> length (contents (shared s)) \<le> unat (rb_capacity (shared s)) - 1"
proof -
  have "spsc_inv s" using assms by (rule spsc.reach_inv)
  then show ?thesis by (auto simp: spsc_inv_def dest: rb_inv_stored)
qed

theorem spsc_fifo_witness:
  "reach spsc_init spsc_step run_mid \<and> published run_mid = taken run_mid @ contents (shared run_mid)
    \<and> length (contents (shared run_mid)) \<le> 3"
  using spsc_fifo [OF reach_run_mid] reach_run_mid by (simp add: run_mid_def)

text \<open>
  C22. The unlocked buffer accesses never race: whenever the producer is about to write a slot while
  the consumer is about to read one, the two slots differ and both are inside the buffer.
\<close>

theorem spsc_race_free:
  assumes "reach spsc_init spsc_step s"
    and "producer s = PCopy d n h i" and "i < n"
    and "consumer s = CCopy k t j out" and "j < k"
  shows "slot (rb_capacity (shared s)) h (of_nat i) \<noteq> slot (rb_capacity (shared s)) t (of_nat j)
    \<and> slot (rb_capacity (shared s)) h (of_nat i) < length (rb_buffer (shared s))
    \<and> slot (rb_capacity (shared s)) t (of_nat j) < length (rb_buffer (shared s))"
proof -
  have inv: "spsc_inv s" using assms(1) by (rule spsc.reach_inv)
  then have c: "cap_ok (rb_capacity (shared s))" "shead s < scap s" "stail s < scap s" "0 < scap s"
      "length (rb_buffer (shared s)) = scap s"
    by (auto simp: spsc_inv_def rb_inv_def)
  from inv assms have b: "h = rb_head (shared s)" "t = rb_tail (shared s)"
      "i < scap s - sstored s" "j < sstored s"
    by (auto simp: spsc_inv_def)
  have "sstored s < scap s" using c(4) by (rule stored_less)
  with b c head_slots [OF c(2,3) b(3,4)] show ?thesis
    by (simp add: slot_eq)
qed

theorem spsc_race_free_witness:
  "reach spsc_init spsc_step run_mid \<and>
   slot (rb_capacity (shared run_mid)) 1 (of_nat 0) \<noteq> slot (rb_capacity (shared run_mid)) 0 (of_nat 0)"
  using spsc_race_free [OF reach_run_mid, of "[7]" 1 1 0 1 0 0 "[]"] reach_run_mid
  by (simp add: run_mid_def)

text \<open>
  C23. Both operations are wait-free: in every reachable state each thread can take its next step
  whatever the other one is doing, every step of a thread inside an operation brings that
  operation nearer to its end, and no step of a thread changes what the other has left to do.
\<close>

theorem spsc_wait_free:
  assumes "reach spsc_init spsc_step s"
  shows "(\<exists>t. prod_step s t) \<and> (\<exists>t. cons_step s t)
    \<and> (\<forall>t. prod_step s t \<longrightarrow> (producer s = PIdle \<or> prod_left (producer t) < prod_left (producer s))
          \<and> consumer t = consumer s)
    \<and> (\<forall>t. cons_step s t \<longrightarrow> (consumer s = CIdle \<or> cons_left (consumer t) < cons_left (consumer s))
          \<and> producer t = producer s)"
  using prod_enabled cons_enabled spsc.reach_inv [OF assms] prod_step_left cons_step_left
    prod_step_frame cons_step_frame
  by blast

theorem spsc_wait_free_witness:
  "(\<exists>t. prod_step run_mid t) \<and> (\<exists>t. cons_step run_mid t)"
  using spsc_wait_free [OF reach_run_mid] by blast

end
