(* ===== verification/Utils.thy ===== *)
theory Utils
  imports Prelude
begin

text \<open>
  The helpers of \<^verbatim>\<open>tg2sip/utils.cpp\<close> and the parts of the C and C++ standard
  libraries the sources call on strings: character classes of the C locale,
  \<^verbatim>\<open>strtol\<close> and the conversions built on it, \<^verbatim>\<open>std::to_string\<close>,
  and searching a literal in a string.
\<close>

section \<open>Character classes\<close>

abbreviation code :: "char \<Rightarrow> nat" where
  "code c \<equiv> of_char c"

definition isdigit :: "char \<Rightarrow> bool" where
  "isdigit c \<longleftrightarrow> 48 \<le> code c \<and> code c \<le> 57"

definition isspace :: "char \<Rightarrow> bool" where
  "isspace c \<longleftrightarrow> code c = 32 \<or> (9 \<le> code c \<and> code c \<le> 13)"

definition tolower :: "char \<Rightarrow> char" where
  "tolower c = (if 65 \<le> code c \<and> code c \<le> 90 then char_of (code c + 32) else c)"

definition lower :: "string \<Rightarrow> string" where
  "lower s = map tolower s"

section \<open>tg2sip/utils.cpp\<close>

definition is_digits :: "string \<Rightarrow> bool" where
  "is_digits str = list_all isdigit str"

text \<open>
  \<^verbatim>\<open>argv\<close> is a list, \<^verbatim>\<open>argc\<close> its length; \<^verbatim>\<open>std::filesystem::exists\<close>
  is a parameter.
\<close>

definition resolve_config_path :: "(string \<Rightarrow> bool) \<Rightarrow> string list \<Rightarrow> string" where
  "resolve_config_path file_exists argv =
     (if length argv > 1 then argv ! 1
      else if file_exists ''/etc/tg2sip-webrtc/tg2sip.conf'' then ''/etc/tg2sip-webrtc/tg2sip.conf''
      else ''tg2sip.conf'')"

section \<open>Numbers in strings\<close>

definition LONG_MAX :: int where "LONG_MAX = 9223372036854775807"
definition LONG_MIN :: int where "LONG_MIN = -9223372036854775808"

definition INT_MAX :: int where "INT_MAX = 2147483647"
definition INT_MIN :: int where "INT_MIN = -2147483648"

definition digit_val :: "char \<Rightarrow> nat" where
  "digit_val c =
     (if isdigit c then code c - 48
      else if 97 \<le> code (tolower c) \<and> code (tolower c) \<le> 122 then code (tolower c) - 87
      else 36)"

definition digits_val :: "nat \<Rightarrow> string \<Rightarrow> nat" where
  "digits_val base ds = foldl (\<lambda>a c. a * base + digit_val c) 0 ds"

text \<open>The base and the length of the prefix that \<^verbatim>\<open>strtol\<close> finds for base 0.\<close>

definition strtol_base :: "nat \<Rightarrow> string \<Rightarrow> nat \<times> nat" where
  "strtol_base base s =
     (if base \<noteq> 0 then (base, 0)
      else case s of
        c0 # c1 # c2 # _ \<Rightarrow>
          (if c0 = CHR ''0'' \<and> tolower c1 = CHR ''x'' \<and> digit_val c2 < 16 then (16, 2)
           else if c0 = CHR ''0'' then (8, 0) else (10, 0))
      | c0 # _ \<Rightarrow> if c0 = CHR ''0'' then (8, 0) else (10, 0)
      | [] \<Rightarrow> (10, 0))"

text \<open>
  \<^verbatim>\<open>strtol\<close>: the value, the number of characters consumed (0 when there is no
  number) and whether the value was out of range, in which case it is the nearest bound.
\<close>

definition strtol :: "nat \<Rightarrow> string \<Rightarrow> int \<times> nat \<times> bool" where
  "strtol base str =
     (let ws = length (takeWhile isspace str);
          s = drop ws str;
          neg = (s \<noteq> [] \<and> hd s = CHR ''-'');
          sg = (if s \<noteq> [] \<and> (hd s = CHR ''-'' \<or> hd s = CHR ''+'') then 1 else 0);
          u = drop sg s;
          (b, p) = strtol_base base u;
          ds = takeWhile (\<lambda>c. digit_val c < b) (drop p u);
          m = int (digits_val b ds);
          v = (if neg then - m else m)
      in if ds = [] then (0, 0, False)
         else if v > LONG_MAX then (LONG_MAX, ws + sg + p + length ds, True)
         else if v < LONG_MIN then (LONG_MIN, ws + sg + p + length ds, True)
         else (v, ws + sg + p + length ds, False))"

text \<open>\<^verbatim>\<open>std::stol\<close> and \<^verbatim>\<open>std::stoi\<close> with their two exceptions.\<close>

definition stol :: "string \<Rightarrow> exn + int" where
  "stol str = (case strtol 10 str of (v, n, erange) \<Rightarrow>
     if n = 0 then Inl InvalidArgument else if erange then Inl OutOfRange else Inr v)"

definition stoi :: "string \<Rightarrow> exn + int" where
  "stoi str = (case stol str of Inl e \<Rightarrow> Inl e
     | Inr v \<Rightarrow> if INT_MIN \<le> v \<and> v \<le> INT_MAX then Inr v else Inl OutOfRange)"

fun show_nat :: "nat \<Rightarrow> string" where
  "show_nat n = (if n < 10 then [char_of (48 + n)] else show_nat (n div 10) @ [char_of (48 + n mod 10)])"

declare show_nat.simps [simp del]

text \<open>\<^verbatim>\<open>std::to_string\<close> on a signed integer.\<close>

definition to_string :: "int \<Rightarrow> string" where
  "to_string i = (if i < 0 then CHR ''-'' # show_nat (nat (- i)) else show_nat (nat i))"

section \<open>Searching a literal\<close>

fun search :: "string \<Rightarrow> string \<Rightarrow> bool" where
  "search pat [] = (pat = [])"
| "search pat (c # s) = (take (length pat) (c # s) = pat \<or> search pat s)"

section \<open>Facts\<close>

lemma isdigit_char_of: "n < 10 \<Longrightarrow> isdigit (char_of (48 + n :: nat))"
  by (simp add: isdigit_def)

lemma digit_val_char_of: "n < 10 \<Longrightarrow> digit_val (char_of (48 + n :: nat)) = n"
  by (simp add: digit_val_def isdigit_def)

lemma digit_val_digit: "isdigit c \<Longrightarrow> digit_val c < 10"
  by (auto simp: digit_val_def isdigit_def)

lemma digits_val_snoc: "digits_val b (ds @ [c]) = digits_val b ds * b + digit_val c"
  by (simp add: digits_val_def)

lemma show_nat_digits: "list_all isdigit (show_nat n)"
proof (induction n rule: show_nat.induct)
  case (1 n)
  then show ?case
    by (cases "n < 10") (simp_all add: show_nat.simps [of n] isdigit_char_of)
qed

lemma show_nat_nonempty: "show_nat n \<noteq> []"
  by (subst show_nat.simps) simp

lemma digits_val_show_nat: "digits_val 10 (show_nat n) = n"
proof (induction n rule: show_nat.induct)
  case (1 n)
  show ?case
  proof (cases "n < 10")
    case True
    then show ?thesis
      by (simp add: show_nat.simps [of n] digits_val_def digit_val_char_of)
  next
    case False
    with 1 show ?thesis
      by (simp add: show_nat.simps [of n] digits_val_snoc digit_val_char_of)
  qed
qed

lemma digit_not_space: "isdigit c \<Longrightarrow> \<not> isspace c"
  by (auto simp: isdigit_def isspace_def)

lemma digit_not_sign: "isdigit c \<Longrightarrow> c \<noteq> CHR ''-'' \<and> c \<noteq> CHR ''+''"
  by (auto simp: isdigit_def)

lemma takeWhile_all: "list_all p xs \<Longrightarrow> takeWhile p xs = xs"
  by (simp add: list_all_iff takeWhile_eq_all_conv)

text \<open>On a string of digits \<^verbatim>\<open>strtol\<close> reads the whole string as one decimal number.\<close>

lemma strtol_digits:
  assumes "list_all isdigit ds" and "ds \<noteq> []"
  shows "strtol 10 ds =
    (if int (digits_val 10 ds) > LONG_MAX then (LONG_MAX, length ds, True)
     else (int (digits_val 10 ds), length ds, False))"
proof -
  from assms obtain c cs where ds: "ds = c # cs" and c: "isdigit c"
    by (cases ds) auto
  have all: "takeWhile (\<lambda>c. digit_val c < 10) ds = ds"
    using assms(1) by (intro takeWhile_all) (auto simp: list_all_iff digit_val_digit)
  have "takeWhile isspace ds = []"
    using ds c by (simp add: digit_not_space)
  with all c ds show ?thesis
    by (auto simp: strtol_def strtol_base_def Let_def digit_not_sign LONG_MIN_def)
qed

lemma stol_digits:
  assumes "is_digits ds"
  shows "stol ds =
    (if ds = [] then Inl InvalidArgument
     else if int (digits_val 10 ds) > LONG_MAX then Inl OutOfRange
     else Inr (int (digits_val 10 ds)))"
proof (cases "ds = []")
  case True
  then show ?thesis by (simp add: stol_def strtol_def strtol_base_def Let_def)
next
  case False
  with assms show ?thesis
    by (simp add: stol_def strtol_digits is_digits_def)
qed

text \<open>\<^verbatim>\<open>stol\<close> reads back what \<^verbatim>\<open>to_string\<close> wrote.\<close>

lemma stol_to_string: "0 \<le> i \<Longrightarrow> i \<le> LONG_MAX \<Longrightarrow> stol (to_string i) = Inr i"
  by (simp add: to_string_def stol_digits is_digits_def show_nat_digits show_nat_nonempty
      digits_val_show_nat)

lemma search_append: "search pat (xs @ pat @ ys)"
proof (induction xs)
  case Nil
  have "take (length pat) (pat @ ys) = pat" by simp
  then show ?case by (cases "pat @ ys") (simp_all del: take_append)
next
  case (Cons x xs)
  then show ?case by simp
qed

lemma search_iff: "search pat s \<longleftrightarrow> (\<exists>xs ys. s = xs @ pat @ ys)"
proof
  assume "search pat s"
  then show "\<exists>xs ys. s = xs @ pat @ ys"
  proof (induction s)
    case Nil
    then show ?case by simp
  next
    case (Cons c s)
    from Cons.prems consider "take (length pat) (c # s) = pat" | "search pat s" by auto
    then show ?case
    proof cases
      case 1
      then have "c # s = [] @ pat @ drop (length pat) (c # s)"
        by (metis append_Nil append_take_drop_id)
      then show ?thesis by blast
    next
      case 2
      then obtain xs ys where "s = xs @ pat @ ys" using Cons.IH by blast
      then have "c # s = (c # xs) @ pat @ ys" by simp
      then show ?thesis by blast
    qed
  qed
qed (auto simp: search_append)

text \<open>The configuration path is always one of the three documented candidates.\<close>

lemma resolve_config_path_cases:
  "resolve_config_path ex argv \<in> set argv \<union> {''/etc/tg2sip-webrtc/tg2sip.conf'', ''tg2sip.conf''}"
  by (auto simp: resolve_config_path_def)

end
