(* ===== verification/Ini_Reader.thy ===== *)
theory Ini_Reader
  imports Utils
begin

text \<open>
  The configuration reader \<^verbatim>\<open>include/INIReader.h\<close> with the macros at their defaults
  (multi-line values, byte-order mark, inline comments introduced by a semicolon, lines of at
  most 199 characters). A file is its list of characters; a C string ends at its first NUL.
\<close>

section \<open>String helpers of inih\<close>

definition c_str :: "string \<Rightarrow> string" where
  "c_str s = takeWhile (\<lambda>c. code c \<noteq> 0) s"

definition rstrip :: "string \<Rightarrow> string" where
  "rstrip s = rev (dropWhile isspace (rev s))"

definition lskip :: "string \<Rightarrow> string" where
  "lskip s = dropWhile isspace s"

text \<open>The loop of \<^verbatim>\<open>find_chars_or_comment\<close>: the offset of the character it stops at.\<close>

fun find_chars_or_comment :: "char set \<Rightarrow> bool \<Rightarrow> string \<Rightarrow> nat" where
  "find_chars_or_comment chars was_space [] = 0"
| "find_chars_or_comment chars was_space (c # s) =
     (if c \<in> chars \<or> (was_space \<and> c = CHR '';'') then 0
      else Suc (find_chars_or_comment chars (isspace c) s))"

definition strncpy0 :: "string \<Rightarrow> nat \<Rightarrow> string" where
  "strncpy0 src n = take (n - 1) src"

definition MAX_SECTION :: nat where "MAX_SECTION = 50"
definition MAX_NAME :: nat where "MAX_NAME = 50"
definition INI_MAX_LINE :: nat where "INI_MAX_LINE = 200"

section \<open>The reader and its value handler\<close>

record ini_reader =
  ini_error :: int
  ini_values :: "string \<rightharpoonup> string"
  ini_sections :: "string set"

definition MakeKey :: "string \<Rightarrow> string \<Rightarrow> string" where
  "MakeKey section name = lower (section @ ''='' @ name)"

definition ValueHandler :: "string \<Rightarrow> string \<Rightarrow> string \<Rightarrow> ini_reader \<Rightarrow> ini_reader" where
  "ValueHandler section name value r =
     (let key = MakeKey section name;
          old = (case ini_values r key of None \<Rightarrow> [] | Some v \<Rightarrow> v);
          old = (if length old > 0 then old @ [char_of (10 :: nat)] else old)
      in r\<lparr>ini_values := (ini_values r)(key \<mapsto> old @ value),
           ini_sections := insert section (ini_sections r)\<rparr>)"

section \<open>Parsing\<close>

record ini_parser =
  p_section :: string
  p_prev_name :: string
  p_lineno :: nat
  p_error :: nat
  p_reader :: ini_reader

definition set_error :: "ini_parser \<Rightarrow> ini_parser" where
  "set_error p = (if p_error p = 0 then p\<lparr>p_error := p_lineno p\<rparr> else p)"

text \<open>
  One turn of the loop of \<^verbatim>\<open>ini_parse_stream\<close> on the line buffer. \<open>moved\<close> is
  the comparison \<^verbatim>\<open>start > line\<close>. The handler always returns 1, so only a
  malformed line sets the error.
\<close>

definition parse_start :: "bool \<Rightarrow> string \<Rightarrow> ini_parser \<Rightarrow> ini_parser" where
  "parse_start moved start p =
     (if start \<noteq> [] \<and> (hd start = CHR '';'' \<or> hd start = CHR ''#'') then p
      else if p_prev_name p \<noteq> [] \<and> start \<noteq> [] \<and> moved then
        (let value = rstrip (take (find_chars_or_comment {} False start) start)
         in p\<lparr>p_reader := ValueHandler (p_section p) (p_prev_name p) value (p_reader p)\<rparr>)
      else if start \<noteq> [] \<and> hd start = CHR ''['' then
        (let e = find_chars_or_comment {CHR '']''} False (tl start);
             rest = drop e (tl start)
         in if rest \<noteq> [] \<and> hd rest = CHR '']''
            then p\<lparr>p_section := strncpy0 (take e (tl start)) MAX_SECTION, p_prev_name := []\<rparr>
            else set_error p)
      else if start \<noteq> [] then
        (let e = find_chars_or_comment {CHR ''='', CHR '':''} False start;
             rest = drop e start
         in if rest \<noteq> [] \<and> (hd rest = CHR ''='' \<or> hd rest = CHR '':'')
            then (let name = rstrip (take e start);
                      value0 = lskip (tl rest);
                      value = rstrip (take (find_chars_or_comment {} False value0) value0)
                  in p\<lparr>p_prev_name := strncpy0 name MAX_NAME,
                       p_reader := ValueHandler (p_section p) name value (p_reader p)\<rparr>)
            else set_error p)
      else p)"

definition parse_line :: "string \<Rightarrow> ini_parser \<Rightarrow> ini_parser" where
  "parse_line raw p0 =
     (let p = p0\<lparr>p_lineno := Suc (p_lineno p0)\<rparr>;
          line = c_str raw;
          bom = (p_lineno p = 1 \<and> map code (take 3 line) = [239, 187, 191]);
          s0 = rstrip (if bom then drop 3 line else line);
          start = lskip s0
      in parse_start (bom \<or> start \<noteq> s0) start p)"

text \<open>
  \<^verbatim>\<open>fgets\<close> with a buffer of \<^verbatim>\<open>INI_MAX_LINE\<close>: up to and including the newline,
  at most 199 characters; the rest of a longer line is the next read.
\<close>

fun fgets_len :: "nat \<Rightarrow> string \<Rightarrow> nat" where
  "fgets_len 0 s = 0"
| "fgets_len (Suc n) [] = 0"
| "fgets_len (Suc n) (c # s) = (if code c = 10 then 1 else Suc (fgets_len n s))"

definition fgets :: "string \<Rightarrow> (string \<times> string) option" where
  "fgets s = (if s = [] then None
     else Some (take (fgets_len (INI_MAX_LINE - 1) s) s, drop (fgets_len (INI_MAX_LINE - 1) s) s))"

lemma fgets_len_pos: "0 < n \<Longrightarrow> s \<noteq> [] \<Longrightarrow> 0 < fgets_len n s"
  by (cases n; cases s) auto

function ini_parse_stream :: "string \<Rightarrow> ini_parser \<Rightarrow> ini_parser" where
  "ini_parse_stream s p =
     (case fgets s of None \<Rightarrow> p | Some (line, rest) \<Rightarrow> ini_parse_stream rest (parse_line line p))"
  by pat_completeness auto
termination
proof (relation "measure (\<lambda>(s, p). length s)", simp)
  fix s p x line rest
  assume "fgets s = Some x" and "(line, rest) = x"
  then show "((rest, parse_line line p), s, p) \<in> measure (\<lambda>(s, p). length s)"
    using fgets_len_pos [of "INI_MAX_LINE - 1" s]
    by (auto simp: fgets_def INI_MAX_LINE_def split: if_splits)
qed

declare ini_parse_stream.simps [simp del]

definition empty_reader :: ini_reader where
  "empty_reader = \<lparr>ini_error = 0, ini_values = Map.empty, ini_sections = {}\<rparr>"

definition new_parser :: ini_parser where
  "new_parser = \<lparr>p_section = [], p_prev_name = [], p_lineno = 0, p_error = 0, p_reader = empty_reader\<rparr>"

text \<open>
  \<^verbatim>\<open>INIReader(filename)\<close>; the file system is a parameter, \<open>None\<close> for a file
  that \<^verbatim>\<open>fopen\<close> cannot open.
\<close>

definition INIReader :: "(string \<Rightarrow> string option) \<Rightarrow> string \<Rightarrow> ini_reader" where
  "INIReader files filename =
     (case files filename of
        None \<Rightarrow> empty_reader\<lparr>ini_error := - 1\<rparr>
      | Some text \<Rightarrow> (let p = ini_parse_stream text new_parser in (p_reader p)\<lparr>ini_error := int (p_error p)\<rparr>))"

section \<open>Access\<close>

definition ParseError :: "ini_reader \<Rightarrow> int" where
  "ParseError r = ini_error r"

definition Sections :: "ini_reader \<Rightarrow> string set" where
  "Sections r = ini_sections r"

definition Get :: "ini_reader \<Rightarrow> string \<Rightarrow> string \<Rightarrow> string \<Rightarrow> string" where
  "Get r section name default_value =
     (case ini_values r (MakeKey section name) of None \<Rightarrow> default_value | Some v \<Rightarrow> v)"

definition GetInteger :: "ini_reader \<Rightarrow> string \<Rightarrow> string \<Rightarrow> int \<Rightarrow> int" where
  "GetInteger r section name default_value =
     (case strtol 0 (c_str (Get r section name [])) of (n, consumed, _) \<Rightarrow>
        if consumed > 0 then n else default_value)"

text \<open>
  \<^verbatim>\<open>strtod\<close>, whose result depends on the locale and the rounding mode, is a parameter: the
  number and how many characters it was read from.
\<close>

definition GetReal :: "(string \<Rightarrow> 'd \<times> nat) \<Rightarrow> ini_reader \<Rightarrow> string \<Rightarrow> string \<Rightarrow> 'd \<Rightarrow> 'd" where
  "GetReal strtod r section name default_value =
     (case strtod (c_str (Get r section name [])) of (n, consumed) \<Rightarrow> if consumed > 0 then n else default_value)"

definition GetBoolean :: "ini_reader \<Rightarrow> string \<Rightarrow> string \<Rightarrow> bool \<Rightarrow> bool" where
  "GetBoolean r section name default_value =
     (let valstr = lower (Get r section name [])
      in if valstr \<in> {''true'', ''yes'', ''on'', ''1''} then True
         else if valstr \<in> {''false'', ''no'', ''off'', ''0''} then False
         else default_value)"

section \<open>Errors and case\<close>

lemma p_lineno_set_error [simp]: "p_lineno (set_error p) = p_lineno p"
  by (simp add: set_error_def)

lemma p_lineno_parse_start: "p_lineno (parse_start moved start p) = p_lineno p"
  by (simp add: parse_start_def Let_def)

lemma parse_start_error: "p_error p \<noteq> 0 \<Longrightarrow> p_error (parse_start moved start p) = p_error p"
  by (simp add: parse_start_def Let_def set_error_def)

lemma parse_start_error_range:
  "p_error p \<le> p_lineno p \<Longrightarrow> p_error (parse_start moved start p) \<le> p_lineno p"
  by (simp add: parse_start_def Let_def set_error_def)

lemma p_lineno_parse_line: "p_lineno (parse_line raw p) = Suc (p_lineno p)"
  by (simp add: parse_line_def Let_def p_lineno_parse_start)

lemma parse_line_error: "p_error p \<noteq> 0 \<Longrightarrow> p_error (parse_line raw p) = p_error p"
  by (simp add: parse_line_def Let_def parse_start_error)

lemma parse_line_error_range:
  "p_error p \<le> p_lineno p \<Longrightarrow> p_error (parse_line raw p) \<le> p_lineno (parse_line raw p)"
  unfolding p_lineno_parse_line unfolding parse_line_def Let_def
  by (rule order_trans [OF parse_start_error_range]) simp_all

lemma lower_lower: "lower (lower s) = lower s"
proof -
  have "tolower (tolower c) = tolower c" for c
    by (simp add: tolower_def)
  then show ?thesis by (simp add: lower_def)
qed

lemma MakeKey_lower: "lower s = lower s' \<Longrightarrow> lower n = lower n' \<Longrightarrow> MakeKey s n = MakeKey s' n'"
  by (simp add: MakeKey_def lower_def)

section \<open>Reading back a written file\<close>

text \<open>
  A plain word: characters that are neither blank nor NUL nor any of the characters the grammar
  gives a meaning to.
\<close>

definition plain_char :: "char \<Rightarrow> bool" where
  "plain_char c \<longleftrightarrow> \<not> isspace c \<and> code c \<noteq> 0 \<and> c \<notin> set '';#=:[]'' \<and> code c \<noteq> 239"

definition plain :: "string \<Rightarrow> bool" where
  "plain s \<longleftrightarrow> s \<noteq> [] \<and> list_all plain_char s \<and> length s < MAX_SECTION"

abbreviation nl :: string where "nl \<equiv> [char_of (10 :: nat)]"

definition render_entry :: "string \<times> string \<times> string \<Rightarrow> string" where
  "render_entry e = (case e of (s, n, v) \<Rightarrow> ''['' @ s @ '']'' @ nl @ n @ ''='' @ v @ nl)"

definition render :: "(string \<times> string \<times> string) list \<Rightarrow> string" where
  "render es = concat (map render_entry es)"

definition plain_entry :: "string \<times> string \<times> string \<Rightarrow> bool" where
  "plain_entry e = (case e of (s, n, v) \<Rightarrow> plain s \<and> plain n \<and> plain v)"

lemma plain_not_space: "list_all plain_char s \<Longrightarrow> c \<in> set s \<Longrightarrow> \<not> isspace c"
  by (auto simp: list_all_iff plain_char_def)

lemma find_plain_end:
  "list_all plain_char s \<Longrightarrow> \<not> w \<or> (s \<noteq> [] ) \<Longrightarrow> chars \<subseteq> set ''=:]'' \<Longrightarrow>
     find_chars_or_comment chars w s = length s"
  by (induction s arbitrary: w) (auto simp: plain_char_def)

lemma find_plain_stop:
  "list_all plain_char s \<Longrightarrow> chars \<subseteq> set ''=:]'' \<Longrightarrow> c \<in> chars \<Longrightarrow>
     find_chars_or_comment chars w (s @ c # t) = length s"
  by (induction s arbitrary: w) (auto simp: plain_char_def)

lemma dropWhile_space_plain: "list_all plain_char s \<Longrightarrow> dropWhile isspace s = s"
  by (cases s) (auto simp: plain_char_def)

lemma rstrip_plain: "list_all plain_char s \<Longrightarrow> rstrip s = s"
  by (simp add: rstrip_def dropWhile_space_plain)

lemma isspace_nl: "isspace (char_of (10 :: nat))"
  by (simp add: isspace_def)

lemma rstrip_snoc: "s \<noteq> [] \<Longrightarrow> \<not> isspace (last s) \<Longrightarrow> rstrip (s @ nl) = s"
  by (cases s rule: rev_cases) (auto simp: rstrip_def isspace_nl)

lemma c_str_noNUL: "\<forall>c \<in> set s. code c \<noteq> 0 \<Longrightarrow> c_str s = s"
  by (simp add: c_str_def takeWhile_eq_all_conv)

lemma fgets_len_line:
  "list_all (\<lambda>c. code c \<noteq> 10) l \<Longrightarrow> length l < n \<Longrightarrow> fgets_len n (l @ nl @ rest) = Suc (length l)"
proof (induction l arbitrary: n)
  case Nil
  then show ?case by (cases n) auto
next
  case (Cons c l)
  then show ?case by (cases n) auto
qed

lemma fgets_line:
  "list_all (\<lambda>c. code c \<noteq> 10) l \<Longrightarrow> length l < 199 \<Longrightarrow> fgets (l @ nl @ rest) = Some (l @ nl, rest)"
proof -
  assume l: "list_all (\<lambda>c. code c \<noteq> 10) l" "length l < 199"
  have n: "fgets_len (INI_MAX_LINE - 1) (l @ nl @ rest) = Suc (length l)"
    using fgets_len_line [OF l] by (simp only: INI_MAX_LINE_def) simp
  have "take (Suc (length l)) (l @ nl @ rest) = l @ nl" "drop (Suc (length l)) (l @ nl @ rest) = rest"
    by simp_all
  then show ?thesis
    unfolding fgets_def n by simp
qed

lemma nonspace_not_nl: "\<not> isspace c \<Longrightarrow> code c \<noteq> 10"
  unfolding isspace_def by linarith

lemma plain_no_nl: "list_all plain_char s \<Longrightarrow> list_all (\<lambda>c. code c \<noteq> 10) s"
  by (erule list.pred_mono_strong) (simp add: plain_char_def nonspace_not_nl)

lemma hd_plain: "plain s \<Longrightarrow> plain_char (hd s)"
  by (cases s) (auto simp: plain_def)

text \<open>The line buffer of a section line and of an assignment of plain words.\<close>

lemma parse_line_plain:
  assumes "l \<noteq> []" and "\<forall>c \<in> set l. code c \<noteq> 0" and "\<not> isspace (hd l)" and "\<not> isspace (last l)"
    and "code (hd l) \<noteq> 239"
  shows "parse_line (l @ nl) p = parse_start False l (p\<lparr>p_lineno := Suc (p_lineno p)\<rparr>)"
proof -
  have "c_str (l @ nl) = l @ nl" using assms(2) by (intro c_str_noNUL) auto
  moreover have "map code (take 3 (l @ nl)) \<noteq> [239, 187, 191]"
    using assms(1,5) by (cases l) auto
  moreover have "lskip l = l" using assms(1,3) by (cases l) (auto simp: lskip_def)
  ultimately show ?thesis
    using rstrip_snoc [OF assms(1,4)] by (simp add: parse_line_def Let_def)
qed

lemma parse_section:
  assumes "plain s"
  shows "parse_line (''['' @ s @ '']'' @ nl) p
    = p\<lparr>p_lineno := Suc (p_lineno p), p_section := s, p_prev_name := []\<rparr>"
proof -
  have s: "list_all plain_char s" using assms by (simp add: plain_def)
  have "parse_line ((''['' @ s @ '']'') @ nl) p
      = parse_start False (''['' @ s @ '']'') (p\<lparr>p_lineno := Suc (p_lineno p)\<rparr>)"
    using s by (intro parse_line_plain) (auto simp: isspace_def list_all_iff plain_char_def)
  then show ?thesis
    using assms find_plain_stop [OF s, of "{CHR '']''}" "CHR '']''" False "[]"]
    by (simp add: parse_start_def Let_def strncpy0_def plain_def MAX_SECTION_def)
qed

lemma parse_assignment:
  assumes "plain n" and "plain v"
  shows "parse_line (n @ ''='' @ v @ nl) p
    = p\<lparr>p_lineno := Suc (p_lineno p), p_prev_name := n,
        p_reader := ValueHandler (p_section p) n v (p_reader p)\<rparr>"
proof -
  have n: "list_all plain_char n" "n \<noteq> []" and v: "list_all plain_char v" "v \<noteq> []"
    using assms by (auto simp: plain_def)
  have hd_n: "plain_char (hd n)" using hd_plain [OF assms(1)] .
  have last_v: "plain_char (last v)" using v by (cases v rule: rev_cases) auto
  have "parse_line ((n @ ''='' @ v) @ nl) p
      = parse_start False (n @ ''='' @ v) (p\<lparr>p_lineno := Suc (p_lineno p)\<rparr>)"
    using n v hd_n last_v by (intro parse_line_plain) (auto simp: list_all_iff plain_char_def)
  moreover have "lskip v = v" using dropWhile_space_plain [OF v(1)] by (simp add: lskip_def)
  moreover have "hd n \<noteq> CHR '';'' \<and> hd n \<noteq> CHR ''#'' \<and> hd n \<noteq> CHR ''[''"
    using hd_n by (simp add: plain_char_def)
  ultimately show ?thesis
    using assms n v find_plain_stop [OF n(1), of "{CHR ''='', CHR '':''}" "CHR ''=''" False v]
      find_plain_end [OF v(1), of False "{}"]
    by (simp add: parse_start_def Let_def rstrip_plain strncpy0_def plain_def MAX_SECTION_def MAX_NAME_def)
qed

definition after_entry :: "string \<times> string \<times> string \<Rightarrow> ini_parser \<Rightarrow> ini_parser" where
  "after_entry e p = (case e of (s, n, v) \<Rightarrow>
     p\<lparr>p_lineno := Suc (Suc (p_lineno p)), p_section := s, p_prev_name := n,
       p_reader := ValueHandler s n v (p_reader p)\<rparr>)"

lemma ini_parse_stream_Nil: "ini_parse_stream [] p = p"
  by (subst ini_parse_stream.simps) (simp add: fgets_def)

lemma ini_parse_stream_line:
  "list_all (\<lambda>c. code c \<noteq> 10) l \<Longrightarrow> length l < 199 \<Longrightarrow>
     ini_parse_stream (l @ nl @ rest) p = ini_parse_stream rest (parse_line (l @ nl) p)"
  by (subst ini_parse_stream.simps) (simp add: fgets_line del: append.simps)

lemma ini_parse_stream_entry:
  assumes "plain_entry (s, n, v)"
  shows "ini_parse_stream (render_entry (s, n, v) @ rest) p = ini_parse_stream rest (after_entry (s, n, v) p)"
proof -
  have w: "plain s" "plain n" "plain v" using assms by (simp_all add: plain_entry_def)
  then have nnl: "list_all (\<lambda>c. code c \<noteq> 10) s" "list_all (\<lambda>c. code c \<noteq> 10) n" "list_all (\<lambda>c. code c \<noteq> 10) v"
    by (auto simp: plain_def intro: plain_no_nl)
  have 1: "ini_parse_stream ((''['' @ s @ '']'') @ nl @ n @ ''='' @ v @ nl @ rest) p
      = ini_parse_stream (n @ ''='' @ v @ nl @ rest) (parse_line ((''['' @ s @ '']'') @ nl) p)"
    using nnl w by (intro ini_parse_stream_line) (auto simp: plain_def MAX_SECTION_def)
  have 2: "ini_parse_stream ((n @ ''='' @ v) @ nl @ rest) q
      = ini_parse_stream rest (parse_line ((n @ ''='' @ v) @ nl) q)" for q
    using nnl w by (intro ini_parse_stream_line) (auto simp: plain_def MAX_SECTION_def)
  show ?thesis
    using 1 2 parse_section [OF w(1), of p] parse_assignment [OF w(2,3)]
    by (cases p) (simp add: render_entry_def after_entry_def)
qed

lemma ini_parse_stream_render:
  "list_all plain_entry es \<Longrightarrow> ini_parse_stream (render es) p = fold after_entry es p"
proof (induction es arbitrary: p)
  case Nil
  then show ?case by (simp add: render_def ini_parse_stream_Nil)
next
  case (Cons e es)
  then show ?case
    by (cases e) (simp add: render_def ini_parse_stream_entry)
qed

lemma p_error_fold_after_entry: "p_error (fold after_entry es p) = p_error p"
  by (induction es arbitrary: p) (auto simp: after_entry_def)

abbreviation entry_key :: "string \<times> string \<times> string \<Rightarrow> string" where
  "entry_key e \<equiv> (case e of (s, n, v) \<Rightarrow> MakeKey s n)"

lemma fold_after_entry_values:
  "distinct (map entry_key es) \<Longrightarrow> (\<forall>e\<in>set es. ini_values (p_reader p) (entry_key e) = None) \<Longrightarrow>
   ini_values (p_reader (fold after_entry es p))
     = ini_values (p_reader p) ++ map_of (map (\<lambda>e. (entry_key e, snd (snd e))) es)"
proof (induction es arbitrary: p)
  case Nil
  then show ?case by simp
next
  case (Cons e es)
  obtain s n v where e: "e = (s, n, v)" by (cases e)
  have upd: "ini_values (p_reader (after_entry e p)) = (ini_values (p_reader p))(MakeKey s n \<mapsto> v)"
    using Cons.prems(2) by (simp add: e after_entry_def ValueHandler_def Let_def)
  have "\<forall>e'\<in>set es. ini_values (p_reader (after_entry e p)) (entry_key e') = None"
    unfolding upd using Cons.prems by (force simp: e)
  moreover have "distinct (map entry_key es)" using Cons.prems(1) by simp
  ultimately have IH: "ini_values (p_reader (fold after_entry (e # es) p))
      = (ini_values (p_reader p))(MakeKey s n \<mapsto> v) ++ map_of (map (\<lambda>e. (entry_key e, snd (snd e))) es)"
    using Cons.IH [of "after_entry e p"] by (simp only: upd fold_simps)
  have "MakeKey s n \<notin> dom (map_of (map (\<lambda>e. (entry_key e, snd (snd e))) es))"
    using Cons.prems(1) by (simp add: e dom_map_of_conv_image_fst image_image)
  then show ?case
    unfolding IH by (rule_tac ext) (auto simp: e map_add_def split: option.splits)
qed

section \<open>Inline comments\<close>

lemma find_comment:
  "list_all plain_char v \<Longrightarrow> find_chars_or_comment {} False (v @ '' ;'' @ c) = Suc (length v)"
proof -
  have "find_chars_or_comment {} w (v @ '' ;'' @ c) = Suc (length v)"
    if "list_all plain_char v" for w
    using that by (induction v arbitrary: w) (auto simp: plain_char_def isspace_def)
  then show "list_all plain_char v \<Longrightarrow> ?thesis" by blast
qed

lemma rstrip_blank: "list_all plain_char v \<Longrightarrow> rstrip (v @ '' '') = v"
  by (simp add: rstrip_def isspace_def dropWhile_space_plain)

lemma parse_start_assignment:
  assumes "plain n"
  shows "parse_start False (n @ ''='' @ rest) p =
    p\<lparr>p_prev_name := n, p_reader := ValueHandler (p_section p) n
        (rstrip (take (find_chars_or_comment {} False (lskip rest)) (lskip rest))) (p_reader p)\<rparr>"
proof -
  have n: "list_all plain_char n" "n \<noteq> []" using assms by (auto simp: plain_def)
  have "hd n \<noteq> CHR '';'' \<and> hd n \<noteq> CHR ''#'' \<and> hd n \<noteq> CHR ''[''"
    using hd_plain [OF assms] by (simp add: plain_char_def)
  then show ?thesis
    using assms n find_plain_stop [OF n(1), of "{CHR ''='', CHR '':''}" "CHR ''=''" False rest]
    by (simp add: parse_start_def Let_def rstrip_plain strncpy0_def plain_def MAX_SECTION_def MAX_NAME_def)
qed

lemma INIReader_render:
  assumes "list_all plain_entry es" and "distinct (map entry_key es)" and "files f = Some (render es)"
  shows "ini_error (INIReader files f) = 0"
    and "ini_values (INIReader files f) = map_of (map (\<lambda>e. (entry_key e, snd (snd e))) es)"
proof -
  let ?p = "ini_parse_stream (render es) new_parser"
  have p: "?p = fold after_entry es new_parser"
    using assms(1) by (rule ini_parse_stream_render)
  have "ini_values (p_reader ?p) = map_of (map (\<lambda>e. (entry_key e, snd (snd e))) es)"
    unfolding p by (subst fold_after_entry_values [OF assms(2)]) (simp_all add: new_parser_def empty_reader_def)
  then show "ini_values (INIReader files f) = map_of (map (\<lambda>e. (entry_key e, snd (snd e))) es)"
    using assms(3) by (simp add: INIReader_def Let_def)
  show "ini_error (INIReader files f) = 0"
    using assms(3) p p_error_fold_after_entry [of es new_parser] by (simp add: INIReader_def Let_def new_parser_def)
qed

section \<open>Properties\<close>

text \<open>
  C37. Reading a written configuration back: for a file that assigns plain words to pairwise
  different keys, the reader reports no error and \<^verbatim>\<open>Get\<close> returns the value written under
  each section and name, whatever the upper or lower case of the two in the query.
\<close>

theorem ini_roundtrip:
  assumes "list_all plain_entry es" and "distinct (map entry_key es)"
    and "files f = Some (render es)" and "(s, n, v) \<in> set es"
    and "lower s' = lower s" and "lower n' = lower n"
  shows "ParseError (INIReader files f) = 0 \<and> Get (INIReader files f) s' n' d = v"
proof -
  have "(MakeKey s n, v) \<in> set (map (\<lambda>e. (entry_key e, snd (snd e))) es)"
    using assms(4) by force
  moreover have "distinct (map fst (map (\<lambda>e. (entry_key e, snd (snd e))) es))"
    using assms(2) by (simp add: comp_def)
  ultimately have "ini_values (INIReader files f) (MakeKey s n) = Some v"
    unfolding INIReader_render(2) [of es files f, OF assms(1-3)] by (rule map_of_is_SomeI [rotated])
  moreover have "MakeKey s' n' = MakeKey s n"
    using assms(5,6) by (rule MakeKey_lower)
  ultimately show ?thesis
    by (simp add: ParseError_def Get_def INIReader_render(1) [of es files f, OF assms(1-3)])
qed

theorem ini_roundtrip_witness:
  "ParseError (INIReader (\<lambda>_. Some (render [(''sip'', ''port'', ''5060''), (''other'', ''x'', ''yes'')])) ''f'') = 0
   \<and> Get (INIReader (\<lambda>_. Some (render [(''sip'', ''port'', ''5060''), (''other'', ''x'', ''yes'')])) ''f'') ''SIP'' ''Port'' [] = ''5060''"
  by (rule ini_roundtrip [where es = "[(''sip'', ''port'', ''5060''), (''other'', ''x'', ''yes'')]"
        and s = "''sip''" and n = "''port''"])
    (simp_all add: plain_entry_def plain_def plain_char_def isspace_def MAX_SECTION_def MakeKey_def
      lower_def tolower_def char_of_def bit_0)

text \<open>
  C38. Inline comments. A semicolon after a blank ends a value; but when the value is empty, so that
  the semicolon is the first character after the blanks that follow the equals sign, the comment
  itself is stored as the value.
\<close>

theorem ini_inline_comment:
  assumes "plain n" and "plain v" and "plain c"
  shows "parse_start False (n @ ''='' @ v @ '' ;'' @ c) p =
      p\<lparr>p_prev_name := n, p_reader := ValueHandler (p_section p) n v (p_reader p)\<rparr>
    \<and> parse_start False (n @ ''='' @ '' ;'' @ c) p =
      p\<lparr>p_prev_name := n, p_reader := ValueHandler (p_section p) n ('';'' @ c) (p_reader p)\<rparr>"
proof
  have v: "list_all plain_char v" "v \<noteq> []" and c: "list_all plain_char c"
    using assms by (auto simp: plain_def)
  have "lskip (v @ '' ;'' @ c) = v @ '' ;'' @ c"
    using v by (cases v) (auto simp: lskip_def plain_char_def)
  moreover have "rstrip (take (Suc (length v)) (v @ '' ;'' @ c)) = v"
    using rstrip_blank [OF v(1)] by simp
  ultimately show "parse_start False (n @ ''='' @ v @ '' ;'' @ c) p =
      p\<lparr>p_prev_name := n, p_reader := ValueHandler (p_section p) n v (p_reader p)\<rparr>"
    unfolding parse_start_assignment [OF assms(1)] using find_comment [OF v(1), of c] by simp
  have "lskip ('' ;'' @ c) = '';'' @ c"
    by (simp add: lskip_def isspace_def)
  moreover have "find_chars_or_comment {} False ('';'' @ c) = length ('';'' @ c)"
    using find_plain_end [OF c, of False "{}"] by (simp add: isspace_def)
  moreover have "rstrip ('';'' @ c) = '';'' @ c"
    using dropWhile_space_plain [of "rev c"] c assms(3)
    by (cases c rule: rev_cases) (auto simp: rstrip_def plain_def plain_char_def)
  ultimately show "parse_start False (n @ ''='' @ '' ;'' @ c) p =
      p\<lparr>p_prev_name := n, p_reader := ValueHandler (p_section p) n ('';'' @ c) (p_reader p)\<rparr>"
    unfolding parse_start_assignment [OF assms(1)] by simp
qed

theorem ini_inline_comment_witness:
  "parse_start False (''api_hash'' @ ''='' @ '' ;'' @ ''secret'') new_parser =
     new_parser\<lparr>p_prev_name := ''api_hash'',
       p_reader := ValueHandler [] ''api_hash'' '';secret'' empty_reader\<rparr>"
  using ini_inline_comment [of "''api_hash''" "''v''" "''secret''" new_parser]
  by (simp add: plain_def plain_char_def isspace_def MAX_SECTION_def new_parser_def)

end
