(* ===== verification/Settings_Model.thy ===== *)
theory Settings_Model
  imports Ini_Reader
begin

text \<open>
  The settings of \<^verbatim>\<open>tg2sip/settings.cpp\<close> and \<^verbatim>\<open>settings.h\<close>: the record of
  the class, with the field names of the source, and the constructor that fills it from an
  \<^verbatim>\<open>INIReader\<close>. Integers are kept at the width of their C++ type: an
  \<^verbatim>\<open>int\<close> is an integer in the 32-bit range, the unsigned ones are words. The accessors of
  the class return the field of the same name.
\<close>

section \<open>Conversions\<close>

text \<open>A \<^verbatim>\<open>long\<close> cast to \<^verbatim>\<open>int\<close>: the low 32 bits, read as a signed number.\<close>

definition to_int32 :: "int \<Rightarrow> int" where
  "to_int32 x = sint (word_of_int x :: 32 word)"

definition clamp :: "int \<Rightarrow> int \<Rightarrow> int \<Rightarrow> int" where
  "clamp v lo hi = (if v < lo then lo else if hi < v then hi else v)"

lemma to_int32_id: "INT_MIN \<le> x \<Longrightarrow> x \<le> INT_MAX \<Longrightarrow> to_int32 x = x"
  unfolding to_int32_def INT_MIN_def INT_MAX_def
  by (simp add: signed_of_int signed_take_bit_int_eq_self_iff)

lemma to_int32_range: "INT_MIN \<le> to_int32 x \<and> to_int32 x \<le> INT_MAX"
  using sint_greater_eq [of "word_of_int x :: 32 word"] sint_less [of "word_of_int x :: 32 word"]
  by (simp add: to_int32_def INT_MIN_def INT_MAX_def)

lemma clamp_range: "lo \<le> hi \<Longrightarrow> lo \<le> clamp v lo hi \<and> clamp v lo hi \<le> hi"
  by (simp add: clamp_def)

lemma clamp_id: "lo \<le> v \<Longrightarrow> v \<le> hi \<Longrightarrow> clamp v lo hi = v"
  by (simp add: clamp_def)

section \<open>The settings record and its constructor\<close>

record settings =
  is_loaded :: bool
  console_min_level :: int
  file_min_level :: int
  log_level :: int
  pjsip_log_level :: int
  pjsip_log_sip_messages :: bool
  tgcalls_log_level :: int
  tdlib_log_level :: int
  log_folder :: string
  sip_port :: "32 word"
  id_uri :: string
  callback_uri :: string
  public_address :: string
  stun_server :: string
  raw_pcm :: bool
  sip_thread_count :: "32 word"
  sip_port_range :: "32 word"
  api_id :: int
  api_hash :: string
  db_folder :: string
  system_language_code :: string
  device_model :: string
  system_version :: string
  application_version :: string
  udp_p2p :: bool
  udp_reflector :: bool
  aec_enabled :: bool
  ns_enabled :: bool
  agc_enabled :: bool
  proxy_enabled :: bool
  proxy_address :: string
  proxy_port :: int
  proxy_username :: string
  proxy_password :: string
  voip_proxy_enabled :: bool
  voip_proxy_address :: string
  voip_proxy_port :: "16 word"
  voip_proxy_username :: string
  voip_proxy_password :: string
  extra_wait_time :: "32 word"
  peer_flood_time :: "32 word"

definition log_setting :: "ini_reader \<Rightarrow> string \<Rightarrow> int \<Rightarrow> int" where
  "log_setting reader name d = clamp (to_int32 (GetInteger reader ''logging'' name d)) 0 6"

text \<open>
  The constructor. \<open>raw\<close> stands for the storage the object is built in: only
  \<^verbatim>\<open>is_loaded_\<close> has an initialiser, so after the first early return every other
  number is what that storage held.
\<close>

definition Settings :: "settings \<Rightarrow> ini_reader \<Rightarrow> settings" where
  "Settings raw reader =
     (if ParseError reader < 0 then raw\<lparr>is_loaded := False\<rparr>
      else
        let s = \<lparr>is_loaded = False,
          console_min_level = log_setting reader ''console_min_level'' 0,
          file_min_level = log_setting reader ''file_min_level'' 0,
          log_level = log_setting reader ''core'' 2,
          pjsip_log_level = log_setting reader ''pjsip'' 2,
          pjsip_log_sip_messages = GetBoolean reader ''logging'' ''sip_messages'' True,
          tgcalls_log_level = log_setting reader ''tgcalls'' 5,
          tdlib_log_level = log_setting reader ''tdlib'' 3,
          log_folder = Get reader ''logging'' ''log_folder'' [],
          sip_port = word_of_int (GetInteger reader ''sip'' ''port'' 0),
          id_uri = Get reader ''sip'' ''id_uri'' ''sip:localhost'',
          callback_uri = Get reader ''sip'' ''callback_uri'' [],
          public_address = Get reader ''sip'' ''public_address'' [],
          stun_server = Get reader ''sip'' ''stun_server'' [],
          raw_pcm = GetBoolean reader ''sip'' ''raw_pcm'' True,
          sip_thread_count = word_of_int (GetInteger reader ''sip'' ''thread_count'' 1),
          sip_port_range = word_of_int (GetInteger reader ''sip'' ''port_range'' 0),
          api_id = to_int32 (GetInteger reader ''telegram'' ''api_id'' 0),
          api_hash = Get reader ''telegram'' ''api_hash'' [],
          db_folder = Get reader ''telegram'' ''database_folder'' [],
          system_language_code = Get reader ''telegram'' ''system_language_code'' ''en-US'',
          device_model = Get reader ''telegram'' ''device_model'' ''PC'',
          system_version = Get reader ''telegram'' ''system_version'' ''Linux'',
          application_version = Get reader ''telegram'' ''application_version'' ''1.0'',
          udp_p2p = GetBoolean reader ''telegram'' ''udp_p2p'' False,
          udp_reflector = GetBoolean reader ''telegram'' ''udp_reflector'' True,
          aec_enabled = GetBoolean reader ''telegram'' ''enable_aec'' False,
          ns_enabled = GetBoolean reader ''telegram'' ''enable_ns'' False,
          agc_enabled = GetBoolean reader ''telegram'' ''enable_agc'' False,
          proxy_enabled = GetBoolean reader ''telegram'' ''use_proxy'' False,
          proxy_address = Get reader ''telegram'' ''proxy_address'' [],
          proxy_port = to_int32 (GetInteger reader ''telegram'' ''proxy_port'' 0),
          proxy_username = Get reader ''telegram'' ''proxy_username'' [],
          proxy_password = Get reader ''telegram'' ''proxy_password'' [],
          voip_proxy_enabled = GetBoolean reader ''telegram'' ''use_voip_proxy'' False,
          voip_proxy_address = Get reader ''telegram'' ''voip_proxy_address'' [],
          voip_proxy_port = word_of_int (GetInteger reader ''telegram'' ''voip_proxy_port'' 0),
          voip_proxy_username = Get reader ''telegram'' ''voip_proxy_username'' [],
          voip_proxy_password = Get reader ''telegram'' ''voip_proxy_password'' [],
          extra_wait_time = word_of_int (GetInteger reader ''other'' ''extra_wait_time'' 30),
          peer_flood_time = word_of_int (GetInteger reader ''other'' ''peer_flood_time'' 86400)\<rparr>
        in if api_id s = 0 \<or> api_hash s = [] then s else s\<lparr>is_loaded := True\<rparr>)"

text \<open>What the constructor prints before its two early returns.\<close>

definition Settings_cerr :: "ini_reader \<Rightarrow> string list" where
  "Settings_cerr reader =
     (if ParseError reader < 0 then [''Can'' @ [CHR 0x27] @ ''t load settings file!'']
      else if to_int32 (GetInteger reader ''telegram'' ''api_id'' 0) = 0 \<or> Get reader ''telegram'' ''api_hash'' [] = []
      then [''TDLib api settings must be set!'']
      else [])"

section \<open>What a loaded configuration guarantees\<close>

definition log_levels :: "settings \<Rightarrow> int list" where
  "log_levels s = [console_min_level s, file_min_level s, log_level s, pjsip_log_level s,
     tgcalls_log_level s, tdlib_log_level s]"

lemma log_setting_range: "0 \<le> log_setting r n d \<and> log_setting r n d \<le> 6"
  unfolding log_setting_def by (rule clamp_range) simp

lemma Settings_levels:
  "\<not> ParseError r < 0 \<Longrightarrow> \<forall>l \<in> set (log_levels (Settings raw r)). 0 \<le> l \<and> l \<le> 6"
  using log_setting_range [of r] by (simp add: Settings_def Let_def log_levels_def)

lemma Settings_is_loaded:
  "is_loaded (Settings raw r) \<longleftrightarrow>
     \<not> ParseError r < 0 \<and> to_int32 (GetInteger r ''telegram'' ''api_id'' 0) \<noteq> 0
     \<and> Get r ''telegram'' ''api_hash'' [] \<noteq> []"
  by (simp add: Settings_def Let_def)

lemma Settings_cerr_iff: "Settings_cerr r = [] \<longleftrightarrow> is_loaded (Settings raw r)"
  by (simp add: Settings_is_loaded Settings_cerr_def)

text \<open>
  C39. A configuration counts as loaded exactly when the file could be read and it gives a non-zero
  32-bit \<^verbatim>\<open>api_id\<close> and a non-empty \<^verbatim>\<open>api_hash\<close>; then every log level lies in the
  range 0 to 6 of \<^verbatim>\<open>spdlog\<close>'s levels and \<^verbatim>\<open>api_id\<close> in the range of an
  \<^verbatim>\<open>int\<close>, whatever numbers the file holds and whatever the storage held before.
\<close>

theorem settings_loaded:
  "(is_loaded (Settings raw r) \<longleftrightarrow>
      0 \<le> ParseError r \<and> to_int32 (GetInteger r ''telegram'' ''api_id'' 0) \<noteq> 0
      \<and> Get r ''telegram'' ''api_hash'' [] \<noteq> [])
   \<and> (is_loaded (Settings raw r) \<longrightarrow>
      list_all (\<lambda>l. 0 \<le> l \<and> l \<le> 6) (log_levels (Settings raw r))
      \<and> INT_MIN \<le> api_id (Settings raw r) \<and> api_id (Settings raw r) \<le> INT_MAX
      \<and> Settings raw r = Settings raw' r)"
proof (intro conjI impI)
  assume "is_loaded (Settings raw r)"
  then have ok: "\<not> ParseError r < 0" by (simp add: Settings_is_loaded)
  then show "list_all (\<lambda>l. 0 \<le> l \<and> l \<le> 6) (log_levels (Settings raw r))"
    using Settings_levels [OF ok] by (simp add: list_all_iff)
  show "INT_MIN \<le> api_id (Settings raw r)" "api_id (Settings raw r) \<le> INT_MAX"
    using ok to_int32_range by (simp_all add: Settings_def Let_def)
  show "Settings raw r = Settings raw' r"
    using ok by (simp add: Settings_def)
qed (auto simp: Settings_is_loaded)

definition sample_reader :: ini_reader where
  "sample_reader = empty_reader\<lparr>ini_values :=
     [MakeKey ''telegram'' ''api_id'' \<mapsto> ''17'', MakeKey ''telegram'' ''api_hash'' \<mapsto> ''ab'',
      MakeKey ''logging'' ''core'' \<mapsto> ''99'']\<rparr>"

theorem settings_loaded_witness:
  "is_loaded (Settings undefined sample_reader)
   \<and> list_all (\<lambda>l. 0 \<le> l \<and> l \<le> 6) (log_levels (Settings undefined sample_reader))"
proof -
  have "0 \<le> ParseError sample_reader" "to_int32 (GetInteger sample_reader ''telegram'' ''api_id'' 0) \<noteq> 0"
    "Get sample_reader ''telegram'' ''api_hash'' [] \<noteq> []"
    by code_simp+
  then show ?thesis
    using settings_loaded [of undefined sample_reader] by blast
qed

section \<open>A sample\<close>

definition demo_settings :: settings where
  "demo_settings = \<lparr>is_loaded = True, console_min_level = 0, file_min_level = 0, log_level = 2,
     pjsip_log_level = 2, pjsip_log_sip_messages = True, tgcalls_log_level = 5, tdlib_log_level = 3,
     log_folder = [], sip_port = 0, id_uri = ''sip:localhost'', callback_uri = ''sip:100@pbx'',
     public_address = [], stun_server = [], raw_pcm = True, sip_thread_count = 1, sip_port_range = 0,
     api_id = 17, api_hash = ''ab'', db_folder = [], system_language_code = ''en-US'', device_model = ''PC'',
     system_version = ''Linux'', application_version = ''1.0'', udp_p2p = False, udp_reflector = True,
     aec_enabled = False, ns_enabled = False, agc_enabled = False, proxy_enabled = False,
     proxy_address = [], proxy_port = 0, proxy_username = [], proxy_password = [],
     voip_proxy_enabled = False, voip_proxy_address = [], voip_proxy_port = 0, voip_proxy_username = [],
     voip_proxy_password = [], extra_wait_time = 30, peer_flood_time = 86400\<rparr>"

end
