(* ===== verification/Logging_Model.thy ===== *)
theory Logging_Model
  imports Settings_Model
begin

text \<open>
  Logging: \<^verbatim>\<open>tg2sip/logging.cpp\<close> and the log writer that \<^verbatim>\<open>tg2sip/sip.cpp\<close> hands to
  pjsip. The logging library is third-party code: what the sources use of it is its registry of
  named loggers with a level each (\<^verbatim>\<open>register_logger\<close> refuses a name that is taken,
  \<^verbatim>\<open>get\<close> returns null for a name that is not there); whether the log file can be opened
  is a parameter.
\<close>

section \<open>Levels\<close>

text \<open>The levels of \<^verbatim>\<open>spdlog\<close> as numbers: 0 is trace, 5 critical, 6 off.\<close>

abbreviation (input) spd_debug :: int where "spd_debug \<equiv> 1"
abbreviation (input) spd_info :: int where "spd_info \<equiv> 2"
abbreviation (input) spd_warn :: int where "spd_warn \<equiv> 3"
abbreviation (input) spd_err :: int where "spd_err \<equiv> 4"

datatype ntg_log_level = NTG_LOG_DEBUG | NTG_LOG_INFO | NTG_LOG_WARNING | NTG_LOG_ERROR | NTG_LOG_OTHER int

text \<open>Sinks filter by their own level; a logger passes a message to each of its sinks.\<close>

record logger =
  lg_level :: int
  lg_sinks :: "int list"

record log_state =
  registry :: "string \<rightharpoonup> logger"
  td_log_path :: string
  td_verbosity :: int
  ntg_logger :: bool
  log_lines :: "(string \<times> int \<times> string) list"
  cerr :: "string list"

definition log_to :: "string \<Rightarrow> int \<Rightarrow> string \<Rightarrow> log_state \<Rightarrow> log_state" where
  "log_to name lvl msg st = st\<lparr>log_lines := log_lines st @ [(name, lvl, msg)]\<rparr>"

definition NtgCallsLogCallback :: "ntg_log_level \<Rightarrow> string \<Rightarrow> log_state \<Rightarrow> log_state" where
  "NtgCallsLogCallback level message st =
     (if registry st ''tgcalls'' = None then st
      else case level of
          NTG_LOG_DEBUG \<Rightarrow> log_to ''tgcalls'' spd_debug message st
        | NTG_LOG_WARNING \<Rightarrow> log_to ''tgcalls'' spd_warn message st
        | NTG_LOG_ERROR \<Rightarrow> log_to ''tgcalls'' spd_err message st
        | _ \<Rightarrow> log_to ''tgcalls'' spd_info message st)"

text \<open>The level of \<^verbatim>\<open>LogWriter::write\<close> for the level of a pjsip log entry.\<close>

definition LogWriter_level :: "int \<Rightarrow> int" where
  "LogWriter_level level = (if level > 5 then 0 else 5 - level)"

definition LogWriter_write :: "int \<Rightarrow> string \<Rightarrow> log_state \<Rightarrow> log_state" where
  "LogWriter_write level msg st = log_to ''pjsip'' (LogWriter_level level) msg st"

section \<open>Initialisation\<close>

definition LogFilePath :: "string \<Rightarrow> string \<Rightarrow> string" where
  "LogFilePath folder file_name =
     (if folder = [] then file_name
      else if last folder = CHR ''/'' then folder @ file_name
      else folder @ ''/'' @ file_name)"

definition register_logger :: "string \<Rightarrow> logger \<Rightarrow> (log_state, unit) prog" where
  "register_logger name lg =
     bindM (getM registry) (\<lambda>r.
       if r name \<noteq> None then throwM (SpdlogEx ''logger already exists'')
       else modifyM (\<lambda>st. st\<lparr>registry := r(name \<mapsto> lg)\<rparr>))"

definition apply_all_level :: "int \<Rightarrow> log_state \<Rightarrow> log_state" where
  "apply_all_level lvl st = st\<lparr>registry := (\<lambda>n. map_option (\<lambda>lg. lg\<lparr>lg_level := lvl\<rparr>) (registry st n))\<rparr>"

text \<open>\<^verbatim>\<open>spdlog::get(name)->set_level(lvl)\<close>: \<^verbatim>\<open>get\<close> may return null.\<close>

definition get_set_level :: "string \<Rightarrow> int \<Rightarrow> (log_state, unit) prog" where
  "get_set_level name lvl =
     bindM (getM registry) (\<lambda>r.
       case r name of
         None \<Rightarrow> throwM (Undefined ''null logger'')
       | Some lg \<Rightarrow> modifyM (\<lambda>st. st\<lparr>registry := r(name \<mapsto> lg\<lparr>lg_level := lvl\<rparr>)\<rparr>))"

text \<open>
  \<open>open_file path\<close> is the error that the rotating file sink throws when it cannot open its file.
\<close>

definition init_logging :: "(string \<Rightarrow> string option) \<Rightarrow> settings \<Rightarrow> (log_state, unit) prog" where
  "init_logging open_file s =
     thenM
      (tryM
        (case open_file (LogFilePath (log_folder s) ''tg2sip.log'') of
           Some what \<Rightarrow> throwM (SpdlogEx what)
         | None \<Rightarrow>
             let sinks = [console_min_level s, file_min_level s];
                 lg = \<lparr>lg_level = spd_info, lg_sinks = sinks\<rparr>
             in thenM (register_logger ''core'' lg)
                 (thenM (register_logger ''pjsip'' lg)
                   (thenM (register_logger ''tgcalls'' lg)
                     (modifyM (apply_all_level spd_info)))))
        (\<lambda>e. case e of SpdlogEx what \<Rightarrow> Some (modifyM (\<lambda>st. st\<lparr>cerr := cerr st @ [what]\<rparr>)) | _ \<Rightarrow> None))
      (thenM (modifyM (\<lambda>st. st\<lparr>td_log_path := LogFilePath (log_folder s) ''tdlib.log'',
                                td_verbosity := tdlib_log_level s\<rparr>))
        (thenM (get_set_level ''core'' (log_level s))
          (thenM (get_set_level ''pjsip'' (pjsip_log_level s))
            (thenM (get_set_level ''tgcalls'' (tgcalls_log_level s))
              (modifyM (\<lambda>st. st\<lparr>ntg_logger := True\<rparr>))))))"

section \<open>Properties\<close>

definition no_loggers :: log_state where
  "no_loggers = \<lparr>registry = (\<lambda>_. None), td_log_path = [], td_verbosity = 0, ntg_logger = False,
     log_lines = [], cerr = []\<rparr>"

lemma init_logging_ok:
  assumes "open_file (LogFilePath (log_folder s) ''tg2sip.log'') = None"
  shows "\<exists>st. init_logging open_file s no_loggers = (Inr (), st)
     \<and> map_option lg_level \<circ> registry st =
         [''core'' \<mapsto> log_level s, ''pjsip'' \<mapsto> pjsip_log_level s, ''tgcalls'' \<mapsto> tgcalls_log_level s]
     \<and> ntg_logger st \<and> td_verbosity st = tdlib_log_level s"
  using assms
  by (auto simp: init_logging_def prog_simps register_logger_def get_set_level_def apply_all_level_def
      no_loggers_def Let_def fun_eq_iff)

lemma init_logging_unopened:
  assumes "open_file (LogFilePath (log_folder s) ''tg2sip.log'') = Some what"
  shows "fst (init_logging open_file s no_loggers) = Inl (Undefined ''null logger'')"
  using assms
  by (simp add: init_logging_def prog_simps get_set_level_def no_loggers_def)

text \<open>
  C40. Start of logging in a fresh process. When the log file opens, the three loggers exist with the
  configured levels and the callback of ntgcalls is registered; when it does not open, the error is
  caught and printed, but the code then uses the logger that was never registered: a null
  dereference.
\<close>

theorem init_logging_outcome:
  "(case open_file (LogFilePath (log_folder s) ''tg2sip.log'') of
      None \<Rightarrow> \<exists>st. init_logging open_file s no_loggers = (Inr (), st)
        \<and> map_option lg_level \<circ> registry st =
            [''core'' \<mapsto> log_level s, ''pjsip'' \<mapsto> pjsip_log_level s, ''tgcalls'' \<mapsto> tgcalls_log_level s]
        \<and> ntg_logger st \<and> td_verbosity st = tdlib_log_level s
    | Some what \<Rightarrow> fst (init_logging open_file s no_loggers) = Inl (Undefined ''null logger''))"
  by (auto intro: init_logging_ok init_logging_unopened split: option.splits)

lemma LogWriter_level_range: "0 \<le> level \<Longrightarrow> 0 \<le> LogWriter_level level \<and> LogWriter_level level \<le> 5"
  by (simp add: LogWriter_level_def)

lemma LogWriter_level_antimono: "a \<le> b \<Longrightarrow> LogWriter_level b \<le> LogWriter_level a \<or> a < 0"
  by (simp add: LogWriter_level_def)

end
