(* ===== verification/Audio_Bridge.thy ===== *)
theory Audio_Bridge
  imports Ring_Buffer
begin

text \<open>
  The two media ports of \<^verbatim>\<open>tg2sip/voip/audio_bridge.cpp\<close>: pjsip's media thread puts the
  frames of the SIP side into the microphone buffer and gets frames from the playout buffer. The
  buffers are the ring buffers that the controller shares with the ports; the proofs use them
  only through the interface \<open>sample_channel\<close>.
\<close>

section \<open>Frames and ports\<close>

datatype pjmedia_frame_type =
    PJMEDIA_FRAME_TYPE_NONE
  | PJMEDIA_FRAME_TYPE_AUDIO
  | PJMEDIA_FRAME_TYPE_EXTENDED

record pjmedia_frame =
  fr_type :: pjmedia_frame_type
  fr_buf :: "sample list"
  fr_size :: size_t

definition SAMPLES_PER_FRAME :: size_t where "SAMPLES_PER_FRAME = 480"

text \<open>What the constructors pass to \<^verbatim>\<open>pjmedia_port_info_init\<close>.\<close>

record port_info =
  pi_name :: string
  pi_clock_rate :: nat
  pi_channels :: nat
  pi_bits :: nat
  pi_samples_per_frame :: size_t

record SoftwareAudioInput =
  in_info :: port_info
  in_active :: bool
  mic_buffer :: ring_buffer

record SoftwareAudioOutput =
  out_info :: port_info
  out_active :: bool
  playout_buffer :: ring_buffer

text \<open>
  The ports as their constructors build them. Their last statement, which registers the port with
  pjsip and may be refused, is \<open>register_ports\<close> of the theory \<open>Gateway_Actions\<close>, where a controller is
  created.
\<close>

definition new_SoftwareAudioInput :: "ring_buffer \<Rightarrow> SoftwareAudioInput" where
  "new_SoftwareAudioInput mic =
     \<lparr>in_info = \<lparr>pi_name = ''voip-input'', pi_clock_rate = 48000, pi_channels = 1, pi_bits = 16,
                 pi_samples_per_frame = SAMPLES_PER_FRAME\<rparr>,
      in_active = False, mic_buffer = mic\<rparr>"

definition new_SoftwareAudioOutput :: "ring_buffer \<Rightarrow> SoftwareAudioOutput" where
  "new_SoftwareAudioOutput playout =
     \<lparr>out_info = \<lparr>pi_name = ''voip-output'', pi_clock_rate = 48000, pi_channels = 1, pi_bits = 16,
                  pi_samples_per_frame = SAMPLES_PER_FRAME\<rparr>,
      out_active = False, playout_buffer = playout\<rparr>"

definition input_Start :: "SoftwareAudioInput \<Rightarrow> SoftwareAudioInput" where
  "input_Start p = p\<lparr>in_active := True\<rparr>"

definition input_Stop :: "SoftwareAudioInput \<Rightarrow> SoftwareAudioInput" where
  "input_Stop p = p\<lparr>in_active := False\<rparr>"

definition output_Start :: "SoftwareAudioOutput \<Rightarrow> SoftwareAudioOutput" where
  "output_Start p = p\<lparr>out_active := True\<rparr>"

definition output_Stop :: "SoftwareAudioOutput \<Rightarrow> SoftwareAudioOutput" where
  "output_Stop p = p\<lparr>out_active := False\<rparr>"

section \<open>The frame callbacks\<close>

text \<open>The callbacks return \<^verbatim>\<open>PJ_SUCCESS\<close> on every path.\<close>

definition input_PutFrameCallback :: "pjmedia_frame \<Rightarrow> SoftwareAudioInput \<Rightarrow> SoftwareAudioInput" where
  "input_PutFrameCallback frame input =
     (if fr_type frame \<noteq> PJMEDIA_FRAME_TYPE_AUDIO then input
      else if \<not> in_active input then input
      else input\<lparr>mic_buffer := push (fr_buf frame) (fr_size frame div 2) (mic_buffer input)\<rparr>)"

definition input_GetFrameCallback :: "pjmedia_frame \<Rightarrow> pjmedia_frame" where
  "input_GetFrameCallback frame = frame\<lparr>fr_type := PJMEDIA_FRAME_TYPE_NONE, fr_size := 0\<rparr>"

definition output_PutFrameCallback :: "pjmedia_frame \<Rightarrow> pjmedia_frame" where
  "output_PutFrameCallback frame = frame\<lparr>fr_type := PJMEDIA_FRAME_TYPE_NONE, fr_size := 0\<rparr>"

definition output_GetFrameCallback ::
  "pjmedia_frame \<Rightarrow> SoftwareAudioOutput \<Rightarrow> pjmedia_frame \<times> SoftwareAudioOutput" where
  "output_GetFrameCallback frame output =
     (if \<not> out_active output then (frame\<lparr>fr_type := PJMEDIA_FRAME_TYPE_NONE, fr_size := 0\<rparr>, output)
      else case pop SAMPLES_PER_FRAME (playout_buffer output) of (samples, rb) \<Rightarrow>
        (frame\<lparr>fr_buf := samples @ drop (length samples) (fr_buf frame),
               fr_type := PJMEDIA_FRAME_TYPE_AUDIO, fr_size := SAMPLES_PER_FRAME * 2\<rparr>,
         output\<lparr>playout_buffer := rb\<rparr>))"

section \<open>A channel under a fixed frame size\<close>

text \<open>
  Puts and takes of whole frames on any channel: frames that fit come out one by one, in order and
  unchanged.
\<close>

fun take_frames :: "(nat \<Rightarrow> 'b \<Rightarrow> 'a list \<times> 'b) \<Rightarrow> nat \<Rightarrow> nat \<Rightarrow> 'b \<Rightarrow> 'a list list \<times> 'b" where
  "take_frames tk 0 n b = ([], b)"
| "take_frames tk (Suc k) n b =
     (case tk n b of (f, b') \<Rightarrow> case take_frames tk k n b' of (fs, b'') \<Rightarrow> (f # fs, b''))"

context sample_channel
begin

lemma fold_put:
  assumes "chan_inv b" and "\<forall>d\<in>set ds. length d \<le> chan_max"
    and "length (chan_abs b) + length (concat ds) \<le> chan_cap b"
  shows "chan_inv (fold chan_put ds b) \<and> chan_abs (fold chan_put ds b) = chan_abs b @ concat ds"
  using assms
proof (induction ds arbitrary: b)
  case (Cons d ds)
  have "chan_abs (chan_put d b) = chan_abs b @ d"
    using Cons.prems by (intro put_lossless) auto
  then show ?case
    using Cons.prems Cons.IH [of "chan_put d b"] by (simp add: inv_put cap_put)
qed simp

lemma take_frames_all:
  assumes "chan_inv b" and "chan_abs b = concat fs" and "\<forall>f\<in>set fs. length f = n" and "n \<le> chan_max"
  shows "fst (take_frames chan_take (length fs) n b) = fs \<and> chan_abs (snd (take_frames chan_take (length fs) n b)) = []"
  using assms
proof (induction fs arbitrary: b)
  case (Cons f fs)
  obtain g b' where t: "chan_take n b = (g, b')" by fastforce
  have "g = f" "chan_abs b' = concat fs" "chan_inv b'"
    using Cons.prems t take_result [of b n] abs_take [of b n] inv_take [of b n] by auto
  then show ?case
    using Cons.prems Cons.IH [of b'] t by (auto split: prod.splits)
qed simp

lemma frames_roundtrip:
  assumes "chan_inv b" and "chan_abs b = []" and "\<forall>f\<in>set fs. length f = n" and "n \<le> chan_max"
    and "length (concat fs) \<le> chan_cap b"
  shows "fst (take_frames chan_take (length fs) n (fold chan_put fs b)) = fs"
  using assms take_frames_all [of "fold chan_put fs b" fs n] fold_put [of b fs] by auto

end

section \<open>The two directions\<close>

lemma unat_480 [simp]: "unat SAMPLES_PER_FRAME = 480"
  by (simp add: SAMPLES_PER_FRAME_def)

definition audio_frame :: "sample list \<Rightarrow> pjmedia_frame" where
  "audio_frame d = \<lparr>fr_type = PJMEDIA_FRAME_TYPE_AUDIO, fr_buf = d, fr_size = of_nat (2 * length d)\<rparr>"

lemma half_of_nat:
  assumes "2 * n \<le> SIZE_MAX"
  shows "(of_nat (2 * n) :: size_t) div 2 = of_nat n"
proof (rule word_unat_eq_iff [THEN iffD2])
  have "unat (of_nat (2 * n) :: size_t) = 2 * n" "unat (of_nat n :: size_t) = n"
    using assms by (intro unat_of_nat_size; simp)+
  then show "unat ((of_nat (2 * n) :: size_t) div 2) = unat (of_nat n :: size_t)"
    by (simp only: unat_div) simp
qed

lemma input_PutFrame_audio:
  "in_active p \<Longrightarrow> 2 * length d \<le> SIZE_MAX \<Longrightarrow>
     input_PutFrameCallback (audio_frame d) p = p\<lparr>mic_buffer := rb_put d (mic_buffer p)\<rparr>"
  using half_of_nat [of "length d"]
  by (simp add: input_PutFrameCallback_def audio_frame_def rb_put_def)

lemma input_PutFrame_fold:
  "in_active p \<Longrightarrow> \<forall>d\<in>set ds. 2 * length d \<le> SIZE_MAX \<Longrightarrow>
     fold (\<lambda>d. input_PutFrameCallback (audio_frame d)) ds p = p\<lparr>mic_buffer := fold rb_put ds (mic_buffer p)\<rparr>"
  by (induction ds arbitrary: p) (simp_all add: input_PutFrame_audio)

lemma input_PutFrame_inv [inv_intros]:
  "rb_inv (mic_buffer p) \<Longrightarrow> rb_inv (mic_buffer (input_PutFrameCallback f p))"
  by (simp add: input_PutFrameCallback_def rb_inv_push)

lemma output_GetFrame_inv [inv_intros]:
  "rb_inv (playout_buffer p) \<Longrightarrow> rb_inv (playout_buffer (snd (output_GetFrameCallback f p)))"
  using rb_inv_pop [of "playout_buffer p" SAMPLES_PER_FRAME]
  by (auto simp: output_GetFrameCallback_def split: prod.splits)

text \<open>
  From SIP to Telegram: the frames that pjsip puts into an active port, up to the capacity of
  an empty microphone buffer, are what a reader of the buffer gets, frame by frame, in order and
  unchanged. A port that is not active, and a frame that is not audio, change nothing.
\<close>

lemma microphone_path:
  assumes "rb_inv (mic_buffer p)" and "contents (mic_buffer p) = []"
    and "\<forall>f\<in>set fs. length f = 480" and "480 * length fs < unat (rb_capacity (mic_buffer p))"
    and "in_active p"
  shows "fst (take_frames rb_take (length fs) 480
      (mic_buffer (fold (\<lambda>d. input_PutFrameCallback (audio_frame d)) fs p))) = fs
    \<and> input_PutFrameCallback g (input_Stop p) = input_Stop p
    \<and> input_PutFrameCallback (input_GetFrameCallback g) p = p"
proof (intro conjI)
  have len: "length (concat fs) = 480 * length fs"
    using assms(3) by (induction fs) auto
  have "fold (\<lambda>d. input_PutFrameCallback (audio_frame d)) fs p
      = p\<lparr>mic_buffer := fold rb_put fs (mic_buffer p)\<rparr>"
    using assms(3,5) by (intro input_PutFrame_fold) (auto simp: SIZE_MAX_def)
  moreover have "fst (take_frames rb_take (length fs) 480 (fold rb_put fs (mic_buffer p))) = fs"
    using assms len by (intro rb.frames_roundtrip) (auto simp: SIZE_MAX_def)
  ultimately show "fst (take_frames rb_take (length fs) 480
      (mic_buffer (fold (\<lambda>d. input_PutFrameCallback (audio_frame d)) fs p))) = fs" by simp
qed (simp_all add: input_PutFrameCallback_def input_Stop_def input_GetFrameCallback_def)

text \<open>
  From Telegram to SIP: an active port hands pjsip exactly 480 samples (960 bytes) in every
  frame, the oldest buffered ones in order and silence for what is missing, and takes just those
  from the buffer; an inactive port hands out an empty frame and takes nothing.
\<close>

lemma playout_path:
  assumes "rb_inv (playout_buffer p)"
  shows "(if out_active p then
      fr_type (fst (output_GetFrameCallback f p)) = PJMEDIA_FRAME_TYPE_AUDIO
      \<and> unat (fr_size (fst (output_GetFrameCallback f p))) = 960
      \<and> take 480 (fr_buf (fst (output_GetFrameCallback f p))) =
          take 480 (contents (playout_buffer p)) @ replicate (480 - length (contents (playout_buffer p))) 0
      \<and> contents (playout_buffer (snd (output_GetFrameCallback f p))) = drop 480 (contents (playout_buffer p))
    else fr_type (fst (output_GetFrameCallback f p)) = PJMEDIA_FRAME_TYPE_NONE
      \<and> fr_size (fst (output_GetFrameCallback f p)) = 0
      \<and> snd (output_GetFrameCallback f p) = p)"
proof -
  have len: "length (take 480 (contents (playout_buffer p))
      @ replicate (480 - length (contents (playout_buffer p))) (0 :: sample)) = 480" by simp
  show ?thesis
    using pop_result [OF assms, of SAMPLES_PER_FRAME] contents_pop [OF assms, of SAMPLES_PER_FRAME] len
    by (auto simp: output_GetFrameCallback_def SAMPLES_PER_FRAME_def split: prod.splits)
qed

end
