(* ===== verification/Ntg_Runtime.thy ===== *)
theory Ntg_Runtime
  imports Utils
begin

text \<open>
  The process-wide runtime of \<^verbatim>\<open>tg2sip/voip/ntgcalls_runtime.cpp\<close> and its header: the table
  from Telegram user ids to the sinks of the live calls, and the two ways to issue a request of
  the calling library. The library is third-party code: the record \<open>ntg_env\<close> gives, for
  every request and the requests before it, the code the request returns, and for an accepted one
  the error code and message it completes with (0 for success). Every accepted request completes.
\<close>

section \<open>Requests\<close>

datatype ntg_stream_mode = NTG_STREAM_CAPTURE | NTG_STREAM_PLAYBACK

datatype ntg_stream_device = NTG_STREAM_MICROPHONE | NTG_STREAM_SPEAKER | NTG_STREAM_CAMERA | NTG_STREAM_SCREEN

record RtcServer =
  rs_id :: "64 word"
  rs_ipv4 :: string
  rs_ipv6 :: string
  rs_username :: string
  rs_password :: string
  rs_port :: "16 word"
  rs_turn :: bool
  rs_stun :: bool
  rs_tcp :: bool
  rs_peer_tag :: "byte list"

record audio_description =
  ad_sample_rate :: "32 word"
  ad_channel_count :: byte
  ad_keep_open :: bool

datatype ntg_op =
    ntg_create_p2p int
  | ntg_set_stream_sources int ntg_stream_mode audio_description
  | ntg_skip_exchange int "byte list" bool
  | ntg_connect_p2p int "RtcServer list" "string list" bool
  | ntg_stop int
  | ntg_send_signaling_data int "byte list"
  | ntg_send_external_frame int ntg_stream_device "byte list"

record ntg_env =
  ntg_rc :: "ntg_op list \<Rightarrow> ntg_op \<Rightarrow> int"
  ntg_completion :: "ntg_op list \<Rightarrow> ntg_op \<Rightarrow> int \<times> string"
  ntg_min_layer :: int
  ntg_max_layer :: int

text \<open>
  The state: sinks as addresses of controllers, the controllers that exist, and the requests
  issued so far. The type of the controllers is a parameter of the runtime.
\<close>

record 'c ntg_world =
  nw_sinks :: "int \<rightharpoonup> nat"
  nw_heap :: "nat \<rightharpoonup> 'c"
  nw_next :: nat
  nw_ops :: "ntg_op list"

section \<open>Operations\<close>

definition Register :: "int \<Rightarrow> nat \<Rightarrow> ('c ntg_world, unit) prog" where
  "Register user_id sink = modifyM (\<lambda>w. w\<lparr>nw_sinks := (nw_sinks w)(user_id \<mapsto> sink)\<rparr>)"

definition Unregister :: "int \<Rightarrow> ('c ntg_world, unit) prog" where
  "Unregister user_id = modifyM (\<lambda>w. w\<lparr>nw_sinks := map_erase user_id (nw_sinks w)\<rparr>)"

definition issue :: "ntg_env \<Rightarrow> ntg_op \<Rightarrow> ('c ntg_world, int) prog" where
  "issue env op =
     bindM (getM nw_ops) (\<lambda>h.
       thenM (modifyM (\<lambda>w. w\<lparr>nw_ops := h @ [op]\<rparr>)) (returnM (ntg_rc env h op)))"

definition CallBlocking :: "ntg_env \<Rightarrow> ntg_op \<Rightarrow> ('c ntg_world, unit) prog" where
  "CallBlocking env op =
     bindM (getM nw_ops) (\<lambda>h.
     bindM (issue env op) (\<lambda>rc.
       if rc \<noteq> 0
       then throwM (RuntimeError (''ntgcalls call rejected synchronously, code '' @ to_string rc))
       else case ntg_completion env h op of (error_code, message) \<Rightarrow>
         if error_code \<noteq> 0
         then throwM (RuntimeError (''ntgcalls error '' @ to_string error_code @ '': '' @ message))
         else returnM ()))"

text \<open>The detached variant drops the result: neither the code nor the completion is reported.\<close>

definition CallDetached :: "ntg_env \<Rightarrow> ntg_op \<Rightarrow> ('c ntg_world, unit) prog" where
  "CallDetached env op = bindM (issue env op) (\<lambda>rc. returnM ())"

text \<open>
  The trampolines look the sink up under the mutex and call it; the pointer they call is read from
  the heap, so a sink whose controller is gone is a use after free.
\<close>

definition deref :: "nat \<Rightarrow> ('c ntg_world, 'c) prog" where
  "deref a = bindM (getM nw_heap) (\<lambda>h.
     case h a of None \<Rightarrow> throwM (Undefined ''use after free'') | Some c \<Rightarrow> returnM c)"

definition assign :: "nat \<Rightarrow> ('c \<Rightarrow> 'c) \<Rightarrow> ('c ntg_world, unit) prog" where
  "assign a f = bindM (deref a) (\<lambda>c. modifyM (\<lambda>w. w\<lparr>nw_heap := (nw_heap w)(a \<mapsto> f c)\<rparr>))"

definition SignalingTrampoline ::
  "('c \<Rightarrow> byte list \<Rightarrow> 'r option) \<Rightarrow> int \<Rightarrow> byte list \<Rightarrow> ('c ntg_world, 'r option) prog" where
  "SignalingTrampoline on_signaling_data user_id data =
     bindM (getM nw_sinks) (\<lambda>sinks.
       case sinks user_id of
         None \<Rightarrow> returnM None
       | Some a \<Rightarrow> bindM (deref a) (\<lambda>c. returnM (on_signaling_data c data)))"

definition FramesTrampoline ::
  "('f \<Rightarrow> 'c \<Rightarrow> 'c) \<Rightarrow> int \<Rightarrow> 'f \<Rightarrow> ('c ntg_world, unit) prog" where
  "FramesTrampoline on_frames chat_id frames =
     bindM (getM nw_sinks) (\<lambda>sinks.
       case sinks chat_id of
         None \<Rightarrow> returnM ()
       | Some a \<Rightarrow> assign a (on_frames frames))"

section \<open>Facts about requests\<close>

definition ntg_outcome :: "ntg_env \<Rightarrow> ntg_op list \<Rightarrow> ntg_op \<Rightarrow> exn option" where
  "ntg_outcome env h op =
     (if ntg_rc env h op \<noteq> 0
      then Some (RuntimeError (''ntgcalls call rejected synchronously, code '' @ to_string (ntg_rc env h op)))
      else if fst (ntg_completion env h op) \<noteq> 0
      then Some (RuntimeError (''ntgcalls error '' @ to_string (fst (ntg_completion env h op)) @ '': ''
             @ snd (ntg_completion env h op)))
      else None)"

lemma CallBlocking_eq:
  "CallBlocking env op w =
     (case ntg_outcome env (nw_ops w) op of None \<Rightarrow> Inr () | Some e \<Rightarrow> Inl e, w\<lparr>nw_ops := nw_ops w @ [op]\<rparr>)"
  by (simp add: CallBlocking_def issue_def ntg_outcome_def prog_simps split: prod.splits)

lemma CallBlocking_state [simp]: "snd (CallBlocking env op w) = w\<lparr>nw_ops := nw_ops w @ [op]\<rparr>"
  by (simp add: CallBlocking_eq)

lemma thenM_CallBlocking:
  "thenM (CallBlocking env op) m w =
     (case ntg_outcome env (nw_ops w) op of
        Some e \<Rightarrow> (Inl e, w\<lparr>nw_ops := nw_ops w @ [op]\<rparr>)
      | None \<Rightarrow> m (w\<lparr>nw_ops := nw_ops w @ [op]\<rparr>))"
  by (simp add: thenM_def bindM_def CallBlocking_eq split: option.splits)

text \<open>Requests issued one after the other until one fails.\<close>

fun run_ops :: "ntg_env \<Rightarrow> ntg_op list \<Rightarrow> ntg_op list \<Rightarrow> exn option \<times> ntg_op list" where
  "run_ops env [] h = (None, h)"
| "run_ops env (op # ops) h =
     (case ntg_outcome env h op of Some e \<Rightarrow> (Some e, h @ [op]) | None \<Rightarrow> run_ops env ops (h @ [op]))"

lemma run_ops_prefix: "\<exists>k \<le> length ops. snd (run_ops env ops h) = h @ take k ops
    \<and> (fst (run_ops env ops h) = None \<longrightarrow> k = length ops)"
proof (induction ops arbitrary: h)
  case (Cons op ops)
  then obtain k where "k \<le> length ops" "snd (run_ops env ops (h @ [op])) = (h @ [op]) @ take k ops"
    "fst (run_ops env ops (h @ [op])) = None \<longrightarrow> k = length ops" by blast
  then show ?case
    by (cases "ntg_outcome env h op") (auto intro: exI [of _ "Suc k"] exI [of _ "Suc 0"])
qed simp

lemma CallDetached_eq [simp]: "CallDetached env op w = (Inr (), w\<lparr>nw_ops := nw_ops w @ [op]\<rparr>)"
  by (simp add: CallDetached_def issue_def prog_simps)

text \<open>A request touches nothing but the list of requests.\<close>

lemma keeps_CallBlocking:
  "(\<And>w. P w \<Longrightarrow> P (w\<lparr>nw_ops := nw_ops w @ [op]\<rparr>)) \<Longrightarrow> keeps P (CallBlocking env op)"
  by (simp add: keeps_def)

lemma keeps_CallDetached:
  "(\<And>w. P w \<Longrightarrow> P (w\<lparr>nw_ops := nw_ops w @ [op]\<rparr>)) \<Longrightarrow> keeps P (CallDetached env op)"
  by (simp add: keeps_def)

lemma deref_eq:
  "deref a w = (case nw_heap w a of None \<Rightarrow> (Inl (Undefined ''use after free''), w) | Some c \<Rightarrow> (Inr c, w))"
  by (simp add: deref_def prog_simps split: option.splits)

lemma keeps_deref [inv_intros]: "keeps P (deref a)"
  by (simp add: keeps_def deref_eq split: option.splits)

lemma assign_eq:
  "assign a f w = (case nw_heap w a of None \<Rightarrow> (Inl (Undefined ''use after free''), w)
     | Some c \<Rightarrow> (Inr (), w\<lparr>nw_heap := (nw_heap w)(a \<mapsto> f c)\<rparr>))"
  by (simp add: assign_def deref_eq prog_simps split: option.splits)

lemma thenM_assign:
  "nw_heap w a = Some c \<Longrightarrow> thenM (assign a f) m w = m (w\<lparr>nw_heap := (nw_heap w)(a \<mapsto> f c)\<rparr>)"
  by (simp add: thenM_def bindM_def assign_eq)

lemma bindM_deref: "nw_heap w a = Some c \<Longrightarrow> bindM (deref a) f w = f c w"
  by (simp add: deref_eq bindM_def)

lemma keeps_assign:
  "(\<And>w c. P w \<Longrightarrow> nw_heap w a = Some c \<Longrightarrow> P (w\<lparr>nw_heap := (nw_heap w)(a \<mapsto> f c)\<rparr>)) \<Longrightarrow> keeps P (assign a f)"
  by (simp add: keeps_def assign_eq split: option.splits)

end
