(* ===== verification/Controller.thy ===== *)
theory Controller
  imports Audio_Bridge Ntg_Runtime
begin

text \<open>
  One Telegram call: \<^verbatim>\<open>TgCallsController\<close> of \<^verbatim>\<open>tg2sip/voip/controller.cpp\<close>. A
  controller lives at an address of the runtime's heap; the sink it registers is that address.
  The two ring buffers are the ones its ports hold. The closure that the gateway gives for
  outgoing signaling data is represented by the context id it captures (\<open>None\<close> for an empty
  function); the value it produces is the pair it puts into the gateway's queue.
\<close>

section \<open>State\<close>

record controller =
  ct_user_id :: int
  ct_encryption_key :: "byte list"
  ct_is_outgoing :: bool
  ct_rtc_servers :: "RtcServer list"
  ct_enable_p2p :: bool
  ct_on_signaling_data :: "string option"
  ct_audio_input :: SoftwareAudioInput
  ct_audio_output :: SoftwareAudioOutput
  ct_registered :: bool
  ct_created :: bool
  ct_mic_feeder_running :: bool
  ct_max_abs_since_start :: int
  ct_frames_received :: "64 word"

type_synonym rt_world = "controller ntg_world"

definition RING_BUFFER_CAPACITY :: size_t where "RING_BUFFER_CAPACITY = 48000"
definition SAMPLE_RATE :: "32 word" where "SAMPLE_RATE = 48000"
definition CHANNEL_COUNT :: byte where "CHANNEL_COUNT = 1"
definition FRAME_SAMPLES :: size_t where "FRAME_SAMPLES = 48000 div 100"

definition SupportedVersions :: "string list" where
  "SupportedVersions = [''8.0.0'', ''9.0.0'']"

definition Versions :: "string list" where
  "Versions = SupportedVersions"

definition GetConnectionMaxLayer :: "ntg_env \<Rightarrow> int" where
  "GetConnectionMaxLayer env = ntg_max_layer env"

definition GetConnectionMinLayer :: "ntg_env \<Rightarrow> int" where
  "GetConnectionMinLayer env = ntg_min_layer env"

definition TgCallsController ::
  "int \<Rightarrow> byte list \<Rightarrow> bool \<Rightarrow> RtcServer list \<Rightarrow> bool \<Rightarrow> string option \<Rightarrow> controller" where
  "TgCallsController user_id encryption_key is_outgoing rtc_servers enable_p2p on_signaling_data =
     \<lparr>ct_user_id = user_id, ct_encryption_key = encryption_key, ct_is_outgoing = is_outgoing,
      ct_rtc_servers = rtc_servers, ct_enable_p2p = enable_p2p,
      ct_on_signaling_data = on_signaling_data,
      ct_audio_input = new_SoftwareAudioInput (new_ring_buffer RING_BUFFER_CAPACITY),
      ct_audio_output = new_SoftwareAudioOutput (new_ring_buffer RING_BUFFER_CAPACITY),
      ct_registered = False, ct_created = False, ct_mic_feeder_running = False,
      ct_max_abs_since_start = 0, ct_frames_received = 0\<rparr>"

text \<open>\<^verbatim>\<open>std::make_shared\<close>: a fresh address.\<close>

definition make_controller :: "controller \<Rightarrow> (rt_world, nat) prog" where
  "make_controller c =
     bindM (getM nw_next) (\<lambda>a.
       thenM (modifyM (\<lambda>w. w\<lparr>nw_heap := (nw_heap w)(a \<mapsto> c), nw_next := Suc a\<rparr>)) (returnM a))"

section \<open>Start and stop\<close>

definition audio_desc :: audio_description where
  "audio_desc = \<lparr>ad_sample_rate = SAMPLE_RATE, ad_channel_count = CHANNEL_COUNT, ad_keep_open = False\<rparr>"

text \<open>
  The end of \<^verbatim>\<open>Start\<close>: registration, ports, feeder thread. Assigning to a thread object
  that still runs terminates the process.
\<close>

definition go_live :: "nat \<Rightarrow> (rt_world, unit) prog" where
  "go_live a =
     bindM (deref a) (\<lambda>c.
     thenM (Register (ct_user_id c) a)
     (thenM (assign a (\<lambda>c. c\<lparr>ct_registered := True\<rparr>))
     (thenM (assign a (\<lambda>c. c\<lparr>ct_audio_input := input_Start (ct_audio_input c)\<rparr>))
     (thenM (assign a (\<lambda>c. c\<lparr>ct_audio_output := output_Start (ct_audio_output c)\<rparr>))
       (if ct_mic_feeder_running c then throwM (Undefined ''joinable thread'')
        else assign a (\<lambda>c. c\<lparr>ct_mic_feeder_running := True\<rparr>))))))"

definition Start :: "ntg_env \<Rightarrow> nat \<Rightarrow> (rt_world, unit) prog" where
  "Start env a =
     bindM (deref a) (\<lambda>c.
     thenM (CallBlocking env (ntg_create_p2p (ct_user_id c)))
     (thenM (assign a (\<lambda>c. c\<lparr>ct_created := True\<rparr>))
     (thenM (CallBlocking env (ntg_set_stream_sources (ct_user_id c) NTG_STREAM_CAPTURE audio_desc))
     (thenM (CallBlocking env (ntg_set_stream_sources (ct_user_id c) NTG_STREAM_PLAYBACK audio_desc))
     (thenM (CallBlocking env (ntg_skip_exchange (ct_user_id c) (ct_encryption_key c) (ct_is_outgoing c)))
     (thenM (CallBlocking env (ntg_connect_p2p (ct_user_id c) (ct_rtc_servers c) SupportedVersions (ct_enable_p2p c)))
       (go_live a)))))))"

definition Stop :: "ntg_env \<Rightarrow> nat \<Rightarrow> (rt_world, unit) prog" where
  "Stop env a =
     thenM (assign a (\<lambda>c. c\<lparr>ct_mic_feeder_running := False\<rparr>))
     (thenM (assign a (\<lambda>c. c\<lparr>ct_audio_input := input_Stop (ct_audio_input c)\<rparr>))
     (thenM (assign a (\<lambda>c. c\<lparr>ct_audio_output := output_Stop (ct_audio_output c)\<rparr>))
     (bindM (deref a) (\<lambda>c.
     thenM (whenM (ct_registered c)
             (thenM (Unregister (ct_user_id c)) (assign a (\<lambda>c. c\<lparr>ct_registered := False\<rparr>))))
           (whenM (ct_created c)
             (thenM (CallBlocking env (ntg_stop (ct_user_id c))) (assign a (\<lambda>c. c\<lparr>ct_created := False\<rparr>))))))))"

text \<open>
  The destructor and the release of the memory. A destructor may not throw: an exception of
  \<^verbatim>\<open>Stop\<close> here ends the process, which is what a thrown outcome of the model stands for.
\<close>

definition destroy_controller :: "ntg_env \<Rightarrow> nat \<Rightarrow> (rt_world, unit) prog" where
  "destroy_controller env a =
     bindM (deref a) (\<lambda>c.
     thenM (whenM (ct_created c) (Stop env a))
           (modifyM (\<lambda>w. w\<lparr>nw_heap := map_erase a (nw_heap w)\<rparr>)))"

section \<open>Signaling and audio\<close>

definition UpdateSignaling :: "ntg_env \<Rightarrow> nat \<Rightarrow> byte list \<Rightarrow> (rt_world, unit) prog" where
  "UpdateSignaling env a data =
     bindM (deref a) (\<lambda>c.
       whenM (ct_created c) (CallDetached env (ntg_send_signaling_data (ct_user_id c) data)))"

definition OnSignalingData :: "controller \<Rightarrow> byte list \<Rightarrow> (string \<times> byte list) option" where
  "OnSignalingData c data = map_option (\<lambda>ctx_id. (ctx_id, data)) (ct_on_signaling_data c)"

text \<open>The bytes of samples in memory: the program runs on little-endian machines.\<close>

unbundle bit_operations_syntax

fun samples_of_bytes :: "byte list \<Rightarrow> sample list" where
  "samples_of_bytes (lo # hi # bs) = (ucast lo OR push_bit 8 (ucast hi)) # samples_of_bytes bs"
| "samples_of_bytes _ = []"

definition bytes_of_samples :: "sample list \<Rightarrow> byte list" where
  "bytes_of_samples ss = concat (map (\<lambda>s. [ucast s, ucast (drop_bit 8 s)]) ss)"

record ntg_frame =
  nf_data :: "byte list"
  nf_sizeData :: size_t

definition on_frame :: "ntg_frame \<Rightarrow> controller \<Rightarrow> controller" where
  "on_frame frame c =
     (let samples = samples_of_bytes (nf_data frame);
          sample_count = nf_sizeData frame div 2;
          output = ct_audio_output c
      in c\<lparr>ct_audio_output := output\<lparr>playout_buffer := push samples sample_count (playout_buffer output)\<rparr>,
           ct_max_abs_since_start := fold (\<lambda>s m. max m \<bar>sint s\<bar>) (take (unat sample_count) samples) (ct_max_abs_since_start c),
           ct_frames_received := ct_frames_received c + 1\<rparr>)"

definition OnFrames :: "ntg_stream_mode \<times> ntg_stream_device \<times> ntg_frame list \<Rightarrow> controller \<Rightarrow> controller" where
  "OnFrames cb c = (case cb of (mode, device, frames) \<Rightarrow>
     if mode \<noteq> NTG_STREAM_PLAYBACK \<or> device \<noteq> NTG_STREAM_MICROPHONE then c
     else fold on_frame frames c)"

text \<open>
  One round of \<^verbatim>\<open>MicFeederLoop\<close> (the loop runs while the flag is set and sleeps 10 ms
  between rounds).
\<close>

definition MicFeederLoop_round :: "ntg_env \<Rightarrow> nat \<Rightarrow> (rt_world, unit) prog" where
  "MicFeederLoop_round env a =
     bindM (deref a) (\<lambda>c.
       whenM (ct_mic_feeder_running c)
         (case pop FRAME_SAMPLES (mic_buffer (ct_audio_input c)) of (scratch, rb) \<Rightarrow>
            thenM (assign a (\<lambda>c. c\<lparr>ct_audio_input := (ct_audio_input c)\<lparr>mic_buffer := rb\<rparr>\<rparr>))
              (CallDetached env (ntg_send_external_frame (ct_user_id c) NTG_STREAM_MICROPHONE (bytes_of_samples scratch)))))"

text \<open>The callbacks that pjsip's media thread makes into the ports of a controller.\<close>

definition put_frame :: "nat \<Rightarrow> pjmedia_frame \<Rightarrow> (rt_world, unit) prog" where
  "put_frame a f = assign a (\<lambda>c. c\<lparr>ct_audio_input := input_PutFrameCallback f (ct_audio_input c)\<rparr>)"

definition get_frame :: "nat \<Rightarrow> pjmedia_frame \<Rightarrow> (rt_world, pjmedia_frame) prog" where
  "get_frame a f =
     bindM (deref a) (\<lambda>c. case output_GetFrameCallback f (ct_audio_output c) of (g, out) \<Rightarrow>
       thenM (assign a (\<lambda>c. c\<lparr>ct_audio_output := out\<rparr>)) (returnM g))"

section \<open>Invariant\<close>

definition ctl_inv :: "controller \<Rightarrow> bool" where
  "ctl_inv c \<longleftrightarrow> (ct_registered c \<longrightarrow> ct_created c) \<and> (ct_mic_feeder_running c \<longrightarrow> ct_registered c)
     \<and> (in_active (ct_audio_input c) \<longrightarrow> ct_registered c) \<and> (out_active (ct_audio_output c) \<longrightarrow> ct_registered c)
     \<and> rb_inv (mic_buffer (ct_audio_input c)) \<and> rb_inv (playout_buffer (ct_audio_output c))"

text \<open>Every sink is the address of a live, registered controller of that user.\<close>

definition rt_inv :: "rt_world \<Rightarrow> bool" where
  "rt_inv w \<longleftrightarrow>
     (\<forall>u a. nw_sinks w u = Some a \<longrightarrow> (\<exists>c. nw_heap w a = Some c \<and> ct_registered c \<and> ct_user_id c = u))
     \<and> (\<forall>a c. nw_heap w a = Some c \<longrightarrow> ctl_inv c \<and> a < nw_next w)"

lemma ctl_inv_new: "ctl_inv (TgCallsController u k g ss p cb)"
  by (simp add: ctl_inv_def TgCallsController_def new_SoftwareAudioInput_def new_SoftwareAudioOutput_def
      rb_inv_new cap_ok_def RING_BUFFER_CAPACITY_def)

lemma rt_inv_ops [simp]: "rt_inv (w\<lparr>nw_ops := h\<rparr>) = rt_inv w"
  by (simp add: rt_inv_def)

lemma sink_user:
  "rt_inv w \<Longrightarrow> nw_sinks w u = Some a \<Longrightarrow> nw_heap w a = Some c \<Longrightarrow> ct_registered c \<and> u = ct_user_id c"
  by (fastforce simp: rt_inv_def)

lemma sink_live: "rt_inv w \<Longrightarrow> nw_sinks w u = Some a \<Longrightarrow> \<exists>c. nw_heap w a = Some c"
  by (fastforce simp: rt_inv_def)

lemma rt_inv_ctl: "rt_inv w \<Longrightarrow> nw_heap w a = Some c \<Longrightarrow> ctl_inv c \<and> a < nw_next w"
  by (simp add: rt_inv_def)

lemma rt_inv_assign:
  assumes "rt_inv w" and "nw_heap w a = Some c" and "ctl_inv c \<Longrightarrow> ctl_inv (f c)"
    and "ct_registered c \<Longrightarrow> nw_sinks w (ct_user_id c) = Some a \<Longrightarrow> ct_registered (f c)"
    and "ct_user_id (f c) = ct_user_id c"
  shows "rt_inv (w\<lparr>nw_heap := (nw_heap w)(a \<mapsto> f c)\<rparr>)"
proof -
  have "ctl_inv (f c)" using assms rt_inv_ctl by blast
  moreover have "ct_registered (f c) \<and> ct_user_id (f c) = u" if "nw_sinks w u = Some a" for u
    using sink_user [OF assms(1) that assms(2)] assms(4,5) that by auto
  ultimately show ?thesis
    using assms(1,2) unfolding rt_inv_def by auto
qed

lemma keeps_rt_assign:
  assumes "\<And>c. ctl_inv c \<Longrightarrow> ctl_inv (f c)" and "\<And>c. ct_registered c \<Longrightarrow> ct_registered (f c)"
    and "\<And>c. ct_user_id (f c) = ct_user_id c"
  shows "keeps rt_inv (assign a f)"
  using assms by (intro keeps_assign rt_inv_assign) auto

lemma keeps_rt_CallBlocking [inv_intros]: "keeps rt_inv (CallBlocking env op)"
  by (rule keeps_CallBlocking) simp

lemma keeps_rt_CallDetached [inv_intros]: "keeps rt_inv (CallDetached env op)"
  by (rule keeps_CallDetached) simp

lemma keeps_make_controller: "ctl_inv c \<Longrightarrow> keeps rt_inv (make_controller c)"
  by (rule keepsI) (auto simp: make_controller_def prog_simps rt_inv_def less_Suc_eq)

lemmas port_defs = input_Start_def input_Stop_def output_Start_def output_Stop_def


lemma rt_inv_go_live:
  assumes "rt_inv w" and "nw_heap w a = Some c" and "ct_created c"
  shows "go_live a w =
    (if ct_mic_feeder_running c then Inl (Undefined ''joinable thread'') else Inr (),
     w\<lparr>nw_sinks := (nw_sinks w)(ct_user_id c \<mapsto> a),
       nw_heap := (nw_heap w)(a \<mapsto> c\<lparr>ct_registered := True, ct_audio_input := input_Start (ct_audio_input c),
         ct_audio_output := output_Start (ct_audio_output c), ct_mic_feeder_running := True\<rparr>)\<rparr>)"
    and "rt_inv (snd (go_live a w))"
proof -
  show eq: "go_live a w =
    (if ct_mic_feeder_running c then Inl (Undefined ''joinable thread'') else Inr (),
     w\<lparr>nw_sinks := (nw_sinks w)(ct_user_id c \<mapsto> a),
       nw_heap := (nw_heap w)(a \<mapsto> c\<lparr>ct_registered := True, ct_audio_input := input_Start (ct_audio_input c),
         ct_audio_output := output_Start (ct_audio_output c), ct_mic_feeder_running := True\<rparr>)\<rparr>)"
    using assms(2) by (cases c) (simp add: go_live_def deref_eq assign_eq Register_def prog_simps)
  show "rt_inv (snd (go_live a w))"
    using assms sink_user [OF assms(1) _ assms(2)] unfolding eq
    by (auto simp: rt_inv_def ctl_inv_def port_defs)
qed

text \<open>
  The whole of \<^verbatim>\<open>Start\<close>: the request that creates the call, then, with the flag set, the
  requests that set it up, then the registration.
\<close>

definition setup_ops :: "controller \<Rightarrow> ntg_op list" where
  "setup_ops c =
     [ntg_set_stream_sources (ct_user_id c) NTG_STREAM_CAPTURE audio_desc,
      ntg_set_stream_sources (ct_user_id c) NTG_STREAM_PLAYBACK audio_desc,
      ntg_skip_exchange (ct_user_id c) (ct_encryption_key c) (ct_is_outgoing c),
      ntg_connect_p2p (ct_user_id c) (ct_rtc_servers c) SupportedVersions (ct_enable_p2p c)]"

lemma Start_eq:
  assumes "nw_heap w a = Some c"
  shows "Start env a w =
    (case ntg_outcome env (nw_ops w) (ntg_create_p2p (ct_user_id c)) of
       Some e \<Rightarrow> (Inl e, w\<lparr>nw_ops := nw_ops w @ [ntg_create_p2p (ct_user_id c)]\<rparr>)
     | None \<Rightarrow>
        (case run_ops env (setup_ops c) (nw_ops w @ [ntg_create_p2p (ct_user_id c)]) of
           (Some e, h) \<Rightarrow> (Inl e, w\<lparr>nw_heap := (nw_heap w)(a \<mapsto> c\<lparr>ct_created := True\<rparr>), nw_ops := h\<rparr>)
         | (None, h) \<Rightarrow> go_live a (w\<lparr>nw_heap := (nw_heap w)(a \<mapsto> c\<lparr>ct_created := True\<rparr>), nw_ops := h\<rparr>)))"
  using assms
  by (simp add: Start_def bindM_deref thenM_CallBlocking thenM_assign setup_ops_def split: option.split)

lemma rt_inv_created:
  assumes "rt_inv w" and "nw_heap w a = Some c"
  shows "rt_inv (w\<lparr>nw_heap := (nw_heap w)(a \<mapsto> c\<lparr>ct_created := True\<rparr>), nw_ops := h\<rparr>)"
  using rt_inv_assign [OF assms, of "\<lambda>c. c\<lparr>ct_created := True\<rparr>"] by (simp add: ctl_inv_def)

lemma keeps_rt_Start [inv_intros]: "keeps rt_inv (Start env a)"
proof (rule keepsI)
  fix w :: rt_world
  assume w: "rt_inv w"
  show "rt_inv (snd (Start env a w))"
  proof (cases "nw_heap w a")
    case None
    then show ?thesis using w by (simp add: Start_def deref_eq prog_simps)
  next
    case (Some c)
    have "rt_inv (snd (go_live a (w\<lparr>nw_heap := (nw_heap w)(a \<mapsto> c\<lparr>ct_created := True\<rparr>), nw_ops := h\<rparr>)))" for h
      by (rule rt_inv_go_live(2) [OF rt_inv_created [OF w Some, of h], of a "c\<lparr>ct_created := True\<rparr>"]) simp_all
    then show ?thesis
      using w rt_inv_created [OF w Some] Some by (simp add: Start_eq split: option.splits prod.splits)
  qed
qed

section \<open>Stop and destruction\<close>

definition stopped :: "controller \<Rightarrow> controller" where
  "stopped c = c\<lparr>ct_mic_feeder_running := False, ct_audio_input := input_Stop (ct_audio_input c),
     ct_audio_output := output_Stop (ct_audio_output c), ct_registered := False\<rparr>"

lemma Stop_eq:
  assumes "nw_heap w a = Some c"
  shows "Stop env a w =
    (let sinks = (if ct_registered c then map_erase (ct_user_id c) (nw_sinks w) else nw_sinks w);
         u = w\<lparr>nw_sinks := sinks, nw_heap := (nw_heap w)(a \<mapsto> stopped c)\<rparr>
     in if \<not> ct_created c then (Inr (), u)
        else case ntg_outcome env (nw_ops w) (ntg_stop (ct_user_id c)) of
            Some e \<Rightarrow> (Inl e, u\<lparr>nw_ops := nw_ops w @ [ntg_stop (ct_user_id c)]\<rparr>)
          | None \<Rightarrow> (Inr (), w\<lparr>nw_sinks := sinks, nw_heap := (nw_heap w)(a \<mapsto> (stopped c)\<lparr>ct_created := False\<rparr>),
                nw_ops := nw_ops w @ [ntg_stop (ct_user_id c)]\<rparr>))"
  using assms
  apply (cases c, cases w)
  apply (simp add: Stop_def bindM_deref thenM_assign whenM_def Let_def stopped_def)
  apply (simp add: thenM_def bindM_def Unregister_def modifyM_def returnM_def assign_eq CallBlocking_eq
      stopped_def split: option.split)
  done


lemma rt_inv_stopped:
  assumes "rt_inv w" and "nw_heap w a = Some c"
  shows "rt_inv (w\<lparr>nw_sinks := if ct_registered c then map_erase (ct_user_id c) (nw_sinks w) else nw_sinks w,
      nw_heap := (nw_heap w)(a \<mapsto> stopped c)\<rparr>)"
    and "rt_inv (w\<lparr>nw_sinks := if ct_registered c then map_erase (ct_user_id c) (nw_sinks w) else nw_sinks w,
      nw_heap := (nw_heap w)(a \<mapsto> (stopped c)\<lparr>ct_created := False\<rparr>)\<rparr>)"
  using assms sink_user [OF assms(1) _ assms(2)] rt_inv_ctl [OF assms]
  by (auto simp: rt_inv_def ctl_inv_def stopped_def port_defs map_erase_def split: if_splits)

lemma keeps_rt_Stop [inv_intros]: "keeps rt_inv (Stop env a)"
proof (rule keepsI)
  fix w :: rt_world
  assume w: "rt_inv w"
  show "rt_inv (snd (Stop env a w))"
  proof (cases "nw_heap w a")
    case None
    then show ?thesis using w by (simp add: Stop_def assign_eq prog_simps)
  next
    case (Some c)
    then show ?thesis
      using rt_inv_stopped [OF w Some]
      by (cases "ct_registered c") (simp_all add: Stop_eq Let_def split: option.splits)
  qed
qed

lemma destroy_eq:
  "nw_heap w a = Some c \<Longrightarrow> destroy_controller env a w =
     (case (if ct_created c then Stop env a w else (Inr (), w)) of
        (Inl e, v) \<Rightarrow> (Inl e, v)
      | (Inr _, v) \<Rightarrow> (Inr (), v\<lparr>nw_heap := map_erase a (nw_heap v)\<rparr>))"
  by (simp add: destroy_controller_def bindM_deref)
    (simp add: thenM_def bindM_def whenM_def returnM_def modifyM_def split: prod.split sum.split)

text \<open>After the destructor no sink refers to the address it frees.\<close>

lemma destroy_unreferenced:
  assumes "rt_inv w" and "nw_heap w a = Some c" and "destroy_controller env a w = (Inr (), w')"
  shows "rt_inv w' \<and> nw_heap w' a = None \<and> (\<forall>u. nw_sinks w' u \<noteq> Some a)"
proof -
  have c: "ct_registered c \<longrightarrow> ct_created c" using rt_inv_ctl [OF assms(1,2)] by (simp add: ctl_inv_def)
  obtain v where v: "rt_inv v" "nw_heap v a \<noteq> None" "w' = v\<lparr>nw_heap := map_erase a (nw_heap v)\<rparr>"
    "\<And>d. nw_heap v a = Some d \<Longrightarrow> \<not> ct_registered d"
  proof (cases "ct_created c")
    case True
    then obtain v where stop: "Stop env a w = (Inr (), v)" "w' = v\<lparr>nw_heap := map_erase a (nw_heap v)\<rparr>"
      using assms(3) by (auto simp: destroy_eq [OF assms(2)] split: prod.splits sum.splits)
    have "rt_inv v" using keepsD [OF keeps_rt_Stop assms(1) stop(1)] .
    moreover have "\<exists>d. nw_heap v a = Some d \<and> \<not> ct_registered d"
      using stop(1) assms(2) True by (auto simp: Stop_eq Let_def stopped_def split: option.splits)
    ultimately show thesis using that [of v] stop(2) by auto
  next
    case False
    then show thesis
      using that [of w] assms c by (auto simp: destroy_eq [OF assms(2)])
  qed
  have none: "nw_sinks v u \<noteq> Some a" for u
    using v(1,4) sink_user [OF v(1)] v(2) by blast
  then show ?thesis
    using v(1,3) by (auto simp: rt_inv_def map_erase_def)
qed

lemma keeps_rt_destroy [inv_intros]: "keeps rt_inv (destroy_controller env a)"
proof (rule keepsI)
  fix w :: rt_world
  assume w: "rt_inv w"
  show "rt_inv (snd (destroy_controller env a w))"
  proof (cases "nw_heap w a")
    case None
    then show ?thesis using w by (simp add: destroy_controller_def deref_eq prog_simps)
  next
    case (Some c)
    obtain r w' where d: "destroy_controller env a w = (r, w')" by fastforce
    show ?thesis
    proof (cases r)
      case (Inr u)
      then show ?thesis using destroy_unreferenced [OF w Some] d by simp
    next
      case (Inl e)
      then have "Stop env a w = (Inl e, w')"
        using d by (auto simp: destroy_eq [OF Some] split: prod.splits sum.splits if_splits)
      then show ?thesis using keepsD [OF keeps_rt_Stop w] d by simp
    qed
  qed
qed

section \<open>Callbacks keep the invariant\<close>

lemma on_frame_flags [simp]:
  "ct_registered (on_frame f c) = ct_registered c" "ct_user_id (on_frame f c) = ct_user_id c"
  "ct_created (on_frame f c) = ct_created c" "ct_audio_input (on_frame f c) = ct_audio_input c"
  "ct_mic_feeder_running (on_frame f c) = ct_mic_feeder_running c"
  by (simp_all add: on_frame_def Let_def)

lemma ctl_inv_on_frame: "ctl_inv c \<Longrightarrow> ctl_inv (on_frame f c)"
  by (simp add: ctl_inv_def on_frame_def Let_def rb_inv_push)

lemma OnFrames_inv:
  "ctl_inv c \<Longrightarrow> ctl_inv (OnFrames cb c)"
  "ct_registered (OnFrames cb c) = ct_registered c" "ct_user_id (OnFrames cb c) = ct_user_id c"
proof -
  obtain m d fs where cb: "cb = (m, d, fs)" by (cases cb)
  have "(ctl_inv c \<longrightarrow> ctl_inv (fold on_frame fs c)) \<and> ct_registered (fold on_frame fs c) = ct_registered c
      \<and> ct_user_id (fold on_frame fs c) = ct_user_id c"
    by (induction fs arbitrary: c) (auto simp: ctl_inv_on_frame)
  then show "ctl_inv c \<Longrightarrow> ctl_inv (OnFrames cb c)"
    "ct_registered (OnFrames cb c) = ct_registered c" "ct_user_id (OnFrames cb c) = ct_user_id c"
    by (auto simp: OnFrames_def cb)
qed

lemma keeps_rt_callbacks [inv_intros]:
  "keeps rt_inv (FramesTrampoline OnFrames u cb)"
  "keeps rt_inv (SignalingTrampoline OnSignalingData u data)"
  "keeps rt_inv (put_frame a f)" "keeps rt_inv (UpdateSignaling env a data)"
proof -
  show "keeps rt_inv (FramesTrampoline OnFrames u cb)"
    by (rule keepsI) (auto simp: FramesTrampoline_def prog_simps assign_eq OnFrames_inv
        intro!: rt_inv_assign [where f = "OnFrames cb"] split: option.splits)
  show "keeps rt_inv (SignalingTrampoline OnSignalingData u data)"
    by (rule keepsI) (auto simp: SignalingTrampoline_def prog_simps deref_eq split: option.splits)
  show "keeps rt_inv (put_frame a f)"
    unfolding put_frame_def
    by (rule keeps_rt_assign) (auto simp: ctl_inv_def input_PutFrameCallback_def rb_inv_push)
  show "keeps rt_inv (UpdateSignaling env a data)"
    unfolding UpdateSignaling_def by (intro inv_intros)
qed

lemma keeps_rt_get_frame [inv_intros]: "keeps rt_inv (get_frame a f)"
proof (rule keepsI)
  fix w :: rt_world
  assume w: "rt_inv w"
  show "rt_inv (snd (get_frame a f w))"
  proof (cases "nw_heap w a")
    case (Some c)
    have "ctl_inv (c\<lparr>ct_audio_output := snd (output_GetFrameCallback f (ct_audio_output c))\<rparr>)"
      using rt_inv_ctl [OF w Some] rb_inv_pop [of "playout_buffer (ct_audio_output c)" SAMPLES_PER_FRAME]
      by (auto simp: ctl_inv_def output_GetFrameCallback_def split: prod.splits)
    then have "rt_inv (w\<lparr>nw_heap := (nw_heap w)(a \<mapsto> c\<lparr>ct_audio_output := snd (output_GetFrameCallback f (ct_audio_output c))\<rparr>)\<rparr>)"
      by (intro rt_inv_assign [OF w Some]) simp_all
    then show ?thesis
      using Some by (auto simp: get_frame_def bindM_deref thenM_assign returnM_def split: prod.splits)
  qed (use w in \<open>simp add: get_frame_def deref_eq prog_simps\<close>)
qed

lemma MicFeederLoop_round_eq:
  assumes "nw_heap w a = Some c" and "ct_mic_feeder_running c"
  shows "MicFeederLoop_round env a w =
    (Inr (), w\<lparr>nw_heap := (nw_heap w)(a \<mapsto> c\<lparr>ct_audio_input :=
         (ct_audio_input c)\<lparr>mic_buffer := snd (pop FRAME_SAMPLES (mic_buffer (ct_audio_input c)))\<rparr>\<rparr>),
       nw_ops := nw_ops w @ [ntg_send_external_frame (ct_user_id c) NTG_STREAM_MICROPHONE
         (bytes_of_samples (fst (pop FRAME_SAMPLES (mic_buffer (ct_audio_input c)))))]\<rparr>)"
  using assms by (simp add: MicFeederLoop_round_def bindM_deref whenM_def thenM_assign split: prod.splits)

lemma keeps_rt_mic [inv_intros]: "keeps rt_inv (MicFeederLoop_round env a)"
proof (rule keepsI)
  fix w :: rt_world
  assume w: "rt_inv w"
  show "rt_inv (snd (MicFeederLoop_round env a w))"
  proof (cases "nw_heap w a")
    case (Some c)
    have "rt_inv ((w\<lparr>nw_heap := (nw_heap w)(a \<mapsto> c\<lparr>ct_audio_input :=
         (ct_audio_input c)\<lparr>mic_buffer := snd (pop FRAME_SAMPLES (mic_buffer (ct_audio_input c)))\<rparr>\<rparr>)\<rparr>)
         \<lparr>nw_ops := h\<rparr>)" for h
      using rt_inv_ctl [OF w Some] unfolding rt_inv_ops
      by (intro rt_inv_assign [OF w Some]) (simp_all add: ctl_inv_def rb_inv_pop)
    then show ?thesis
      using MicFeederLoop_round_eq [OF Some] w Some
      by (cases "ct_mic_feeder_running c") (simp_all add: MicFeederLoop_round_def bindM_deref whenM_def returnM_def)
  qed (use w in \<open>simp add: MicFeederLoop_round_def deref_eq prog_simps\<close>)
qed


section \<open>The runtime and its calls as a system\<close>

text \<open>
  What can happen to the runtime: the gateway creates, starts, signals, stops and destroys
  controllers; the library's threads call the trampolines; pjsip's media thread and the feeder
  threads run between them. Each of these holds the mutex, or owns its side of a ring buffer, for
  what it touches.
\<close>

definition rt_init :: "rt_world \<Rightarrow> bool" where
  "rt_init w \<longleftrightarrow> w = \<lparr>nw_sinks = Map.empty, nw_heap = Map.empty, nw_next = 0, nw_ops = []\<rparr>"

inductive rt_step :: "ntg_env \<Rightarrow> rt_world \<Rightarrow> rt_world \<Rightarrow> bool" for env :: ntg_env where
  rt_make: "rt_step env w (snd (make_controller (TgCallsController u k g ss p cb) w))"
| rt_Start: "rt_step env w (snd (Start env a w))"
| rt_Stop: "rt_step env w (snd (Stop env a w))"
| rt_destroy: "rt_step env w (snd (destroy_controller env a w))"
| rt_update: "rt_step env w (snd (UpdateSignaling env a data w))"
| rt_signaling: "rt_step env w (snd (SignalingTrampoline OnSignalingData u data w))"
| rt_frames: "rt_step env w (snd (FramesTrampoline OnFrames u fs w))"
| rt_mic: "rt_step env w (snd (MicFeederLoop_round env a w))"
| rt_put: "rt_step env w (snd (put_frame a f w))"
| rt_get: "rt_step env w (snd (get_frame a f w))"

interpretation rt: invariant_system rt_init "rt_step env" rt_inv for env
proof
  fix s t
  assume "rt_inv s" "rt_step env s t"
  then show "rt_inv t"
    by (cases rule: rt_step.cases [OF \<open>rt_step env s t\<close>])
      (auto intro: keeps_def [THEN iffD1, rule_format] inv_intros keeps_make_controller ctl_inv_new)
qed (simp add: rt_init_def rt_inv_def)

lemma trampolines_safe:
  assumes "rt_inv w"
  shows "(\<exists>r. SignalingTrampoline OnSignalingData u data w = (Inr r, w))"
    and "fst (FramesTrampoline OnFrames u fs w) = Inr ()"
  using sink_live [OF assms, of u]
  by (auto simp: SignalingTrampoline_def FramesTrampoline_def prog_simps deref_eq assign_eq split: option.splits)

text \<open>
  C3. No dangling sink. However the calls of the gateway, the callbacks of the library and the audio
  threads interleave, also when requests fail half-way, a callback for any user finds either no
  sink or a live controller that is registered for just that user, and a controller that is
  destroyed is no longer referenced.
\<close>

theorem no_dangling_sink:
  assumes "reach rt_init (rt_step env) w"
  shows "(\<exists>r. SignalingTrampoline OnSignalingData u data w = (Inr r, w))
    \<and> fst (FramesTrampoline OnFrames u fs w) = Inr ()
    \<and> (nw_sinks w u = Some a \<longrightarrow> (\<exists>c. nw_heap w a = Some c \<and> ct_registered c \<and> ct_user_id c = u))
    \<and> (destroy_controller env a w = (Inr (), w') \<longrightarrow> nw_heap w' a = None \<and> nw_sinks w' u \<noteq> Some a)"
proof -
  have inv: "rt_inv w" using assms by (rule rt.reach_inv)
  have "nw_heap w' a = None \<and> nw_sinks w' u \<noteq> Some a" if d: "destroy_controller env a w = (Inr (), w')"
  proof -
    obtain c where "nw_heap w a = Some c"
      using d by (cases "nw_heap w a") (auto simp: destroy_controller_def deref_eq prog_simps)
    then show ?thesis using destroy_unreferenced [OF inv _ d] by blast
  qed
  then show ?thesis
    using trampolines_safe [OF inv] inv by (auto simp: rt_inv_def)
qed

definition obliging :: ntg_env where
  "obliging = \<lparr>ntg_rc = (\<lambda>_ _. 0), ntg_completion = (\<lambda>_ _. (0, [])), ntg_min_layer = 92, ntg_max_layer = 92\<rparr>"

definition empty_rt :: rt_world where
  "empty_rt = \<lparr>nw_sinks = Map.empty, nw_heap = Map.empty, nw_next = 0, nw_ops = []\<rparr>"

definition sample_controller :: controller where
  "sample_controller = TgCallsController 42 (replicate 256 0) True [] False (Some ''7-1'')"

definition one_call :: rt_world where
  "one_call = snd (Start obliging 0 (snd (make_controller sample_controller empty_rt)))"

lemma reach_one_call: "reach rt_init (rt_step obliging) one_call"
proof -
  have "reach rt_init (rt_step obliging) empty_rt"
    by (rule reach_init) (simp add: rt_init_def empty_rt_def)
  from reach_step [where step = "rt_step obliging", OF this rt_make]
  have "reach rt_init (rt_step obliging) (snd (make_controller sample_controller empty_rt))"
    unfolding sample_controller_def .
  from reach_step [where step = "rt_step obliging", OF this rt_Start] show ?thesis
    unfolding one_call_def .
qed

lemma one_call_heap: "nw_heap one_call = [0 \<mapsto> sample_controller\<lparr>ct_created := True, ct_registered := True,
    ct_audio_input := input_Start (ct_audio_input sample_controller),
    ct_audio_output := output_Start (ct_audio_output sample_controller), ct_mic_feeder_running := True\<rparr>]"
  and one_call_sinks: "nw_sinks one_call = [42 \<mapsto> 0]"
proof -
  let ?w = "snd (make_controller sample_controller empty_rt)"
  have w: "nw_heap ?w 0 = Some sample_controller" "rt_inv ?w" "nw_heap ?w = [0 \<mapsto> sample_controller]" "nw_sinks ?w = Map.empty"
    using keeps_make_controller [of sample_controller] ctl_inv_new
    by (auto simp: make_controller_def prog_simps empty_rt_def keeps_def rt_inv_def sample_controller_def)
  have ok: "ntg_outcome obliging h op = None" for h op
    by (simp add: ntg_outcome_def obliging_def)
  have "one_call = snd (go_live 0 (?w\<lparr>nw_heap := (nw_heap ?w)(0 \<mapsto> sample_controller\<lparr>ct_created := True\<rparr>),
      nw_ops := nw_ops ?w @ ntg_create_p2p (ct_user_id sample_controller) # setup_ops sample_controller\<rparr>))"
    unfolding one_call_def by (subst Start_eq [OF w(1)]) (simp add: ok setup_ops_def)
  also have "\<dots> = ?w\<lparr>nw_sinks := (nw_sinks ?w)(42 \<mapsto> 0),
      nw_heap := (nw_heap ?w)(0 \<mapsto> sample_controller\<lparr>ct_created := True, ct_registered := True,
        ct_audio_input := input_Start (ct_audio_input sample_controller),
        ct_audio_output := output_Start (ct_audio_output sample_controller), ct_mic_feeder_running := True\<rparr>),
      nw_ops := nw_ops ?w @ ntg_create_p2p (ct_user_id sample_controller) # setup_ops sample_controller\<rparr>" (is "_ = ?v")
    by (subst rt_inv_go_live(1) [OF rt_inv_created [OF w(2,1)], of _ 0 "sample_controller\<lparr>ct_created := True\<rparr>"])
      (simp_all add: sample_controller_def TgCallsController_def)
  finally have eq: "one_call = ?v" .
  show "nw_heap one_call = [0 \<mapsto> sample_controller\<lparr>ct_created := True, ct_registered := True,
    ct_audio_input := input_Start (ct_audio_input sample_controller),
    ct_audio_output := output_Start (ct_audio_output sample_controller), ct_mic_feeder_running := True\<rparr>]"
    and "nw_sinks one_call = [42 \<mapsto> 0]"
    unfolding eq using w by simp_all
qed

theorem no_dangling_sink_witness:
  "\<exists>c. nw_heap one_call 0 = Some c \<and> ct_registered c \<and> ct_user_id c = 42"
  using no_dangling_sink [OF reach_one_call, of 42 "[]" "(NTG_STREAM_PLAYBACK, NTG_STREAM_MICROPHONE, [])" 0]
  by (simp add: one_call_sinks)


section \<open>Starting a call\<close>

text \<open>
  C21. \<^verbatim>\<open>Start\<close> issues the requests create, capture source, playback source, key, connect in
  this order and stops at the first that fails. It succeeds exactly when none fails, and only then
  the call has a sink, active ports and a running feeder; after a failure it has none of them, no
  sink changes, and the flag that makes the destructor stop the call is set exactly when the call
  was created.
\<close>

theorem start_sequence:
  assumes "rt_inv w" and "nw_heap w a = Some c" and "\<not> ct_created c"
  shows "\<exists>k \<le> 5. nw_ops (snd (Start env a w)) = nw_ops w @ take k (ntg_create_p2p (ct_user_id c) # setup_ops c)
    \<and> (case Start env a w of
        (Inr _, w') \<Rightarrow> k = 5 \<and> nw_sinks w' = (nw_sinks w)(ct_user_id c \<mapsto> a)
          \<and> (\<exists>d. nw_heap w' a = Some d \<and> ct_registered d \<and> ct_mic_feeder_running d
               \<and> in_active (ct_audio_input d) \<and> out_active (ct_audio_output d))
      | (Inl _, w') \<Rightarrow> nw_sinks w' = nw_sinks w
          \<and> (\<exists>d. nw_heap w' a = Some d \<and> \<not> ct_registered d \<and> \<not> ct_mic_feeder_running d
               \<and> \<not> in_active (ct_audio_input d) \<and> \<not> out_active (ct_audio_output d)
               \<and> (ct_created d \<longleftrightarrow> k \<noteq> 1)))"
proof -
  let ?create = "ntg_create_p2p (ct_user_id c)"
  have c: "\<not> ct_registered c" "\<not> ct_mic_feeder_running c"
      "\<not> in_active (ct_audio_input c)" "\<not> out_active (ct_audio_output c)"
    using rt_inv_ctl [OF assms(1,2)] assms(3) by (auto simp: ctl_inv_def)
  show ?thesis
  proof (cases "ntg_outcome env (nw_ops w) ?create")
    case (Some e)
    then show ?thesis
      using assms c by (intro exI [of _ "Suc 0"]) (simp add: Start_eq)
  next
    case None
    obtain r h where run: "run_ops env (setup_ops c) (nw_ops w @ [?create]) = (r, h)" by fastforce
    obtain k where k: "k \<le> length (setup_ops c)" "h = (nw_ops w @ [?create]) @ take k (setup_ops c)"
        "r = None \<longrightarrow> k = length (setup_ops c)"
      using run_ops_prefix [of "setup_ops c" env "nw_ops w @ [?create]"] run by auto
    have k1: "k \<noteq> 0" if "r \<noteq> None"
    proof
      assume "k = 0"
      then have "h = nw_ops w @ [?create]" using k(2) by simp
      then show False using run that
        by (simp add: setup_ops_def split: option.splits)
    qed
    have live: "go_live a (w\<lparr>nw_heap := (nw_heap w)(a \<mapsto> c\<lparr>ct_created := True\<rparr>), nw_ops := h\<rparr>) =
       (Inr (), w\<lparr>nw_heap := (nw_heap w)(a \<mapsto> c\<lparr>ct_created := True, ct_registered := True,
          ct_audio_input := input_Start (ct_audio_input c), ct_audio_output := output_Start (ct_audio_output c),
          ct_mic_feeder_running := True\<rparr>), nw_ops := h, nw_sinks := (nw_sinks w)(ct_user_id c \<mapsto> a)\<rparr>)"
      using c(2) by (cases w, cases c) (simp add: go_live_def deref_eq assign_eq Register_def prog_simps)
    show ?thesis
    proof (cases r)
      case None
      then show ?thesis
        using \<open>ntg_outcome env (nw_ops w) ?create = None\<close> run k live assms(2)
        by (intro exI [of _ 5]) (simp add: Start_eq setup_ops_def port_defs eval_nat_numeral)
    next
      case (Some e)
      then show ?thesis
        using \<open>ntg_outcome env (nw_ops w) ?create = None\<close> run k assms(2) c k1
        by (intro exI [of _ "Suc k"]) (auto simp: Start_eq setup_ops_def)
    qed
  qed
qed


definition refuse_key :: ntg_env where
  "refuse_key = obliging\<lparr>ntg_rc := (\<lambda>_ op. case op of ntg_skip_exchange _ _ _ \<Rightarrow> -3 | _ \<Rightarrow> 0)\<rparr>"

definition one_made :: rt_world where
  "one_made = snd (make_controller sample_controller empty_rt)"

lemma one_made_facts:
  "rt_inv one_made" "nw_heap one_made 0 = Some sample_controller" "nw_sinks one_made = Map.empty"
  "nw_ops one_made = []"
  by (simp_all add: one_made_def make_controller_def prog_simps empty_rt_def rt_inv_def sample_controller_def
      ctl_inv_new)

theorem start_sequence_witness:
  "fst (Start refuse_key 0 one_made) = Inl (RuntimeError (''ntgcalls call rejected synchronously, code -3''))
   \<and> nw_sinks (snd (Start refuse_key 0 one_made)) = Map.empty
   \<and> (\<exists>k \<le> 5. nw_ops (snd (Start refuse_key 0 one_made)) =
        take k (ntg_create_p2p 42 # setup_ops sample_controller))"
proof -
  have ok: "ntg_outcome refuse_key h op = None" if "\<forall>u k b. op \<noteq> ntg_skip_exchange u k b" for h op
    using that by (cases op) (auto simp: ntg_outcome_def refuse_key_def obliging_def)
  have bad: "ntg_outcome refuse_key h (ntg_skip_exchange u k b) =
      Some (RuntimeError (''ntgcalls call rejected synchronously, code -3''))" for h u k b
    by (simp add: ntg_outcome_def refuse_key_def obliging_def to_string_def show_nat.simps char_of_def bit_0)
  have out: "fst (Start refuse_key 0 one_made) =
      Inl (RuntimeError (''ntgcalls call rejected synchronously, code -3''))"
    by (simp add: Start_eq [OF one_made_facts(2)] setup_ops_def ok bad)
  have id: "\<not> ct_created sample_controller" "ct_user_id sample_controller = 42"
    by (simp_all add: sample_controller_def TgCallsController_def)
  show ?thesis
    using start_sequence [OF one_made_facts(1,2) id(1), of refuse_key] out
    by (cases "Start refuse_key 0 one_made") (auto simp: one_made_facts id)
qed

section \<open>Audio of a running call\<close>

lemma samples_of_bytes_append:
  "samples_of_bytes (ucast s # ucast (drop_bit 8 s) # bs) = s # samples_of_bytes bs" for s :: sample
proof -
  have "(ucast (ucast s :: byte) :: sample) OR push_bit 8 (ucast (ucast (drop_bit 8 s) :: byte)) = s"
    by (rule bit_eqI)
      (auto simp: bit_simps not_less dest: bit_imp_le_length)
  then show ?thesis by simp
qed

lemma samples_bytes_roundtrip: "samples_of_bytes (bytes_of_samples ss) = ss"
  by (induction ss) (simp_all add: bytes_of_samples_def samples_of_bytes_append del: samples_of_bytes.simps(1))

lemma length_bytes_of_samples [simp]: "length (bytes_of_samples ss) = 2 * length ss"
  by (induction ss) (simp_all add: bytes_of_samples_def)

lemma unat_FRAME_SAMPLES [simp]: "unat FRAME_SAMPLES = 480"
  by (simp add: FRAME_SAMPLES_def)

text \<open>
  C27. One round of the feeder of a running call sends exactly one frame of 960 bytes for its user:
  the bytes of the oldest 480 buffered samples, with silence for the missing ones, which the same
  byte order reads back; those samples leave the buffer, and nothing else of the controller or of the
  runtime changes.
\<close>

theorem mic_feeder_round:
  assumes "rt_inv w" and "nw_heap w a = Some c" and "ct_mic_feeder_running c"
  shows "\<exists>bs w'. MicFeederLoop_round env a w = (Inr (), w')
    \<and> nw_ops w' = nw_ops w @ [ntg_send_external_frame (ct_user_id c) NTG_STREAM_MICROPHONE bs]
    \<and> length bs = 960
    \<and> samples_of_bytes bs = take 480 (contents (mic_buffer (ct_audio_input c)))
        @ replicate (480 - length (contents (mic_buffer (ct_audio_input c)))) 0
    \<and> (\<exists>rb. nw_heap w' = (nw_heap w)(a \<mapsto> c\<lparr>ct_audio_input := (ct_audio_input c)\<lparr>mic_buffer := rb\<rparr>\<rparr>)
        \<and> contents rb = drop 480 (contents (mic_buffer (ct_audio_input c))))
    \<and> nw_sinks w' = nw_sinks w \<and> nw_next w' = nw_next w"
proof -
  have rb: "rb_inv (mic_buffer (ct_audio_input c))"
    using rt_inv_ctl [OF assms(1,2)] by (simp add: ctl_inv_def)
  have "contents (snd (pop FRAME_SAMPLES (mic_buffer (ct_audio_input c)))) = drop 480 (contents (mic_buffer (ct_audio_input c)))"
    by (simp add: contents_pop [OF rb])
  moreover have "length (bytes_of_samples (fst (pop FRAME_SAMPLES (mic_buffer (ct_audio_input c))))) = 960"
    unfolding length_bytes_of_samples by (simp only: pop_result [OF rb]) (simp add: min_def, linarith)
  ultimately show ?thesis
    using MicFeederLoop_round_eq [OF assms(2,3), of env]
    by (auto simp: samples_bytes_roundtrip pop_result [OF rb])
qed

lemma one_call_controller:
  "\<exists>c. nw_heap one_call 0 = Some c \<and> ct_mic_feeder_running c \<and> ct_user_id c = 42
     \<and> out_active (ct_audio_output c) \<and> contents (mic_buffer (ct_audio_input c)) = []
     \<and> contents (playout_buffer (ct_audio_output c)) = []
     \<and> rb_capacity (playout_buffer (ct_audio_output c)) = RING_BUFFER_CAPACITY"
  by (simp add: one_call_heap sample_controller_def TgCallsController_def port_defs new_SoftwareAudioInput_def
      new_SoftwareAudioOutput_def contents_new)
    (simp add: new_ring_buffer_def)

theorem mic_feeder_round_witness:
  "\<exists>bs. nw_ops (snd (MicFeederLoop_round obliging 0 one_call)) =
      nw_ops one_call @ [ntg_send_external_frame 42 NTG_STREAM_MICROPHONE bs]
    \<and> samples_of_bytes bs = replicate 480 0"
proof -
  obtain c where c: "nw_heap one_call 0 = Some c" "ct_mic_feeder_running c" "ct_user_id c = 42"
      "contents (mic_buffer (ct_audio_input c)) = []"
    using one_call_controller by auto
  show ?thesis
    using mic_feeder_round [OF rt.reach_inv [OF reach_one_call] c(1,2), of obliging] c(3,4) by auto
qed


lemma FramesTrampoline_eq:
  assumes "nw_heap w a = Some c" and "nw_sinks w u = Some a"
  shows "FramesTrampoline OnFrames u cb w = (Inr (), w\<lparr>nw_heap := (nw_heap w)(a \<mapsto> OnFrames cb c)\<rparr>)"
  using assms by (simp add: FramesTrampoline_def prog_simps assign_eq)

definition pcm_frame :: "sample list \<Rightarrow> ntg_frame" where
  "pcm_frame ss = \<lparr>nf_data = bytes_of_samples ss, nf_sizeData = of_nat (2 * length ss)\<rparr>"

definition small_frame :: "sample list \<Rightarrow> bool" where
  "small_frame ss \<longleftrightarrow> 2 * length ss \<le> SIZE_MAX"

lemma on_frame_pcm:
  "small_frame ss \<Longrightarrow> ct_audio_output (on_frame (pcm_frame ss) c) =
     (ct_audio_output c)\<lparr>playout_buffer := rb_put ss (playout_buffer (ct_audio_output c))\<rparr>"
  using half_of_nat [of "length ss"]
  by (simp add: on_frame_def Let_def pcm_frame_def samples_bytes_roundtrip rb_put_def small_frame_def)

lemma fold_on_frame_pcm:
  "list_all small_frame fs \<Longrightarrow> ct_audio_output (fold on_frame (map pcm_frame fs) c) =
     (ct_audio_output c)\<lparr>playout_buffer := fold rb_put fs (playout_buffer (ct_audio_output c))\<rparr>"
  by (induction fs arbitrary: c) (simp_all add: on_frame_pcm)

text \<open>The same for the whole controller: only the buffer, the loudest sample and the count of frames change.\<close>

lemma on_frame_pcm_all:
  assumes "small_frame ss"
  shows "on_frame (pcm_frame ss) c = c\<lparr>ct_audio_output := (ct_audio_output c)\<lparr>playout_buffer := rb_put ss (playout_buffer (ct_audio_output c))\<rparr>,
     ct_max_abs_since_start := fold (\<lambda>s m. max m \<bar>sint s\<bar>) ss (ct_max_abs_since_start c),
     ct_frames_received := ct_frames_received c + 1\<rparr>"
proof -
  have "2 * length ss \<le> SIZE_MAX" using assms by (simp add: small_frame_def)
  then have "unat ((of_nat (2 * length ss) :: size_t) div 2) = length ss"
    unfolding half_of_nat [OF \<open>2 * length ss \<le> SIZE_MAX\<close>] by (intro unat_of_nat_size) simp
  then show ?thesis
    using half_of_nat [of "length ss"] assms
    by (simp add: on_frame_def Let_def pcm_frame_def samples_bytes_roundtrip rb_put_def small_frame_def)
qed

lemma fold_on_frame_pcm_all:
  "list_all small_frame fs \<Longrightarrow> fold on_frame (map pcm_frame fs) c =
     c\<lparr>ct_audio_output := (ct_audio_output c)\<lparr>playout_buffer := fold rb_put fs (playout_buffer (ct_audio_output c))\<rparr>,
       ct_max_abs_since_start := fold (\<lambda>s m. max m \<bar>sint s\<bar>) (concat fs) (ct_max_abs_since_start c),
       ct_frames_received := ct_frames_received c + of_nat (length fs)\<rparr>"
  by (induction fs arbitrary: c) (simp_all add: on_frame_pcm_all)

text \<open>
  C28. Audio from Telegram reaches the right call and changes nothing else. Frames of the playback
  microphone for a user, whose samples all fit into the free room of the playout buffer of the controller
  registered for that user, are appended to that buffer in order; the controller also counts them and keeps
  the largest amplitude, and every other field of it, its port and its buffer's capacity included, every other
  controller, the sinks and the requests stay as they are. Frames of any other stream change nothing at all.
\<close>

theorem frames_delivered:
  assumes "rt_inv w" and "nw_sinks w u = Some a" and "nw_heap w a = Some c"
    and "list_all small_frame fs" and "port = ct_audio_output c"
    and "length (contents (playout_buffer port)) + length (concat fs) < unat (rb_capacity (playout_buffer port))"
  shows "(\<exists>rb. FramesTrampoline OnFrames u (NTG_STREAM_PLAYBACK, NTG_STREAM_MICROPHONE, map pcm_frame fs) w =
        (Inr (), w\<lparr>nw_heap := (nw_heap w)(a \<mapsto> c\<lparr>ct_audio_output := port\<lparr>playout_buffer := rb\<rparr>,
           ct_max_abs_since_start := fold (\<lambda>s m. max m \<bar>sint s\<bar>) (concat fs) (ct_max_abs_since_start c),
           ct_frames_received := ct_frames_received c + of_nat (length fs)\<rparr>)\<rparr>)
      \<and> contents rb = contents (playout_buffer port) @ concat fs
      \<and> rb_capacity rb = rb_capacity (playout_buffer port) \<and> rb_inv rb)
    \<and> (m \<noteq> NTG_STREAM_PLAYBACK \<or> dev \<noteq> NTG_STREAM_MICROPHONE \<longrightarrow>
      FramesTrampoline OnFrames u (m, dev, gs) w = (Inr (), w))"
proof
  let ?rb = "playout_buffer port" and ?rb' = "fold rb_put fs (playout_buffer port)"
  have rb: "rb_inv ?rb"
    using rt_inv_ctl [OF assms(1,3)] assms(5) by (simp add: ctl_inv_def)
  have "\<forall>d\<in>set fs. length d \<le> SIZE_MAX"
    using assms(4) by (auto simp: list_all_iff small_frame_def)
  then have "contents ?rb' = contents ?rb @ concat fs" "rb_inv ?rb'"
    using rb.fold_put [OF rb, of fs] assms(6) by simp_all
  moreover have "rb_capacity ?rb' = rb_capacity ?rb"
    by (induction fs arbitrary: port rule: rev_induct) (simp_all add: rb_put_def)
  ultimately show "\<exists>rb. FramesTrampoline OnFrames u (NTG_STREAM_PLAYBACK, NTG_STREAM_MICROPHONE, map pcm_frame fs) w =
        (Inr (), w\<lparr>nw_heap := (nw_heap w)(a \<mapsto> c\<lparr>ct_audio_output := port\<lparr>playout_buffer := rb\<rparr>,
           ct_max_abs_since_start := fold (\<lambda>s m. max m \<bar>sint s\<bar>) (concat fs) (ct_max_abs_since_start c),
           ct_frames_received := ct_frames_received c + of_nat (length fs)\<rparr>)\<rparr>)
      \<and> contents rb = contents (playout_buffer port) @ concat fs
      \<and> rb_capacity rb = rb_capacity (playout_buffer port) \<and> rb_inv rb"
    using fold_on_frame_pcm_all [OF assms(4), of c] FramesTrampoline_eq [OF assms(3,2)] assms(5)
    by (intro exI [of _ ?rb']) (simp add: OnFrames_def)
  have same: "w\<lparr>nw_heap := (nw_heap w)(a \<mapsto> c)\<rparr> = w"
    using assms(3) by (cases w) (auto simp: fun_upd_idem)
  show "m \<noteq> NTG_STREAM_PLAYBACK \<or> dev \<noteq> NTG_STREAM_MICROPHONE \<longrightarrow>
      FramesTrampoline OnFrames u (m, dev, gs) w = (Inr (), w)"
    by (simp add: FramesTrampoline_eq [OF assms(3,2)] OnFrames_def same)
qed

theorem frames_delivered_witness:
  "\<exists>d. nw_heap (snd (FramesTrampoline OnFrames 42
       (NTG_STREAM_PLAYBACK, NTG_STREAM_MICROPHONE, map pcm_frame [[1, 2], [3]]) one_call)) 0 = Some d
     \<and> contents (playout_buffer (ct_audio_output d)) = [1, 2, 3] \<and> ct_encryption_key d = replicate 256 0
     \<and> ct_frames_received d = 2 \<and> ct_max_abs_since_start d = 3"
proof -
  obtain c where c: "nw_heap one_call 0 = Some c" "contents (playout_buffer (ct_audio_output c)) = []"
      "rb_capacity (playout_buffer (ct_audio_output c)) = RING_BUFFER_CAPACITY"
      "ct_encryption_key c = replicate 256 0" "ct_frames_received c = 0" "ct_max_abs_since_start c = 0"
    using one_call_controller by (auto simp: one_call_heap sample_controller_def TgCallsController_def)
  let ?fs = "[[1, 2], [3]] :: sample list list"
  have "\<exists>rb. FramesTrampoline OnFrames 42 (NTG_STREAM_PLAYBACK, NTG_STREAM_MICROPHONE, map pcm_frame ?fs) one_call =
        (Inr (), one_call\<lparr>nw_heap := (nw_heap one_call)(0 \<mapsto> c\<lparr>ct_audio_output := (ct_audio_output c)\<lparr>playout_buffer := rb\<rparr>,
           ct_max_abs_since_start := fold (\<lambda>s m. max m \<bar>sint s\<bar>) (concat ?fs) (ct_max_abs_since_start c),
           ct_frames_received := ct_frames_received c + of_nat (length ?fs)\<rparr>)\<rparr>)
      \<and> contents rb = contents (playout_buffer (ct_audio_output c)) @ concat ?fs
      \<and> rb_capacity rb = rb_capacity (playout_buffer (ct_audio_output c)) \<and> rb_inv rb"
    by (rule frames_delivered [OF rt.reach_inv [OF reach_one_call] _ c(1) _ refl, THEN conjunct1])
      (simp_all add: c(2,3) one_call_sinks small_frame_def SIZE_MAX_def RING_BUFFER_CAPACITY_def)
  then show ?thesis
    using c(2,4-6) by auto
qed

text \<open>
  C29. Stopping a registered call removes the sink of its user and no other sink, and changes no other
  controller, whether or not the library's stop request fails. So of two calls with the same
  user, stopping either one cuts the other off: it stays registered, but no callback reaches it.
\<close>

theorem stop_cuts_user_off:
  assumes "nw_heap w a = Some c" and "ct_registered c"
    and "nw_heap w b = Some d" and "b \<noteq> a" and "ct_registered d" and "ct_user_id d = ct_user_id c"
  shows "nw_sinks (snd (Stop env a w)) = map_erase (ct_user_id c) (nw_sinks w)
    \<and> (\<forall>x. x \<noteq> a \<longrightarrow> nw_heap (snd (Stop env a w)) x = nw_heap w x)
    \<and> snd (FramesTrampoline OnFrames (ct_user_id d) fs (snd (Stop env a w))) = snd (Stop env a w)"
  using assms
  by (auto simp: Stop_eq Let_def FramesTrampoline_def prog_simps split: option.split)

definition two_calls :: rt_world where
  "two_calls = \<lparr>nw_sinks = [42 \<mapsto> 1],
     nw_heap = [0 \<mapsto> sample_controller\<lparr>ct_registered := True, ct_created := True\<rparr>,
                1 \<mapsto> sample_controller\<lparr>ct_registered := True, ct_created := True\<rparr>],
     nw_next = 2, nw_ops = []\<rparr>"

theorem stop_cuts_user_off_witness:
  "nw_sinks two_calls 42 = Some 1 \<and> nw_sinks (snd (Stop obliging 0 two_calls)) 42 = None"
  using stop_cuts_user_off [of two_calls 0 "sample_controller\<lparr>ct_registered := True, ct_created := True\<rparr>" 1
      "sample_controller\<lparr>ct_registered := True, ct_created := True\<rparr>" obliging]
  by (simp add: two_calls_def sample_controller_def TgCallsController_def)

end
