(* ===== verification/Audio_Path.thy ===== *)
theory Audio_Path
  imports Controller
begin

text \<open>
  The audio of several calls, from end to end: pjsip's media thread puts and gets frames, the feeder
  threads send to Telegram, the calling library delivers playback frames, in any order. For each
  call the whole path (ports, ring buffers, conversion to bytes, runtime, sinks) is one bounded queue of
  samples per direction.
\<close>

section \<open>Steps\<close>

datatype audio_step =
    sip_put nat "sample list"
  | feeder_round nat
  | tg_frames int "sample list list"
  | sip_get nat pjmedia_frame

text \<open>A frame for SIP is what its size says of its buffer.\<close>

definition frame_samples :: "pjmedia_frame \<Rightarrow> sample list" where
  "frame_samples f = take (unat (fr_size f) div 2) (fr_buf f)"

fun audio_do :: "ntg_env \<Rightarrow> audio_step \<Rightarrow> (rt_world, (nat \<times> sample list) list) prog" where
  "audio_do env (sip_put a d) = thenM (put_frame a (audio_frame d)) (returnM [])"
| "audio_do env (feeder_round a) = thenM (MicFeederLoop_round env a) (returnM [])"
| "audio_do env (tg_frames u fs) =
     thenM (FramesTrampoline OnFrames u (NTG_STREAM_PLAYBACK, NTG_STREAM_MICROPHONE, map pcm_frame fs)) (returnM [])"
| "audio_do env (sip_get a f) = bindM (get_frame a f) (\<lambda>g. returnM [(a, frame_samples g)])"

fun audio_run :: "ntg_env \<Rightarrow> audio_step list \<Rightarrow> (rt_world, (nat \<times> sample list) list) prog" where
  "audio_run env [] = returnM []"
| "audio_run env (s # ss) = bindM (audio_do env s) (\<lambda>out. bindM (audio_run env ss) (\<lambda>outs. returnM (out @ outs)))"

text \<open>What was sent to Telegram for a user.\<close>

definition sent_for :: "int \<Rightarrow> ntg_op list \<Rightarrow> byte list list" where
  "sent_for u ops = concat (map (\<lambda>op. case op of
     ntg_send_external_frame v dev bs \<Rightarrow> if v = u then [bs] else [] | _ \<Rightarrow> []) ops)"

section \<open>Specification: two bounded queues of samples\<close>

definition offer :: "nat \<Rightarrow> sample list \<Rightarrow> sample list \<Rightarrow> sample list" where
  "offer cap d q = q @ take (cap - 1 - length q) d"

definition next_frame :: "sample list \<Rightarrow> sample list" where
  "next_frame q = take 480 q @ replicate (480 - length q) 0"

fun spec_do :: "nat \<Rightarrow> nat \<Rightarrow> audio_step \<Rightarrow> sample list \<times> sample list \<Rightarrow> sample list \<times> sample list" where
  "spec_do cm cp (sip_put a d) (mic, play) = (offer cm d mic, play)"
| "spec_do cm cp (feeder_round a) (mic, play) = (drop 480 mic, play)"
| "spec_do cm cp (tg_frames u fs) (mic, play) = (mic, fold (offer cp) fs play)"
| "spec_do cm cp (sip_get a f) (mic, play) = (mic, drop 480 play)"

fun spec_sent :: "nat \<Rightarrow> nat \<Rightarrow> audio_step list \<Rightarrow> sample list \<times> sample list \<Rightarrow> sample list list" where
  "spec_sent cm cp [] q = []"
| "spec_sent cm cp (s # ss) q =
     (case s of feeder_round a \<Rightarrow> [next_frame (fst q)] | _ \<Rightarrow> []) @ spec_sent cm cp ss (spec_do cm cp s q)"

fun spec_got :: "nat \<Rightarrow> nat \<Rightarrow> audio_step list \<Rightarrow> sample list \<times> sample list \<Rightarrow> sample list list" where
  "spec_got cm cp [] q = []"
| "spec_got cm cp (s # ss) q =
     (case s of sip_get a f \<Rightarrow> [next_frame (snd q)] | _ \<Rightarrow> []) @ spec_got cm cp ss (spec_do cm cp s q)"

section \<open>One step\<close>

definition talking :: "rt_world \<Rightarrow> nat \<Rightarrow> controller \<Rightarrow> bool" where
  "talking w a c \<longleftrightarrow> nw_heap w a = Some c \<and> ct_mic_feeder_running c \<and> in_active (ct_audio_input c)
     \<and> out_active (ct_audio_output c) \<and> nw_sinks w (ct_user_id c) = Some a"

text \<open>A step that can happen: it is one of a running call, or frames for any user.\<close>

fun ready :: "rt_world \<Rightarrow> audio_step \<Rightarrow> bool" where
  "ready w (sip_put a d) \<longleftrightarrow> small_frame d \<and> (\<exists>c. talking w a c)"
| "ready w (feeder_round a) \<longleftrightarrow> (\<exists>c. talking w a c)"
| "ready w (tg_frames u fs) \<longleftrightarrow> list_all small_frame fs \<and> (\<forall>a. nw_sinks w u = Some a \<longrightarrow> (\<exists>c. talking w a c))"
| "ready w (sip_get a f) \<longleftrightarrow> (\<exists>c. talking w a c)"

fun concerns :: "nat \<Rightarrow> int \<Rightarrow> audio_step \<Rightarrow> bool" where
  "concerns a u (sip_put b d) \<longleftrightarrow> b = a"
| "concerns a u (feeder_round b) \<longleftrightarrow> b = a"
| "concerns a u (tg_frames v fs) \<longleftrightarrow> v = u"
| "concerns a u (sip_get b f) \<longleftrightarrow> b = a"

fun target :: "rt_world \<Rightarrow> audio_step \<Rightarrow> nat option" where
  "target w (sip_put a d) = Some a"
| "target w (feeder_round a) = Some a"
| "target w (tg_frames u fs) = nw_sinks w u"
| "target w (sip_get a f) = Some a"

text \<open>The effect of a step on the controller it reaches, its requests and its frames.\<close>

fun ctl_do :: "audio_step \<Rightarrow> controller \<Rightarrow> controller" where
  "ctl_do (sip_put a d) c = c\<lparr>ct_audio_input := input_PutFrameCallback (audio_frame d) (ct_audio_input c)\<rparr>"
| "ctl_do (feeder_round a) c = c\<lparr>ct_audio_input := (ct_audio_input c)\<lparr>mic_buffer :=
      snd (pop FRAME_SAMPLES (mic_buffer (ct_audio_input c)))\<rparr>\<rparr>"
| "ctl_do (tg_frames u fs) c = OnFrames (NTG_STREAM_PLAYBACK, NTG_STREAM_MICROPHONE, map pcm_frame fs) c"
| "ctl_do (sip_get a f) c = c\<lparr>ct_audio_output := snd (output_GetFrameCallback f (ct_audio_output c))\<rparr>"

fun ctl_sends :: "audio_step \<Rightarrow> controller \<Rightarrow> ntg_op list" where
  "ctl_sends (feeder_round a) c = [ntg_send_external_frame (ct_user_id c) NTG_STREAM_MICROPHONE
     (bytes_of_samples (fst (pop FRAME_SAMPLES (mic_buffer (ct_audio_input c)))))]"
| "ctl_sends _ c = []"

fun ctl_gets :: "audio_step \<Rightarrow> controller \<Rightarrow> (nat \<times> sample list) list" where
  "ctl_gets (sip_get a f) c = [(a, frame_samples (fst (output_GetFrameCallback f (ct_audio_output c))))]"
| "ctl_gets _ c = []"

lemma audio_do_target:
  assumes "target w s = Some b" and "talking w b d"
  shows "audio_do env s w =
    (Inr (ctl_gets s d), w\<lparr>nw_heap := (nw_heap w)(b \<mapsto> ctl_do s d), nw_ops := nw_ops w @ ctl_sends s d\<rparr>)"
proof (cases s)
  case (feeder_round a)
  then show ?thesis
    using assms MicFeederLoop_round_eq [of w a d env] by (simp add: talking_def thenM_def bindM_def returnM_def)
next
  case (sip_get a f)
  then show ?thesis
    using assms by (simp add: talking_def get_frame_def bindM_deref thenM_assign bindM_def returnM_def deref_eq
        thenM_def assign_eq split: prod.split)
next
  case (tg_frames u fs)
  then show ?thesis
    using assms FramesTrampoline_eq [of w b d u] by (simp add: talking_def thenM_def bindM_def returnM_def)
qed (use assms in \<open>simp add: talking_def put_frame_def thenM_def bindM_def assign_eq returnM_def\<close>)

lemma audio_do_none:
  "target w s = None \<Longrightarrow> audio_do env s w = (Inr [], w)"
  by (cases s) (simp_all add: FramesTrampoline_def prog_simps)

lemma fold_on_frame_flags:
  "ct_mic_feeder_running (fold on_frame fs c) = ct_mic_feeder_running c"
  "ct_user_id (fold on_frame fs c) = ct_user_id c" "ct_audio_input (fold on_frame fs c) = ct_audio_input c"
  "out_active (ct_audio_output (fold on_frame fs c)) = out_active (ct_audio_output c)"
proof -
  have active: "out_active (ct_audio_output (on_frame f c)) = out_active (ct_audio_output c)" for f c
    by (simp add: on_frame_def Let_def)
  show "ct_mic_feeder_running (fold on_frame fs c) = ct_mic_feeder_running c"
      "ct_user_id (fold on_frame fs c) = ct_user_id c" "ct_audio_input (fold on_frame fs c) = ct_audio_input c"
      "out_active (ct_audio_output (fold on_frame fs c)) = out_active (ct_audio_output c)"
    by (induction fs arbitrary: c) (simp_all add: active)
qed

lemma ctl_do_flags:
  "ct_mic_feeder_running (ctl_do s c) = ct_mic_feeder_running c" "ct_user_id (ctl_do s c) = ct_user_id c"
  "in_active (ct_audio_input (ctl_do s c)) = in_active (ct_audio_input c)"
  "out_active (ct_audio_output (ctl_do s c)) = out_active (ct_audio_output c)"
  by (cases s; simp add: input_PutFrameCallback_def output_GetFrameCallback_def OnFrames_def fold_on_frame_flags
      split: prod.split)+

text \<open>The buffers of the controller behave as the queues of the specification.\<close>

definition caps :: "controller \<Rightarrow> nat \<times> nat" where
  "caps c = (unat (rb_capacity (mic_buffer (ct_audio_input c))), unat (rb_capacity (playout_buffer (ct_audio_output c))))"

definition queues :: "controller \<Rightarrow> sample list \<times> sample list" where
  "queues c = (contents (mic_buffer (ct_audio_input c)), contents (playout_buffer (ct_audio_output c)))"

lemma rb_put_offer:
  assumes "rb_inv rb" and "small_frame d"
  shows "contents (rb_put d rb) = offer (unat (rb_capacity rb)) d (contents rb)"
proof -
  have "unat (of_nat (length d) :: size_t) = length d"
    using assms(2) by (intro unat_of_nat_size) (simp add: small_frame_def)
  then show ?thesis using contents_push [OF assms(1), of "of_nat (length d)" d] by (simp add: rb_put_def offer_def)
qed

lemma push_capacity [simp]: "rb_capacity (push d n rb) = rb_capacity rb"
  by (simp add: push_def Let_def)

lemma pop_capacity [simp]: "rb_capacity (snd (pop n rb)) = rb_capacity rb"
  by (simp add: pop_def Let_def)

lemma fold_put_offer:
  assumes "rb_inv rb" and "list_all small_frame fs"
  shows "contents (fold rb_put fs rb) = fold (offer (unat (rb_capacity rb))) fs (contents rb)
    \<and> rb_capacity (fold rb_put fs rb) = rb_capacity rb"
  using assms
proof (induction fs arbitrary: rb)
  case (Cons f fs)
  have "rb_inv (rb_put f rb)" "rb_capacity (rb_put f rb) = rb_capacity rb"
    using Cons.prems by (simp_all add: rb_put_def rb_inv_push)
  then show ?case using Cons by (simp add: rb_put_offer)
qed simp

lemma ctl_do_queues:
  assumes "ctl_inv c" and "in_active (ct_audio_input c)" and "out_active (ct_audio_output c)" and "ready w s"
  shows "queues (ctl_do s c) = spec_do (fst (caps c)) (snd (caps c)) s (queues c)" and "caps (ctl_do s c) = caps c"
proof -
  have rb: "rb_inv (mic_buffer (ct_audio_input c))" "rb_inv (playout_buffer (ct_audio_output c))"
    using assms(1) by (simp_all add: ctl_inv_def)
  have "queues (ctl_do s c) = spec_do (fst (caps c)) (snd (caps c)) s (queues c) \<and> caps (ctl_do s c) = caps c"
  proof (cases s)
    case (sip_put a d)
    then have small: "small_frame d" using assms(4) by simp
    have "input_PutFrameCallback (audio_frame d) (ct_audio_input c) =
        (ct_audio_input c)\<lparr>mic_buffer := rb_put d (mic_buffer (ct_audio_input c))\<rparr>"
      using assms(2) small by (intro input_PutFrame_audio) (simp_all add: small_frame_def)
    then show ?thesis
      using sip_put rb_put_offer [OF rb(1) small] by (simp add: queues_def caps_def rb_put_def)
  next
    case (tg_frames u fs)
    then have small: "list_all small_frame fs" using assms(4) by simp
    show ?thesis
      using tg_frames fold_put_offer [OF rb(2) small]
      by (simp add: queues_def caps_def OnFrames_def fold_on_frame_flags fold_on_frame_pcm [OF small])
  next
    case (sip_get a f)
    have "snd (output_GetFrameCallback f (ct_audio_output c)) =
        (ct_audio_output c)\<lparr>playout_buffer := snd (pop SAMPLES_PER_FRAME (playout_buffer (ct_audio_output c)))\<rparr>"
      using assms(3) by (simp add: output_GetFrameCallback_def split: prod.split)
    then show ?thesis
      using sip_get contents_pop [OF rb(2), of SAMPLES_PER_FRAME] by (simp add: queues_def caps_def)
  next
    case (feeder_round a)
    then show ?thesis using contents_pop [OF rb(1), of FRAME_SAMPLES] by (simp add: queues_def caps_def)
  qed
  then show "queues (ctl_do s c) = spec_do (fst (caps c)) (snd (caps c)) s (queues c)" "caps (ctl_do s c) = caps c"
    by simp_all
qed

lemma ctl_outputs:
  assumes "ctl_inv c" and "out_active (ct_audio_output c)"
  shows "map samples_of_bytes (sent_for (ct_user_id c) (ctl_sends s c)) =
      (case s of feeder_round a \<Rightarrow> [next_frame (fst (queues c))] | _ \<Rightarrow> [])"
    and "map snd (ctl_gets s c) = (case s of sip_get a f \<Rightarrow> [next_frame (snd (queues c))] | _ \<Rightarrow> [])"
proof -
  have rb: "rb_inv (mic_buffer (ct_audio_input c))" "rb_inv (playout_buffer (ct_audio_output c))"
    using assms(1) by (simp_all add: ctl_inv_def)
  show "map samples_of_bytes (sent_for (ct_user_id c) (ctl_sends s c)) =
      (case s of feeder_round a \<Rightarrow> [next_frame (fst (queues c))] | _ \<Rightarrow> [])"
    by (cases s) (simp_all add: sent_for_def samples_bytes_roundtrip pop_result [OF rb(1)] queues_def next_frame_def)
  have half: "unat (SAMPLES_PER_FRAME * 2) div 2 = 480" by (simp add: SAMPLES_PER_FRAME_def)
  have len: "length (next_frame q) = 480" for q by (simp add: next_frame_def)
  have "frame_samples (fst (output_GetFrameCallback f (ct_audio_output c))) = next_frame (snd (queues c))" for f
    using assms(2) pop_result [OF rb(2), of SAMPLES_PER_FRAME] len [of "snd (queues c)"] half
    by (auto simp: output_GetFrameCallback_def frame_samples_def queues_def next_frame_def split: prod.split)
  then show "map snd (ctl_gets s c) = (case s of sip_get a f \<Rightarrow> [next_frame (snd (queues c))] | _ \<Rightarrow> [])"
    by (cases s) simp_all
qed

section \<open>All interleavings\<close>

lemma keeps_audio_do: "keeps rt_inv (audio_do env s)"
  by (cases s) (simp_all, (intro inv_intros)+)

lemma talking_step:
  assumes "talking w b d" and "talking w a c"
  shows "talking (w\<lparr>nw_heap := (nw_heap w)(b \<mapsto> ctl_do s d), nw_ops := h\<rparr>) a (if a = b then ctl_do s d else c)"
  using assms by (auto simp: talking_def ctl_do_flags)

lemma ready_step:
  assumes "talking w b d" and "ready w s'"
  shows "ready (w\<lparr>nw_heap := (nw_heap w)(b \<mapsto> ctl_do s d), nw_ops := h\<rparr>) s'"
proof -
  have "\<exists>c. talking (w\<lparr>nw_heap := (nw_heap w)(b \<mapsto> ctl_do s d), nw_ops := h\<rparr>) a c" if "\<exists>c. talking w a c" for a
    using that talking_step [OF assms(1)] by blast
  then show ?thesis using assms(2) by (cases s') simp_all
qed

lemma concerns_target:
  assumes "rt_inv w" and "talking w a c" and "ready w s"
  shows "concerns a (ct_user_id c) s \<longleftrightarrow> target w s = Some a"
  using assms sink_user [OF assms(1)] by (cases s) (auto simp: talking_def)

lemma other_sends: "ct_user_id d \<noteq> u \<Longrightarrow> sent_for u (ctl_sends s d) = []"
  by (cases s) (simp_all add: sent_for_def)

lemma sent_for_append: "sent_for u (h @ h') = sent_for u h @ sent_for u h'"
  by (simp add: sent_for_def)

lemma gets_target: "x \<in> set (ctl_gets s d) \<Longrightarrow> target w s = Some (fst x)"
  by (cases s) auto

lemma ready_target: "ready w s \<Longrightarrow> target w s = Some b \<Longrightarrow> \<exists>d. talking w b d"
  by (cases s) auto

lemma audio_run_spec:
  assumes "rt_inv w" and "list_all (ready w) steps" and "talking w a c"
  shows "\<exists>out w' new. audio_run env steps w = (Inr out, w') \<and> nw_ops w' = nw_ops w @ new
    \<and> map samples_of_bytes (sent_for (ct_user_id c) new) =
        spec_sent (fst (caps c)) (snd (caps c)) (filter (concerns a (ct_user_id c)) steps) (queues c)
    \<and> map snd (filter (\<lambda>x. fst x = a) out) =
        spec_got (fst (caps c)) (snd (caps c)) (filter (concerns a (ct_user_id c)) steps) (queues c)"
  using assms
proof (induction steps arbitrary: w c)
  case Nil
  then show ?case by (simp add: returnM_def sent_for_def)
next
  case (Cons s steps)
  note inv = Cons.prems(1) and talk = Cons.prems(3)
  have ready: "ready w s" "list_all (ready w) steps" using Cons.prems(2) by simp_all
  note conc = concerns_target [OF inv talk ready(1)]
  show ?case
  proof (cases "target w s")
    case None
    then show ?thesis
      using Cons.IH [OF inv ready(2) talk] conc by (auto simp: bindM_def audio_do_none returnM_def)
  next
    case (Some b)
    obtain d where d: "talking w b d" using ready_target [OF ready(1) Some] by blast
    let ?w = "w\<lparr>nw_heap := (nw_heap w)(b \<mapsto> ctl_do s d), nw_ops := nw_ops w @ ctl_sends s d\<rparr>"
    let ?c = "if a = b then ctl_do s d else c"
    note step = audio_do_target [where env = env, OF Some d]
    have "rt_inv ?w" using keepsD [OF keeps_audio_do inv step] .
    moreover have "list_all (ready ?w) steps"
      using ready(2) ready_step [OF d] by (auto simp: list_all_iff)
    moreover have "talking ?w a ?c" by (rule talking_step [OF d talk])
    ultimately obtain out w' new where rest: "audio_run env steps ?w = (Inr out, w')" "nw_ops w' = nw_ops ?w @ new"
        "map samples_of_bytes (sent_for (ct_user_id ?c) new) =
          spec_sent (fst (caps ?c)) (snd (caps ?c)) (filter (concerns a (ct_user_id ?c)) steps) (queues ?c)"
        "map snd (filter (\<lambda>x. fst x = a) out) =
          spec_got (fst (caps ?c)) (snd (caps ?c)) (filter (concerns a (ct_user_id ?c)) steps) (queues ?c)"
      using Cons.IH [of ?w ?c] by blast
    have run: "audio_run env (s # steps) w = (Inr (ctl_gets s d @ out), w')"
      using step rest(1) by (simp add: bindM_def returnM_def)
    have ops: "nw_ops w' = nw_ops w @ (ctl_sends s d @ new)" using rest(2) by simp
    have mine: "\<forall>x \<in> set (ctl_gets s d). fst x = b" using gets_target [of _ s d w] Some by auto
    show ?thesis
    proof (cases "a = b")
      case True
      have dc: "d = c" using d talk True by (simp add: talking_def)
      have ctl: "ctl_inv c" "in_active (ct_audio_input c)" "out_active (ct_audio_output c)"
        using talk rt_inv_ctl [OF inv] by (auto simp: talking_def)
      note q = ctl_do_queues [OF ctl ready(1)] and o = ctl_outputs [where s = s, OF ctl(1,3)]
      have gets: "filter (\<lambda>x. fst x = a) (ctl_gets s c) = ctl_gets s c"
        using mine True by (simp add: dc filter_id_conv)
      show ?thesis
        using run ops rest(3,4) True conc Some o q ctl_do_flags(2) [of s c] gets
        by (intro exI [of _ "ctl_gets s d @ out"] exI [of _ w'] exI [of _ "ctl_sends s d @ new"])
          (simp add: dc sent_for_append)
    next
      case False
      have "ct_user_id d \<noteq> ct_user_id c" using d talk False by (auto simp: talking_def)
      moreover have "filter (\<lambda>x. fst x = a) (ctl_gets s d) = []"
        using mine False by (auto simp: filter_empty_conv)
      ultimately show ?thesis
        using run ops rest(3,4) False conc Some
        by (intro exI [of _ "ctl_gets s d @ out"] exI [of _ w'] exI [of _ "ctl_sends s d @ new"])
          (simp add: sent_for_append other_sends)
    qed
  qed
qed

text \<open>
  C7. The audio of calls from end to end. Whatever the media threads of pjsip, the feeder threads and the
  calling library do on any number of running calls, in any order, nothing fails, and each call is
  two queues of samples of its own, bounded by the capacity of its ring buffers: the samples that were sent to
  Telegram for its user are the frames of 480 that SIP put in, in order, what did not fit left out and silence
  added where samples are missing; the samples that SIP gets are those that Telegram delivered for the
  user, likewise; and no sample of one call ever reaches another.
\<close>

theorem audio_end_to_end:
  assumes "rt_inv w" and "list_all (ready w) steps" and "talking w a c"
  shows "\<exists>out w'. audio_run env steps w = (Inr out, w')
    \<and> map samples_of_bytes (sent_for (ct_user_id c) (drop (length (nw_ops w)) (nw_ops w'))) =
        spec_sent (fst (caps c)) (snd (caps c)) (filter (concerns a (ct_user_id c)) steps) (queues c)
    \<and> map snd (filter (\<lambda>x. fst x = a) out) =
        spec_got (fst (caps c)) (snd (caps c)) (filter (concerns a (ct_user_id c)) steps) (queues c)"
proof -
  obtain out w' new where "audio_run env steps w = (Inr out, w')" "nw_ops w' = nw_ops w @ new"
      "map samples_of_bytes (sent_for (ct_user_id c) new) =
        spec_sent (fst (caps c)) (snd (caps c)) (filter (concerns a (ct_user_id c)) steps) (queues c)"
      "map snd (filter (\<lambda>x. fst x = a) out) =
        spec_got (fst (caps c)) (snd (caps c)) (filter (concerns a (ct_user_id c)) steps) (queues c)"
    using audio_run_spec [OF assms, of env] by blast
  then show ?thesis by (intro exI [of _ out] exI [of _ w']) simp
qed

definition running_controller :: "int \<Rightarrow> controller" where
  "running_controller u = (TgCallsController u [] True [] False None)
     \<lparr>ct_created := True, ct_registered := True, ct_mic_feeder_running := True,
      ct_audio_input := input_Start (new_SoftwareAudioInput (new_ring_buffer RING_BUFFER_CAPACITY)),
      ct_audio_output := output_Start (new_SoftwareAudioOutput (new_ring_buffer RING_BUFFER_CAPACITY))\<rparr>"

definition two_talking :: rt_world where
  "two_talking = \<lparr>nw_sinks = [42 \<mapsto> 0, 43 \<mapsto> 1], nw_heap = [0 \<mapsto> running_controller 42, 1 \<mapsto> running_controller 43],
     nw_next = 2, nw_ops = []\<rparr>"

lemma running_controller_facts:
  "ct_user_id (running_controller u) = u" "ct_registered (running_controller u)" "ctl_inv (running_controller u)"
  "queues (running_controller u) = ([], [])" "caps (running_controller u) = (48000, 48000)"
  "ct_mic_feeder_running (running_controller u)" "in_active (ct_audio_input (running_controller u))"
  "out_active (ct_audio_output (running_controller u))"
  by (simp_all add: running_controller_def TgCallsController_def ctl_inv_def port_defs new_SoftwareAudioInput_def
      new_SoftwareAudioOutput_def queues_def caps_def contents_new rb_inv_new cap_ok_def RING_BUFFER_CAPACITY_def)
    (simp_all add: new_ring_buffer_def)

theorem audio_end_to_end_witness:
  "\<exists>out w'. audio_run obliging [sip_put 0 [1, 2], tg_frames 43 [[7]], tg_frames 42 [[3], [4]], feeder_round 1, feeder_round 0,
      sip_get 1 (audio_frame []), feeder_round 0, sip_get 0 (audio_frame []), tg_frames 99 [[8]]] two_talking = (Inr out, w')
    \<and> map samples_of_bytes (sent_for 42 (nw_ops w')) = [[1, 2] @ replicate 478 0, replicate 480 0]
    \<and> map snd (filter (\<lambda>x. fst x = 0) out) = [[3, 4] @ replicate 478 0]"
proof -
  let ?steps = "[sip_put 0 [1, 2], tg_frames 43 [[7]], tg_frames 42 [[3], [4]], feeder_round 1, feeder_round 0,
      sip_get 1 (audio_frame []), feeder_round 0, sip_get 0 (audio_frame []), tg_frames 99 [[8]]]"
  have talk: "talking two_talking 0 (running_controller 42)" "talking two_talking 1 (running_controller 43)"
    by (simp_all add: talking_def two_talking_def running_controller_facts)
  have "rt_inv two_talking"
    by (simp add: rt_inv_def two_talking_def running_controller_facts)
  moreover have "list_all (ready two_talking) ?steps"
    using talk by (auto simp: small_frame_def SIZE_MAX_def two_talking_def)
  ultimately show ?thesis
    using audio_end_to_end [OF _ _ talk(1), of ?steps obliging]
    by (simp add: running_controller_facts offer_def next_frame_def two_talking_def)
qed

end
