(* ===== verification/Sml_Engine.thy ===== *)
theory Sml_Engine
  imports Prelude
begin

text \<open>
  The part of the state machine library \<^verbatim>\<open>include/boost/sml.hpp\<close> that the gateway's tables use:
  a table of transitions whose first enabled row fires, guards and actions with their operators,
  sub-machines that see an event before their parent, and entry actions. A machine's states have
  two levels: the states of the main table, and for a state that stands for a sub-machine, that
  sub-machine's own current state. An exception that leaves an action leaves
  \<^verbatim>\<open>process_event\<close>, which the library declares \<^verbatim>\<open>noexcept\<close>: a thrown outcome ends the
  process.
\<close>

section \<open>Tables\<close>

record ('s, 'e, 'w) transition =
  t_src :: 's
  t_event :: "'e \<Rightarrow> bool"
  t_guard :: "'e \<Rightarrow> bool"
  t_action :: "'e \<Rightarrow> ('w, unit) prog"
  t_dst :: 's

type_synonym ('s, 'e, 'w) table = "('s, 'e, 'w) transition list"

definition sml_and :: "('e \<Rightarrow> bool) \<Rightarrow> ('e \<Rightarrow> bool) \<Rightarrow> 'e \<Rightarrow> bool" where
  "sml_and g h e = (if g e then h e else False)"

definition sml_or :: "('e \<Rightarrow> bool) \<Rightarrow> ('e \<Rightarrow> bool) \<Rightarrow> 'e \<Rightarrow> bool" where
  "sml_or g h e = (if g e then True else h e)"

definition sml_not :: "('e \<Rightarrow> bool) \<Rightarrow> 'e \<Rightarrow> bool" where
  "sml_not g e = (\<not> g e)"

definition sml_always :: "'e \<Rightarrow> bool" where
  "sml_always e = True"

definition sml_none :: "'e \<Rightarrow> ('w, unit) prog" where
  "sml_none e = returnM ()"

definition sml_seq :: "('e \<Rightarrow> ('w, unit) prog) \<Rightarrow> ('e \<Rightarrow> ('w, unit) prog) \<Rightarrow> 'e \<Rightarrow> ('w, unit) prog" where
  "sml_seq a b e = thenM (a e) (b e)"

text \<open>The row that fires: the first, in table order, for the current state and event whose guard holds.\<close>

definition enabled :: "'s \<Rightarrow> 'e \<Rightarrow> ('s, 'e, 'w) transition \<Rightarrow> bool" where
  "enabled s e t \<longleftrightarrow> t_src t = s \<and> t_event t e \<and> t_guard t e"

definition select :: "('s, 'e, 'w) table \<Rightarrow> 's \<Rightarrow> 'e \<Rightarrow> ('s, 'e, 'w) transition option" where
  "select table s e = List.find (enabled s e) table"

section \<open>Machines\<close>

record ('m, 'a) sm =
  sm_state :: 'm
  sm_subs :: "'m \<Rightarrow> 'a"

text \<open>
  A machine: its main table and initial state, the sub-machine that a main state stands for (table
  and initial state), and the entry actions.
\<close>

record ('m, 'a, 'e, 'w) machine =
  mc_table :: "('m, 'e, 'w) table"
  mc_init :: 'm
  mc_sub :: "'m \<Rightarrow> (('a, 'e, 'w) table \<times> 'a) option"
  mc_entry :: "'m \<Rightarrow> ('w, unit) prog"
  mc_default :: 'a

definition new_sm :: "('m, 'a, 'e, 'w) machine \<Rightarrow> ('m, 'a) sm" where
  "new_sm M = \<lparr>sm_state = mc_init M,
     sm_subs = (\<lambda>m. case mc_sub M m of None \<Rightarrow> mc_default M | Some (_, i) \<Rightarrow> i)\<rparr>"

text \<open>A sub-machine handles the event or not; without entry actions a row is guard, state, action.\<close>

definition sub_process ::
  "('a, 'e, 'w) table \<Rightarrow> 'a \<Rightarrow> 'e \<Rightarrow> ('w, 'a option) prog" where
  "sub_process table s e =
     (case select table s e of
        None \<Rightarrow> returnM None
      | Some t \<Rightarrow> thenM (t_action t e) (returnM (Some (t_dst t))))"

text \<open>Entering a state that stands for a sub-machine puts that sub-machine into its initial state.\<close>

definition enter :: "('m, 'a, 'e, 'w) machine \<Rightarrow> 'm \<Rightarrow> ('m, 'a) sm \<Rightarrow> ('m, 'a) sm" where
  "enter M m s =
     (case mc_sub M m of
        None \<Rightarrow> s\<lparr>sm_state := m\<rparr>
      | Some (_, i) \<Rightarrow> s\<lparr>sm_state := m, sm_subs := (sm_subs s)(m := i)\<rparr>)"

text \<open>
  A row of the main table: the state changes, the action runs, then the entry action of the new
  state.
\<close>

definition main_process ::
  "('m, 'a, 'e, 'w) machine \<Rightarrow> ('m, 'a) sm \<Rightarrow> 'e \<Rightarrow> ('w, ('m, 'a) sm) prog" where
  "main_process M s e =
     (case select (mc_table M) (sm_state s) e of
        None \<Rightarrow> returnM s
      | Some t \<Rightarrow>
          thenM (t_action t e) (thenM (mc_entry M (t_dst t)) (returnM (enter M (t_dst t) s))))"

definition sm_process_event ::
  "('m, 'a, 'e, 'w) machine \<Rightarrow> ('m, 'a) sm \<Rightarrow> 'e \<Rightarrow> ('w, ('m, 'a) sm) prog" where
  "sm_process_event M s e =
     (case mc_sub M (sm_state s) of
        None \<Rightarrow> main_process M s e
      | Some (table, _) \<Rightarrow>
          bindM (sub_process table (sm_subs s (sm_state s)) e) (\<lambda>handled.
            case handled of
              Some a \<Rightarrow> returnM (s\<lparr>sm_subs := (sm_subs s)(sm_state s := a)\<rparr>)
            | None \<Rightarrow> main_process M s e))"

definition sm_is :: "('m, 'a) sm \<Rightarrow> 'm \<Rightarrow> bool" where
  "sm_is s m \<longleftrightarrow> sm_state s = m"

section \<open>Facts\<close>

lemma select_Some:
  "select table s e = Some t \<Longrightarrow> t \<in> set table \<and> enabled s e t"
  unfolding select_def by (auto simp: find_Some_iff)

lemma select_None: "select table s e = None \<longleftrightarrow> (\<forall>t \<in> set table. \<not> enabled s e t)"
  by (auto simp: select_def find_None_iff)

lemma select_Cons [simp]: "select (t # ts) s e = (if enabled s e t then Some t else select ts s e)"
  by (simp add: select_def)

lemma select_Nil [simp]: "select [] s e = None"
  by (simp add: select_def)

text \<open>What a machine keeps when its actions do.\<close>

lemma keeps_sub_process:
  assumes "\<And>t e. t \<in> set table \<Longrightarrow> keeps P (t_action t e)"
  shows "keeps P (sub_process table s e)"
  using assms unfolding sub_process_def
  by (auto split: option.splits dest: select_Some intro!: inv_intros)

lemma keeps_main_process:
  assumes "\<And>t e. t \<in> set (mc_table M) \<Longrightarrow> keeps P (t_action t e)" and "\<And>m. keeps P (mc_entry M m)"
  shows "keeps P (main_process M s e)"
  using assms unfolding main_process_def
  by (auto split: option.splits dest: select_Some intro!: inv_intros)

lemma keeps_sm_process_event:
  assumes "\<And>t e. t \<in> set (mc_table M) \<Longrightarrow> keeps P (t_action t e)" and "\<And>m. keeps P (mc_entry M m)"
    and "\<And>m table i t e. mc_sub M m = Some (table, i) \<Longrightarrow> t \<in> set table \<Longrightarrow> keeps P (t_action t e)"
  shows "keeps P (sm_process_event M s e)"
  unfolding sm_process_event_def
  using keeps_main_process [of M P, OF assms(1,2)] assms(3)
  by (auto split: option.splits intro!: inv_intros keeps_sub_process)

end
