(* ===== verification/Td_Api.thy ===== *)
theory Td_Api
  imports Prelude
begin

text \<open>
  The objects of the Telegram library's API that the sources read or build, with the fields they
  use. The library itself is third-party code: a client of it sends functions and receives
  objects; what it answers is a parameter wherever an answer is needed.
\<close>

section \<open>Calls and messages\<close>

datatype server_type =
    callServerTypeTelegramReflector "byte list"
  | callServerTypeWebrtc string string bool bool

record call_server =
  cs_id :: int
  cs_ip_address :: string
  cs_ipv6_address :: string
  cs_port :: int
  cs_type :: server_type

datatype call_state =
    callStatePending
  | callStateExchangingKeys
  | callStateReady "call_server list" "byte list"
  | callStateHangingUp
  | callStateDiscarded string
  | callStateError int string

text \<open>The identifiers that \<^verbatim>\<open>get_id\<close> returns for the call states.\<close>

datatype call_state_id =
    callStatePending_ID
  | callStateExchangingKeys_ID
  | callStateReady_ID
  | callStateHangingUp_ID
  | callStateDiscarded_ID
  | callStateError_ID

fun call_state_get_id :: "call_state \<Rightarrow> call_state_id" where
  "call_state_get_id callStatePending = callStatePending_ID"
| "call_state_get_id callStateExchangingKeys = callStateExchangingKeys_ID"
| "call_state_get_id (callStateReady _ _) = callStateReady_ID"
| "call_state_get_id callStateHangingUp = callStateHangingUp_ID"
| "call_state_get_id (callStateDiscarded _) = callStateDiscarded_ID"
| "call_state_get_id (callStateError _ _) = callStateError_ID"

record td_call =
  tc_id :: int
  tc_user_id :: int
  tc_is_outgoing :: bool
  tc_state :: call_state

datatype message_sender = messageSenderUser int | messageSenderChat int

datatype message_content = messageText string | messageOther

record td_message =
  tm_sender_id :: message_sender
  tm_content :: message_content

section \<open>Users, chats, states\<close>

record td_user =
  tu_id :: int
  tu_first_name :: string
  tu_last_name :: string
  tu_usernames :: "string option"
  tu_phone_number :: string
  tu_have_access :: bool

datatype chat_type = chatTypePrivate int | chatTypeOther

datatype authorization_state =
    authorizationStateWaitTdlibParameters
  | authorizationStateWaitPhoneNumber
  | authorizationStateWaitPremiumPurchase
  | authorizationStateWaitEmailAddress
  | authorizationStateWaitEmailCode
  | authorizationStateWaitCode
  | authorizationStateWaitOtherDeviceConfirmation string
  | authorizationStateWaitRegistration
  | authorizationStateWaitPassword
  | authorizationStateReady
  | authorizationStateLoggingOut
  | authorizationStateClosing
  | authorizationStateClosed

datatype connection_state = connectionStateReady | connectionStateOther

datatype td_object =
    td_error int string
  | td_ok
  | td_users "int list"
  | td_user_object td_user
  | td_chat int chat_type
  | td_callId int
  | td_importedContacts "int list"
  | updateAuthorizationState authorization_state
  | updateConnectionState connection_state
  | updateCall td_call
  | updateNewMessage td_message
  | updateNewCallSignalingData int string
  | td_other

section \<open>Functions\<close>

record tdlib_parameters =
  tp_use_test_dc :: bool
  tp_api_id :: int
  tp_api_hash :: string
  tp_database_directory :: string
  tp_system_language_code :: string
  tp_device_model :: string
  tp_system_version :: string
  tp_application_version :: string
  tp_use_file_database :: bool
  tp_use_chat_info_database :: bool
  tp_use_message_database :: bool
  tp_use_secret_chats :: bool

record td_proxy =
  px_server :: string
  px_port :: int
  px_username :: string
  px_password :: string

record call_protocol =
  cp_udp_p2p :: bool
  cp_udp_reflector :: bool
  cp_min_layer :: int
  cp_max_layer :: int
  cp_library_versions :: "string list"

record imported_contact =
  ic_phone_number :: string
  ic_first_name :: string

datatype td_function =
    setTdlibParameters tdlib_parameters
  | addProxy td_proxy bool string
  | disableProxy
  | getUser int
  | acceptCall int call_protocol
  | discardCall int bool string int bool int
  | createCall int call_protocol bool
  | importContacts "imported_contact list"
  | searchPublicChat string
  | searchContacts string int
  | sendCallSignalingData int string
  | checkAuthenticationCode string
  | registerUser string string bool
  | checkAuthenticationPassword string
  | setAuthenticationPhoneNumber string

end
