(* ===== verification/Tg_Client.thy ===== *)
theory Tg_Client
  imports Td_Api Event_Queue Settings_Model
begin

text \<open>
  The Telegram client of \<^verbatim>\<open>tg2sip/tg.cpp\<close> and \<^verbatim>\<open>tg.h\<close>: queries with increasing
  identifiers, the handlers waiting for responses, the promises that asynchronous queries wait on,
  the queue of updates for the gateway and the promise that says whether sign-on succeeded. A
  unique pointer that may have been moved from is an option, a promise is the value it was given,
  if any.
\<close>

section \<open>State\<close>

datatype handler = AuthenticationHandler | PromiseHandler nat

record tg_client =
  tg_lib_parameters :: "td_function option"
  tg_set_proxy :: "td_function option"
  tg_is_ready :: "bool option"
  tg_is_closed :: bool
  tg_current_query_id :: "64 word"
  tg_handlers :: "64 word \<rightharpoonup> handler"
  tg_promises :: "td_object option list"
  tg_sent :: "(64 word \<times> td_function option) list"
  tg_events :: "td_object optional_queue"
  tg_log :: "string list"

definition tg_say :: "string \<Rightarrow> (tg_client, unit) prog" where
  "tg_say msg = modifyM (\<lambda>c. c\<lparr>tg_log := tg_log c @ [msg]\<rparr>)"

section \<open>Construction\<close>

definition init_lib_parameters :: "settings \<Rightarrow> td_function" where
  "init_lib_parameters s = setTdlibParameters
     \<lparr>tp_use_test_dc = False,
      tp_api_id = api_id s,
      tp_api_hash = api_hash s,
      tp_database_directory = db_folder s,
      tp_system_language_code = system_language_code s,
      tp_device_model = device_model s,
      tp_system_version = system_version s,
      tp_application_version = application_version s,
      tp_use_file_database = False,
      tp_use_chat_info_database = True,
      tp_use_message_database = False,
      tp_use_secret_chats = False\<rparr>"

definition init_proxy :: "settings \<Rightarrow> td_function" where
  "init_proxy s =
     (if proxy_enabled s
      then addProxy \<lparr>px_server = proxy_address s, px_port = proxy_port s,
                     px_username = proxy_username s, px_password = proxy_password s\<rparr> True []
      else disableProxy)"

definition new_tg_client :: "settings \<Rightarrow> tg_client" where
  "new_tg_client s =
     \<lparr>tg_lib_parameters = Some (init_lib_parameters s), tg_set_proxy = Some (init_proxy s),
      tg_is_ready = None, tg_is_closed = False, tg_current_query_id = 0, tg_handlers = Map.empty,
      tg_promises = [], tg_sent = [], tg_events = queue_empty, tg_log = []\<rparr>"

text \<open>The destructor: the loop sees the flag and ends, then the thread is joined.\<close>

definition destroy_tg_client :: "tg_client \<Rightarrow> tg_client" where
  "destroy_tg_client c = c\<lparr>tg_is_closed := True\<rparr>"

section \<open>Queries\<close>

definition next_query_id :: "(tg_client, 64 word) prog" where
  "next_query_id =
     thenM (modifyM (\<lambda>c. c\<lparr>tg_current_query_id := tg_current_query_id c + 1\<rparr>)) (getM tg_current_query_id)"

definition send_query :: "td_function option \<Rightarrow> handler option \<Rightarrow> (tg_client, unit) prog" where
  "send_query f handler =
     bindM next_query_id (\<lambda>query_id.
     thenM (case handler of
              Some h \<Rightarrow> modifyM (\<lambda>c. c\<lparr>tg_handlers := map_emplace query_id h (tg_handlers c)\<rparr>)
            | None \<Rightarrow> returnM ())
       (modifyM (\<lambda>c. c\<lparr>tg_sent := tg_sent c @ [(query_id, f)]\<rparr>)))"

text \<open>
  The result is the promise whose future is returned. A \<^verbatim>\<open>throw\<close> without an exception being
  handled ends the process.
\<close>

definition send_query_async :: "bool \<Rightarrow> td_function \<Rightarrow> (tg_client, nat) prog" where
  "send_query_async on_tg_thread f =
     (if on_tg_thread
      then thenM (tg_say ''Call of send_query_async from TG thread will cause deadlock'')
             (throwM NoActiveException)
      else
        bindM (getM (length \<circ> tg_promises)) (\<lambda>promise.
        thenM (modifyM (\<lambda>c. c\<lparr>tg_promises := tg_promises c @ [None]\<rparr>))
        (thenM (send_query (Some f) (Some (PromiseHandler promise)))
          (returnM promise))))"

section \<open>Responses\<close>

definition check_authentication_error :: "td_object \<Rightarrow> (tg_client, unit) prog" where
  "check_authentication_error obj =
     (case obj of
        td_error _ message \<Rightarrow> tg_say (''TG client authorization error '' @ message)
      | _ \<Rightarrow> returnM ())"

text \<open>Setting a promise that already has a value throws.\<close>

definition set_promise :: "nat \<Rightarrow> td_object \<Rightarrow> (tg_client, unit) prog" where
  "set_promise p obj =
     bindM (getM tg_promises) (\<lambda>ps.
       if p < length ps \<and> ps ! p = None
       then modifyM (\<lambda>c. c\<lparr>tg_promises := ps[p := Some obj]\<rparr>)
       else throwM FutureError)"

definition run_handler :: "handler \<Rightarrow> td_object \<Rightarrow> (tg_client, unit) prog" where
  "run_handler h obj =
     (case h of
        AuthenticationHandler \<Rightarrow> check_authentication_error obj
      | PromiseHandler p \<Rightarrow>
          tryM (set_promise p obj)
            (\<lambda>e. case e of FutureError \<Rightarrow> Some (tg_say ''failed to set send_query_async promise value'')
                 | _ \<Rightarrow> None))"

definition set_is_ready :: "bool \<Rightarrow> (tg_client, unit) prog" where
  "set_is_ready v =
     bindM (getM tg_is_ready) (\<lambda>r.
       if r = None then modifyM (\<lambda>c. c\<lparr>tg_is_ready := Some v\<rparr>) else throwM FutureError)"

definition on_authorization_state_update :: "authorization_state \<Rightarrow> (tg_client, unit) prog" where
  "on_authorization_state_update st =
     (case st of
        authorizationStateReady \<Rightarrow>
          thenM (set_is_ready True) (tg_say ''TG client authorization ready'')
      | authorizationStateWaitTdlibParameters \<Rightarrow>
          bindM (getM tg_lib_parameters) (\<lambda>params.
          thenM (modifyM (\<lambda>c. c\<lparr>tg_lib_parameters := None\<rparr>))
          (thenM (send_query params (Some AuthenticationHandler))
          (bindM (getM tg_set_proxy) (\<lambda>proxy.
          thenM (modifyM (\<lambda>c. c\<lparr>tg_set_proxy := None\<rparr>))
            (send_query proxy (Some AuthenticationHandler))))))
      | _ \<Rightarrow> thenM (set_is_ready False) (tg_say ''TG client auto sign-on failed''))"

definition process_update :: "td_object \<Rightarrow> (tg_client, unit) prog" where
  "process_update update =
     (case update of
        updateAuthorizationState st \<Rightarrow> on_authorization_state_update st
      | updateConnectionState st \<Rightarrow>
          whenM (st = connectionStateReady) (tg_say ''TG client connected'')
      | updateCall call \<Rightarrow> modifyM (\<lambda>c. c\<lparr>tg_events := emplace (Some update) (tg_events c)\<rparr>)
      | updateNewMessage m \<Rightarrow> modifyM (\<lambda>c. c\<lparr>tg_events := emplace (Some update) (tg_events c)\<rparr>)
      | updateNewCallSignalingData i d \<Rightarrow> modifyM (\<lambda>c. c\<lparr>tg_events := emplace (Some update) (tg_events c)\<rparr>)
      | _ \<Rightarrow> returnM ())"

definition process_response :: "64 word \<times> td_object option \<Rightarrow> (tg_client, unit) prog" where
  "process_response response =
     (case response of (rid, obj) \<Rightarrow>
        case obj of
          None \<Rightarrow> returnM ()
        | Some obj \<Rightarrow>
            if rid = 0 then process_update obj
            else bindM (getM tg_handlers) (\<lambda>hs.
              case hs rid of
                None \<Rightarrow> returnM ()
              | Some h \<Rightarrow>
                  thenM (run_handler h obj)
                    (modifyM (\<lambda>c. c\<lparr>tg_handlers := map_erase rid (tg_handlers c)\<rparr>))))"

text \<open>
  The loop of the client thread on the responses that arrive (an exception leaves the loop and, as
  the thread's function, ends the process).
\<close>

fun tg_loop :: "(64 word \<times> td_object option) list \<Rightarrow> (tg_client, unit) prog" where
  "tg_loop [] = returnM ()"
| "tg_loop (r # rs) =
     bindM (getM tg_is_closed) (\<lambda>closed.
       if closed then returnM () else thenM (process_response r) (tg_loop rs))"

section \<open>A query and its answer\<close>

text \<open>
  \<^verbatim>\<open>send_query_async(f).get()\<close>: the calling thread sends the query and waits until the client
  thread has handled the response. What the library answers depends on the queries before. A wait
  on a promise that is not set never returns.
\<close>

record td_env =
  td_answer :: "(64 word \<times> td_function option) list \<Rightarrow> td_function \<Rightarrow> td_object"

definition future_get :: "nat \<Rightarrow> (tg_client, td_object) prog" where
  "future_get p =
     bindM (getM tg_promises) (\<lambda>ps.
       if p < length ps then (case ps ! p of Some obj \<Rightarrow> returnM obj | None \<Rightarrow> throwM (Undefined ''waits forever''))
       else throwM (Undefined ''no such promise''))"

definition td_get :: "td_env \<Rightarrow> td_function \<Rightarrow> (tg_client, td_object) prog" where
  "td_get env f =
     bindM (getM tg_sent) (\<lambda>h.
     bindM (send_query_async False f) (\<lambda>promise.
     bindM (getM tg_current_query_id) (\<lambda>query_id.
     thenM (process_response (query_id, Some (td_answer env h f)))
       (future_get promise))))"

section \<open>Invariant\<close>

definition tg_inv :: "tg_client \<Rightarrow> bool" where
  "tg_inv c \<longleftrightarrow>
     (\<forall>q h. tg_handlers c q = Some h \<longrightarrow> 0 < unat q \<and> unat q \<le> unat (tg_current_query_id c))
     \<and> (\<forall>q p. tg_handlers c q = Some (PromiseHandler p) \<longrightarrow> p < length (tg_promises c) \<and> tg_promises c ! p = None)
     \<and> (\<forall>q q' p. tg_handlers c q = Some (PromiseHandler p) \<longrightarrow> tg_handlers c q' = Some (PromiseHandler p) \<longrightarrow> q = q')"

text \<open>The identifiers are 64 bits wide; they do not repeat before \<open>2 ^ 64\<close> queries.\<close>

definition ids_left :: "tg_client \<Rightarrow> bool" where
  "ids_left c \<longleftrightarrow> unat (tg_current_query_id c) < 18446744073709551615"

lemma unat_next_id:
  assumes "ids_left c"
  shows "unat (tg_current_query_id c + 1) = Suc (unat (tg_current_query_id c))"
  using assms by (subst unat_add_lem [THEN iffD1]) (auto simp: ids_left_def)

lemma next_id_fresh: "tg_inv c \<Longrightarrow> ids_left c \<Longrightarrow> tg_handlers c (tg_current_query_id c + 1) = None"
  using unat_next_id [of c] by (cases "tg_handlers c (tg_current_query_id c + 1)") (fastforce simp: tg_inv_def)+

lemma next_id_nonzero: "ids_left c \<Longrightarrow> tg_current_query_id c + 1 \<noteq> 0"
  using unat_next_id [of c] by (metis unat_0 nat.distinct(1))

lemma tg_inv_new: "tg_inv (new_tg_client s)"
  by (simp add: tg_inv_def new_tg_client_def)

lemma send_query_async_eq:
  assumes "tg_inv c" and "ids_left c"
  shows "send_query_async False f c =
    (Inr (length (tg_promises c)),
     c\<lparr>tg_promises := tg_promises c @ [None], tg_current_query_id := tg_current_query_id c + 1,
       tg_handlers := (tg_handlers c)(tg_current_query_id c + 1 \<mapsto> PromiseHandler (length (tg_promises c))),
       tg_sent := tg_sent c @ [(tg_current_query_id c + 1, Some f)]\<rparr>)"
  using next_id_fresh [OF assms]
  by (simp add: send_query_async_def send_query_def next_query_id_def map_emplace_def prog_simps)

lemma tg_inv_send_async:
  assumes "tg_inv c" and "ids_left c"
  shows "tg_inv (snd (send_query_async False f c))"
proof -
  have le: "unat q \<le> Suc (unat (tg_current_query_id c))" if "tg_handlers c q = Some h" for q h
    using assms(1) that by (fastforce simp: tg_inv_def)
  show ?thesis
    using assms unfolding send_query_async_eq [OF assms]
    by (auto simp: tg_inv_def unat_next_id nth_append less_SucI dest: le)
qed

text \<open>A response to a pending asynchronous query sets its promise and nothing else.\<close>

lemma process_response_promise:
  assumes "tg_inv c" and "tg_handlers c q = Some (PromiseHandler p)"
  shows "process_response (q, Some obj) c =
    (Inr (), c\<lparr>tg_promises := (tg_promises c)[p := Some obj], tg_handlers := map_erase q (tg_handlers c)\<rparr>)"
proof -
  have "0 < unat q" "p < length (tg_promises c)" "tg_promises c ! p = None"
    using assms by (auto simp: tg_inv_def)
  moreover have "q \<noteq> 0" using \<open>0 < unat q\<close> by auto
  ultimately show ?thesis
    using assms(2) by (simp add: process_response_def run_handler_def set_promise_def prog_simps)
qed

lemma tg_inv_response_promise:
  assumes "tg_inv c" and "tg_handlers c q = Some (PromiseHandler p)"
  shows "tg_inv (c\<lparr>tg_promises := (tg_promises c)[p := Some obj], tg_handlers := map_erase q (tg_handlers c)\<rparr>)"
  using assms by (auto simp: tg_inv_def map_erase_def nth_list_update)

lemma td_get_eq:
  assumes "tg_inv c" and "ids_left c"
  shows "td_get env f c = (Inr (td_answer env (tg_sent c) f),
    c\<lparr>tg_promises := tg_promises c @ [Some (td_answer env (tg_sent c) f)],
      tg_current_query_id := tg_current_query_id c + 1,
      tg_sent := tg_sent c @ [(tg_current_query_id c + 1, Some f)]\<rparr>)"
proof -
  let ?c = "snd (send_query_async False f c)"
  have inv: "tg_inv ?c" using assms by (rule tg_inv_send_async)
  have h: "tg_handlers ?c (tg_current_query_id c + 1) = Some (PromiseHandler (length (tg_promises c)))"
    by (simp add: send_query_async_eq [OF assms])
  have erase: "map_erase (tg_current_query_id c + 1)
      ((tg_handlers c)(tg_current_query_id c + 1 \<mapsto> PromiseHandler (length (tg_promises c)))) = tg_handlers c"
    using next_id_fresh [OF assms] by (auto simp: map_erase_def fun_eq_iff)
  have "td_get env f c = thenM (process_response (tg_current_query_id c + 1, Some (td_answer env (tg_sent c) f)))
      (future_get (length (tg_promises c))) ?c"
    unfolding td_get_def by (simp add: bindM_def getM_def send_query_async_eq [OF assms])
  also have "\<dots> = (Inr (td_answer env (tg_sent c) f),
    c\<lparr>tg_promises := tg_promises c @ [Some (td_answer env (tg_sent c) f)],
      tg_current_query_id := tg_current_query_id c + 1,
      tg_sent := tg_sent c @ [(tg_current_query_id c + 1, Some f)]\<rparr>)"
    using process_response_promise [OF inv h, of "td_answer env (tg_sent c) f"] erase
    by (simp add: thenM_def bindM_def future_get_def getM_def returnM_def send_query_async_eq [OF assms])
  finally show ?thesis .
qed


section \<open>The client as a system\<close>

text \<open>
  The gateway thread sends queries while the client thread handles responses, in any order; a
  response may carry any identifier and object. A sign-on update takes two identifiers.
\<close>

inductive tg_step :: "tg_client \<Rightarrow> tg_client \<Rightarrow> bool" where
  tg_send: "ids_left c \<Longrightarrow> tg_step c (snd (send_query_async False f c))"
| tg_response: "Suc (unat (tg_current_query_id c)) < 18446744073709551615 \<Longrightarrow>
    tg_step c (snd (process_response r c))"
| tg_take: "tg_step c (c\<lparr>tg_events := snd (queue_pop (tg_events c))\<rparr>)"

lemma send_auth_eq:
  assumes "tg_inv c" and "ids_left c"
  shows "send_query f (Some AuthenticationHandler) c = (Inr (),
     c\<lparr>tg_current_query_id := tg_current_query_id c + 1,
       tg_handlers := (tg_handlers c)(tg_current_query_id c + 1 \<mapsto> AuthenticationHandler),
       tg_sent := tg_sent c @ [(tg_current_query_id c + 1, f)]\<rparr>)"
  using next_id_fresh [OF assms] by (simp add: send_query_def next_query_id_def map_emplace_def prog_simps)

lemma tg_inv_send_auth:
  assumes "tg_inv c" and "ids_left c"
  shows "tg_inv (snd (send_query f (Some AuthenticationHandler) c))"
proof -
  have le: "unat q \<le> Suc (unat (tg_current_query_id c))" if "tg_handlers c q = Some h" for q h
    using assms(1) that by (fastforce simp: tg_inv_def)
  show ?thesis
    using assms unfolding send_auth_eq [OF assms] by (auto simp: tg_inv_def unat_next_id dest: le)
qed

lemma tg_inv_fields [simp]:
  "tg_inv (c\<lparr>tg_log := l\<rparr>) = tg_inv c" "tg_inv (c\<lparr>tg_is_ready := r\<rparr>) = tg_inv c"
  "tg_inv (c\<lparr>tg_events := e\<rparr>) = tg_inv c" "tg_inv (c\<lparr>tg_lib_parameters := p\<rparr>) = tg_inv c"
  "tg_inv (c\<lparr>tg_set_proxy := p\<rparr>) = tg_inv c"
  by (simp_all add: tg_inv_def)

lemma tg_inv_erase: "tg_inv c \<Longrightarrow> tg_inv (c\<lparr>tg_handlers := map_erase q (tg_handlers c)\<rparr>)"
  by (auto simp: tg_inv_def map_erase_def)

lemma tg_handshake_eq:
  assumes "tg_inv c" and "Suc (unat (tg_current_query_id c)) < 18446744073709551615"
  shows "\<exists>d. on_authorization_state_update authorizationStateWaitTdlibParameters c = (Inr (), d) \<and> tg_inv d
    \<and> tg_sent d = tg_sent c @ [(tg_current_query_id c + 1, tg_lib_parameters c), (tg_current_query_id c + 1 + 1, tg_set_proxy c)]
    \<and> tg_handlers d = (tg_handlers c)(tg_current_query_id c + 1 \<mapsto> AuthenticationHandler,
        tg_current_query_id c + 1 + 1 \<mapsto> AuthenticationHandler)
    \<and> tg_current_query_id d = tg_current_query_id c + 1 + 1
    \<and> tg_lib_parameters d = None \<and> tg_set_proxy d = None \<and> tg_is_ready d = tg_is_ready c
    \<and> tg_promises d = tg_promises c \<and> tg_events d = tg_events c \<and> tg_is_closed d = tg_is_closed c"
proof -
  have left: "ids_left c" using assms(2) by (simp add: ids_left_def)
  let ?c = "c\<lparr>tg_lib_parameters := None\<rparr>"
  obtain d where d: "send_query (tg_lib_parameters c) (Some AuthenticationHandler) ?c = (Inr (), d)" "tg_inv d"
    "d = ?c\<lparr>tg_current_query_id := tg_current_query_id c + 1,
       tg_handlers := (tg_handlers c)(tg_current_query_id c + 1 \<mapsto> AuthenticationHandler),
       tg_sent := tg_sent c @ [(tg_current_query_id c + 1, tg_lib_parameters c)]\<rparr>"
    using send_auth_eq [of ?c "tg_lib_parameters c"] tg_inv_send_auth [of ?c "tg_lib_parameters c"] assms(1) left
    by (simp add: ids_left_def)
  let ?e = "d\<lparr>tg_set_proxy := None\<rparr>"
  have e: "tg_inv ?e" "ids_left ?e"
    using d(2) unat_next_id [OF left] assms(2) by (simp_all add: ids_left_def d(3))
  obtain f where f: "send_query (tg_set_proxy c) (Some AuthenticationHandler) ?e = (Inr (), f)" "tg_inv f"
    "f = ?e\<lparr>tg_current_query_id := tg_current_query_id d + 1,
       tg_handlers := (tg_handlers d)(tg_current_query_id d + 1 \<mapsto> AuthenticationHandler),
       tg_sent := tg_sent d @ [(tg_current_query_id d + 1, tg_set_proxy c)]\<rparr>"
    using send_auth_eq [OF e, of "tg_set_proxy c"] tg_inv_send_auth [OF e, of "tg_set_proxy c"] by simp
  have "tg_set_proxy d = tg_set_proxy c" by (simp add: d(3))
  then have "on_authorization_state_update authorizationStateWaitTdlibParameters c = (Inr (), f)"
    using d(1) f(1) by (simp add: on_authorization_state_update_def thenM_def bindM_def getM_def modifyM_def)
  then show ?thesis
    using f(2) by (simp add: f(3) d(3))
qed

lemma set_is_ready_eq:
  "set_is_ready v c = (if tg_is_ready c = None then (Inr (), c\<lparr>tg_is_ready := Some v\<rparr>) else (Inl FutureError, c))"
  by (simp add: set_is_ready_def prog_simps)

lemma on_authorization_final:
  "st \<noteq> authorizationStateWaitTdlibParameters \<Longrightarrow> on_authorization_state_update st c =
     (if tg_is_ready c = None
      then (Inr (), c\<lparr>tg_is_ready := Some (st = authorizationStateReady),
        tg_log := tg_log c @ [if st = authorizationStateReady then ''TG client authorization ready''
          else ''TG client auto sign-on failed'']\<rparr>)
      else (Inl FutureError, c))"
  by (cases st) (simp_all add: on_authorization_state_update_def thenM_def bindM_def set_is_ready_eq tg_say_def modifyM_def)

lemma tg_inv_process_update:
  assumes "tg_inv c"
    and "u = updateAuthorizationState authorizationStateWaitTdlibParameters \<Longrightarrow> Suc (unat (tg_current_query_id c)) < 18446744073709551615"
  shows "tg_inv (snd (process_update u c))"
proof (cases "\<exists>st. u = updateAuthorizationState st")
  case True
  then obtain st where u: "u = updateAuthorizationState st" ..
  show ?thesis
    using tg_handshake_eq [OF assms(1)] assms on_authorization_final [of st c]
    by (cases "st = authorizationStateWaitTdlibParameters") (auto simp: process_update_def u)
next
  case False
  then show ?thesis
    using assms(1) by (cases u) (auto simp: process_update_def prog_simps tg_say_def)
qed

lemma tg_inv_process_response:
  assumes "tg_inv c"
    and "r = (0, Some (updateAuthorizationState authorizationStateWaitTdlibParameters)) \<Longrightarrow> Suc (unat (tg_current_query_id c)) < 18446744073709551615"
  shows "tg_inv (snd (process_response r c))"
proof (cases r)
  case (Pair q obj)
  show ?thesis
  proof (cases obj)
    case None
    then show ?thesis using assms(1) Pair by (simp add: process_response_def returnM_def)
  next
    case (Some ob)
    consider "q = 0" | "q \<noteq> 0" "tg_handlers c q = None" | "q \<noteq> 0" "tg_handlers c q = Some AuthenticationHandler"
      | p where "q \<noteq> 0" "tg_handlers c q = Some (PromiseHandler p)"
      by (metis handler.exhaust option.exhaust)
    then show ?thesis
    proof cases
      case 1
      then show ?thesis using Pair Some assms tg_inv_process_update [of c ob] by (simp add: process_response_def)
    next
      case 2
      then show ?thesis using Pair Some assms(1) by (simp add: process_response_def prog_simps)
    next
      case 3
      then show ?thesis
        using Pair Some tg_inv_erase [OF assms(1), of q]
        by (cases ob) (simp_all add: process_response_def run_handler_def check_authentication_error_def tg_say_def
            prog_simps tg_inv_def)
    next
      case 4
      then show ?thesis
        using Pair Some process_response_promise [OF assms(1) 4(2), of ob]
          tg_inv_response_promise [OF assms(1) 4(2), of ob] by simp
    qed
  qed
qed

interpretation tg: invariant_system "\<lambda>c. \<exists>s. c = new_tg_client s" tg_step tg_inv
  by unfold_locales
    (auto simp: tg_inv_new elim!: tg_step.cases intro: tg_inv_send_async tg_inv_process_response)


section \<open>Properties\<close>

text \<open>
  C20. Answers reach their queries. In every state that sending and responses can lead to, a response
  with the identifier of a pending asynchronous query gives that query's promise its value, removes
  the handler, and changes nothing else, so no other query is affected and none is answered twice; and a thread that sends a
  query and waits gets the library's answer to it.
\<close>

theorem answers_routed:
  assumes "reach (\<lambda>c. \<exists>s. c = new_tg_client s) tg_step c" and "ids_left c"
  shows "(tg_handlers c q = Some (PromiseHandler p) \<longrightarrow>
      process_response (q, Some obj) c =
        (Inr (), c\<lparr>tg_promises := (tg_promises c)[p := Some obj], tg_handlers := map_erase q (tg_handlers c)\<rparr>)
      \<and> p < length (tg_promises c) \<and> tg_promises c ! p = None
      \<and> (\<forall>q'. q' \<noteq> q \<longrightarrow> tg_handlers c q' \<noteq> Some (PromiseHandler p)))
    \<and> (\<exists>d. td_get env f c = (Inr (td_answer env (tg_sent c) f), d) \<and> tg_handlers d = tg_handlers c
        \<and> tg_events d = tg_events c \<and> tg_is_ready d = tg_is_ready c
        \<and> tg_sent d = tg_sent c @ [(tg_current_query_id c + 1, Some f)])"
proof -
  have inv: "tg_inv c" using assms(1) by (rule tg.reach_inv)
  have "\<exists>d. td_get env f c = (Inr (td_answer env (tg_sent c) f), d) \<and> tg_handlers d = tg_handlers c
        \<and> tg_events d = tg_events c \<and> tg_is_ready d = tg_is_ready c
        \<and> tg_sent d = tg_sent c @ [(tg_current_query_id c + 1, Some f)]"
    unfolding td_get_eq [OF inv assms(2)] by simp
  then show ?thesis
    using process_response_promise [OF inv, of q p obj] inv unfolding tg_inv_def by metis
qed

definition echo_env :: td_env where
  "echo_env = \<lparr>td_answer = (\<lambda>_ f. case f of getUser i \<Rightarrow> td_error 404 ''not found'' | _ \<Rightarrow> td_ok)\<rparr>"

definition asked :: tg_client where
  "asked = snd (send_query_async False (getUser 5) (new_tg_client undefined))"

theorem answers_routed_witness:
  "fst (td_get echo_env (getUser 7) asked) = Inr (td_error 404 ''not found'')
   \<and> tg_promises (snd (process_response (1, Some td_ok) asked)) = [Some td_ok]"
proof -
  have left0: "ids_left (new_tg_client undefined)"
    by (simp add: ids_left_def new_tg_client_def)
  note eq = asked_def [unfolded send_query_async_eq [OF tg_inv_new left0]]
  have left: "ids_left asked"
    unfolding eq by (simp add: ids_left_def new_tg_client_def)
  have r0: "reach (\<lambda>c. \<exists>s. c = new_tg_client s) tg_step (new_tg_client undefined)"
    by (rule reach_init) blast
  have r: "reach (\<lambda>c. \<exists>s. c = new_tg_client s) tg_step asked"
    unfolding asked_def using r0 tg_send [OF left0] by (rule reach_step)
  have "tg_handlers asked 1 = Some (PromiseHandler 0)" "tg_promises asked = [None]"
    unfolding eq by (simp_all add: new_tg_client_def)
  then show ?thesis
    using answers_routed [OF r left, of 1 0 td_ok echo_env "getUser 7"] by (auto simp: echo_env_def)
qed

text \<open>
  What arrives during sign-on, apart from sign-on states: the identifiers that are answered, and the
  updates that are passed on to the gateway.
\<close>

fun quiet :: "64 word \<times> td_object option \<Rightarrow> bool" where
  "quiet (rid, Some (updateAuthorizationState st)) \<longleftrightarrow> rid \<noteq> 0"
| "quiet _ \<longleftrightarrow> True"

definition answered :: "(64 word \<times> td_object option) list \<Rightarrow> 64 word list" where
  "answered rs = map fst (filter (\<lambda>r. snd r \<noteq> None) rs)"

definition for_gateway :: "64 word \<times> td_object option \<Rightarrow> td_object list" where
  "for_gateway r =
     (case r of (rid, obj) \<Rightarrow>
        if rid \<noteq> 0 then []
        else case obj of
               Some (updateCall call) \<Rightarrow> [updateCall call]
             | Some (updateNewMessage m) \<Rightarrow> [updateNewMessage m]
             | Some (updateNewCallSignalingData i d) \<Rightarrow> [updateNewCallSignalingData i d]
             | _ \<Rightarrow> [])"

definition signing_on :: "tg_client \<Rightarrow> bool" where
  "signing_on c \<longleftrightarrow> \<not> tg_is_closed c \<and> ran (tg_handlers c) \<subseteq> {AuthenticationHandler} \<and> tg_handlers c 0 = None"

lemma quiet_response:
  assumes "quiet r" and "signing_on c"
  shows "\<exists>d. process_response r c = (Inr (), d) \<and> signing_on d \<and> tg_sent d = tg_sent c \<and> tg_is_ready d = tg_is_ready c
    \<and> tg_handlers d = tg_handlers c |` (- set (answered [r])) \<and> tg_events d = tg_events c @ map Some (for_gateway r)"
proof -
  obtain rid obj where r: "r = (rid, obj)" by (cases r)
  have zero: "tg_handlers c |` (- {0}) = tg_handlers c"
    using assms(2) by (auto simp: signing_on_def restrict_map_def fun_eq_iff)
  show ?thesis
  proof (cases obj)
    case None
    then show ?thesis
      using assms(2) by (simp add: r process_response_def returnM_def answered_def for_gateway_def restrict_map_def)
  next
    case (Some ob)
    show ?thesis
    proof (cases "rid = 0")
      case True
      then show ?thesis
        using assms zero
        by (cases ob) (simp_all add: r Some process_response_def process_update_def answered_def for_gateway_def
            signing_on_def emplace_def tg_say_def prog_simps)
    next
      case False
      then show ?thesis
      proof (cases "tg_handlers c rid")
        case None
        then have "tg_handlers c |` (- {rid}) = tg_handlers c" by (auto simp: restrict_map_def fun_eq_iff)
        then show ?thesis
          using assms(2) False None by (simp add: r Some process_response_def answered_def for_gateway_def prog_simps)
      next
        case (Some h)
        have h: "h = AuthenticationHandler" using assms(2) Some by (auto simp: signing_on_def ran_def)
        have "map_erase rid (tg_handlers c) = tg_handlers c |` (- {rid})"
          by (auto simp: map_erase_def restrict_map_def fun_eq_iff)
        moreover have "ran (tg_handlers c |` (- {rid})) \<subseteq> {AuthenticationHandler}"
          using assms(2) by (auto simp: signing_on_def ran_def restrict_map_def split: if_splits)
        ultimately show ?thesis
          using assms(2) False Some \<open>obj = Some ob\<close>
          by (cases ob) (simp_all add: r h process_response_def run_handler_def check_authentication_error_def
              answered_def for_gateway_def signing_on_def tg_say_def prog_simps)
      qed
    qed
  qed
qed

lemma quiet_loop:
  assumes "list_all quiet rs" and "signing_on c"
  shows "\<exists>d. (\<forall>rest. tg_loop (rs @ rest) c = tg_loop rest d) \<and> signing_on d \<and> tg_sent d = tg_sent c \<and> tg_is_ready d = tg_is_ready c
    \<and> tg_handlers d = tg_handlers c |` (- set (answered rs)) \<and> tg_events d = tg_events c @ map Some (concat (map for_gateway rs))"
  using assms
proof (induction rs arbitrary: c)
  case Nil
  then show ?case by (auto simp: answered_def restrict_map_def)
next
  case (Cons r rs)
  obtain c1 where c1: "process_response r c = (Inr (), c1)" "signing_on c1" "tg_sent c1 = tg_sent c" "tg_is_ready c1 = tg_is_ready c"
      "tg_handlers c1 = tg_handlers c |` (- set (answered [r]))" "tg_events c1 = tg_events c @ map Some (for_gateway r)"
    using quiet_response [of r c] Cons.prems by auto
  obtain d where d: "\<forall>rest. tg_loop (rs @ rest) c1 = tg_loop rest d" "signing_on d" "tg_sent d = tg_sent c1"
      "tg_is_ready d = tg_is_ready c1" "tg_handlers d = tg_handlers c1 |` (- set (answered rs))"
      "tg_events d = tg_events c1 @ map Some (concat (map for_gateway rs))"
    using Cons.IH [OF _ c1(2)] Cons.prems by auto
  have "\<forall>rest. tg_loop ((r # rs) @ rest) c = tg_loop rest d"
    using Cons.prems(2) c1(1) d(1) by (simp add: signing_on_def prog_simps)
  moreover have "tg_handlers d = tg_handlers c |` (- set (answered (r # rs)))"
    unfolding d(5) c1(5)
    by (auto simp: answered_def restrict_map_def fun_eq_iff)
  ultimately show ?case using d c1 by auto
qed

text \<open>
  C34. Sign-on. A new client that is asked for its parameters sends the configured parameters and the
  proxy setting, in this order and each once. Then, whatever answers and updates arrive in whatever
  order (errors, answers to nothing and empty objects included), none of them stops the client: the
  next sign-on state decides the promise, true for ready and false for any other; exactly the queries that
  were answered have lost their handlers; and the calls, messages and signaling data among the updates, and
  nothing else, wait for the gateway in order.
\<close>

theorem sign_on:
  assumes "list_all quiet rs" and "st \<noteq> authorizationStateWaitTdlibParameters"
  shows "\<exists>d. tg_loop ((0, Some (updateAuthorizationState authorizationStateWaitTdlibParameters)) # rs
        @ [(0, Some (updateAuthorizationState st))]) (new_tg_client cfg) = (Inr (), d)
    \<and> tg_sent d = [(1, Some (init_lib_parameters cfg)), (2, Some (init_proxy cfg))]
    \<and> tg_is_ready d = Some (st = authorizationStateReady)
    \<and> tg_handlers d = [1 \<mapsto> AuthenticationHandler, 2 \<mapsto> AuthenticationHandler] |` (- set (answered rs))
    \<and> tg_events d = map Some (concat (map for_gateway rs))"
proof -
  obtain c where c: "on_authorization_state_update authorizationStateWaitTdlibParameters (new_tg_client cfg) = (Inr (), c)"
      "tg_sent c = [(1, Some (init_lib_parameters cfg)), (2, Some (init_proxy cfg))]"
      "tg_handlers c = [1 \<mapsto> AuthenticationHandler, 2 \<mapsto> AuthenticationHandler]"
      "tg_is_ready c = None" "tg_is_closed c = False" "tg_events c = queue_empty"
    using tg_handshake_eq [OF tg_inv_new, of cfg] by (auto simp: new_tg_client_def)
  have "signing_on c" using c(3,5) by (simp add: signing_on_def)
  from quiet_loop [OF assms(1) this] obtain d where d: "\<forall>rest. tg_loop (rs @ rest) c = tg_loop rest d" "signing_on d"
      "tg_sent d = tg_sent c" "tg_is_ready d = None" "tg_handlers d = tg_handlers c |` (- set (answered rs))"
      "tg_events d = map Some (concat (map for_gateway rs))"
    using c(4,6) by (auto simp: queue_empty_def)
  have "tg_loop ((0, Some (updateAuthorizationState authorizationStateWaitTdlibParameters)) # rs
        @ [(0, Some (updateAuthorizationState st))]) (new_tg_client cfg) = tg_loop [(0, Some (updateAuthorizationState st))] d"
    using c(1) d(1) by (simp add: prog_simps process_response_def process_update_def) (simp add: new_tg_client_def)
  moreover have "\<exists>d'. tg_loop [(0, Some (updateAuthorizationState st))] d = (Inr (), d') \<and> tg_sent d' = tg_sent d
      \<and> tg_is_ready d' = Some (st = authorizationStateReady) \<and> tg_handlers d' = tg_handlers d \<and> tg_events d' = tg_events d"
    using d(2,4) assms(2) by (simp add: prog_simps process_response_def process_update_def signing_on_def on_authorization_final)
  ultimately show ?thesis using c(2,3) d(3,5,6) by auto
qed

definition early_call :: td_object where
  "early_call = updateNewCallSignalingData 5 ''ab''"

theorem sign_on_witness:
  "\<forall>cfg. \<exists>d. tg_loop [(0, Some (updateAuthorizationState authorizationStateWaitTdlibParameters)), (2, Some td_ok), (0, Some early_call),
      (9, None), (1, Some (td_error 400 ''PROXY'')), (0, Some (updateAuthorizationState authorizationStateReady))]
      (new_tg_client cfg) = (Inr (), d)
    \<and> tg_is_ready d = Some True \<and> tg_handlers d = Map.empty \<and> tg_events d = [Some early_call]" (is "\<forall>cfg. ?P cfg")
proof
  fix cfg
  have erased: "[1 \<mapsto> AuthenticationHandler, (2 :: 64 word) \<mapsto> AuthenticationHandler] |` (- {2, 0, 1}) = Map.empty"
    by (auto simp: restrict_map_def fun_eq_iff)
  have "list_all quiet [(2, Some td_ok), (0, Some early_call), (9, None), (1, Some (td_error 400 ''PROXY''))]"
    by (simp add: early_call_def)
  from sign_on [OF this, of authorizationStateReady cfg] show "?P cfg"
    using erased by (auto simp: answered_def for_gateway_def early_call_def)
qed

text \<open>
  C35. The second final sign-on state ends the process. The first state other than the request for
  parameters decides the promise (true for ready, false for every other state); after that, any
  further such state (as when the session is closed or logged out) makes the client thread throw
  \<^verbatim>\<open>std::future_error\<close>, which nothing catches.
\<close>

theorem sign_on_state_twice:
  assumes "a \<noteq> authorizationStateWaitTdlibParameters" and "b \<noteq> authorizationStateWaitTdlibParameters"
    and "tg_is_ready c = None" and "\<not> tg_is_closed c"
  shows "(\<exists>d. tg_loop [(0, Some (updateAuthorizationState a))] c = (Inr (), d)
      \<and> tg_is_ready d = Some (a = authorizationStateReady))
    \<and> fst (tg_loop [(0, Some (updateAuthorizationState a)), (0, Some (updateAuthorizationState b))] c) = Inl FutureError"
  using assms by (simp add: thenM_def bindM_def getM_def returnM_def process_response_def process_update_def
      on_authorization_final)

theorem sign_on_state_twice_witness:
  "fst (tg_loop [(0, Some (updateAuthorizationState authorizationStateReady)),
      (0, Some (updateAuthorizationState authorizationStateClosing))] (new_tg_client undefined)) = Inl FutureError"
  using sign_on_state_twice [of authorizationStateReady authorizationStateClosing "new_tg_client undefined"]
  by (simp add: new_tg_client_def)

end
