(* ===== verification/Sip_Client.thy ===== *)
theory Sip_Client
  imports Event_Queue Settings_Model
begin

text \<open>
  The SIP client of \<^verbatim>\<open>tg2sip/sip.cpp\<close> and \<^verbatim>\<open>sip.h\<close>: the map of calls, the handlers that
  turn the SIP library's callbacks into events, the operations the gateway calls, and the set-up
  of the library's endpoint. The library (pjsua2) is third-party code: the record \<open>pj_env\<close> says, for
  every request and the requests before it, with which reason it throws, if it does, what it
  reports about calls, and the messages, with their levels, that it has for the log.
\<close>

section \<open>Data\<close>

datatype inv_state =
    PJSIP_INV_STATE_NULL
  | PJSIP_INV_STATE_CALLING
  | PJSIP_INV_STATE_INCOMING
  | PJSIP_INV_STATE_EARLY
  | PJSIP_INV_STATE_CONNECTING
  | PJSIP_INV_STATE_CONFIRMED
  | PJSIP_INV_STATE_DISCONNECTED

datatype sip_event =
    IncomingCall int string
  | CallStateUpdate int inv_state
  | CallMediaStateUpdate int bool

definition PJSUA_INVALID_ID :: int where "PJSUA_INVALID_ID = -1"

record CallOpParam =
  prm_use_default :: bool
  prm_statusCode :: int
  prm_reason :: string
  prm_headers :: "(string \<times> string) list"

definition new_CallOpParam :: "bool \<Rightarrow> CallOpParam" where
  "new_CallOpParam use_default =
     \<lparr>prm_use_default = use_default, prm_statusCode = 0, prm_reason = [], prm_headers = []\<rparr>"

datatype audio_media = SipMedia int nat | TgInput nat | TgOutput nat

datatype media_type = PJMEDIA_TYPE_AUDIO | PJMEDIA_TYPE_OTHER

record call_info =
  ci_id :: int
  ci_localUri :: string
  ci_state :: inv_state
  ci_media :: "media_type list"

record AccountConfig =
  ac_idUri :: string
  ac_timerMinSESec :: nat
  ac_timerSessExpiresSec :: nat

text \<open>
  The configuration of the endpoint; \<open>ec_writer\<close> is the name of the logger that the log writer in it
  passes the library's messages to.
\<close>

record EpConfig =
  ec_msgLogging :: nat
  ec_consoleLevel :: nat
  ec_decor :: nat
  ec_ecTailLen :: nat
  ec_threadCnt :: "32 word"
  ec_audioFramePtime :: nat
  ec_ptime :: nat
  ec_clockRate :: nat
  ec_maxCalls :: nat
  ec_writer :: "string option"
  ec_stunServer :: "string list"

record TransportConfig =
  tr_port :: "32 word"
  tr_portRange :: "32 word"
  tr_publicAddress :: string

datatype pj_op =
    pj_log_set_level nat
  | pj_libCreate
  | pj_libInit EpConfig
  | pj_setNullDev
  | pj_codecEnum
  | pj_codecSetPriority string "8 word"
  | pj_transportCreate TransportConfig
  | pj_libStart
  | pj_account_create AccountConfig
  | pj_getInfo int
  | pj_makeCall string CallOpParam
  | pj_answer int CallOpParam
  | pj_hangup int CallOpParam
  | pj_dialDtmf int string
  | pj_startTransmit audio_media audio_media
  | pj_registerMediaPort string
  | pj_call_deleted nat

record pj_env =
  pj_error :: "pj_op list \<Rightarrow> pj_op \<Rightarrow> string option"
  pj_new_call_id :: "pj_op list \<Rightarrow> int"
  pj_call_info :: "pj_op list \<Rightarrow> int \<Rightarrow> call_info"
  pj_media :: "pj_op list \<Rightarrow> int \<Rightarrow> nat \<Rightarrow> bool option"
  pj_has_media :: "pj_op list \<Rightarrow> int \<Rightarrow> bool"
  pj_pool :: bool
  pj_parse_uri :: "string \<Rightarrow> (bool \<times> string) option"
  pj_codecs :: "string list"
  pj_max_calls :: nat
  pj_default_msgLogging :: nat
  pj_log :: "pj_op list \<Rightarrow> pj_op \<Rightarrow> (int \<times> string) list"

text \<open>
  A \<^verbatim>\<open>Call\<close> object: its serial number tells objects with the same call id apart. An object
  lives as long as the map holds it.
\<close>

record sip_call =
  so_serial :: nat
  so_local_user :: string

record sip_client =
  sip_calls :: "int \<rightharpoonup> sip_call"
  sip_serial :: nat
  sip_events :: "sip_event optional_queue"
  sip_account_cfg :: AccountConfig
  pj_ops :: "pj_op list"

definition AccountConfig_of :: "settings \<Rightarrow> AccountConfig" where
  "AccountConfig_of s = \<lparr>ac_idUri = id_uri s, ac_timerMinSESec = 120, ac_timerSessExpiresSec = 1800\<rparr>"

section \<open>Requests\<close>

definition pj :: "pj_env \<Rightarrow> pj_op \<Rightarrow> (sip_client, unit) prog" where
  "pj env op =
     bindM (getM pj_ops) (\<lambda>h.
     thenM (modifyM (\<lambda>c. c\<lparr>pj_ops := h @ [op]\<rparr>))
       (case pj_error env h op of Some reason \<Rightarrow> throwM (PjError reason) | None \<Rightarrow> returnM ()))"

definition pj_note :: "pj_op \<Rightarrow> (sip_client, unit) prog" where
  "pj_note op = modifyM (\<lambda>c. c\<lparr>pj_ops := pj_ops c @ [op]\<rparr>)"

definition getInfo :: "pj_env \<Rightarrow> int \<Rightarrow> (sip_client, call_info) prog" where
  "getInfo env call_id =
     bindM (getM pj_ops) (\<lambda>h. thenM (pj env (pj_getInfo call_id)) (returnM (pj_call_info env h call_id)))"

text \<open>
  What the library writes to the log writer of its configuration while it handles requests that
  come after others: nothing before it was given one.
\<close>

fun gives_writer :: "pj_op \<Rightarrow> bool" where
  "gives_writer (pj_libInit cfg) = (ec_writer cfg \<noteq> None)"
| "gives_writer op = False"

fun pj_output :: "pj_env \<Rightarrow> pj_op list \<Rightarrow> pj_op list \<Rightarrow> (int \<times> string) list" where
  "pj_output env h [] = []"
| "pj_output env h (op # ops) =
     (if list_ex gives_writer (h @ [op]) then pj_log env h op else []) @ pj_output env (h @ [op]) ops"

definition sip_emit :: "sip_event \<Rightarrow> (sip_client, unit) prog" where
  "sip_emit e = modifyM (\<lambda>c. c\<lparr>sip_events := emplace (Some e) (sip_events c)\<rparr>)"

text \<open>\<^verbatim>\<open>std::make_shared<Call>\<close>.\<close>

definition new_call :: "(sip_client, sip_call) prog" where
  "new_call =
     bindM (getM sip_serial) (\<lambda>n.
     thenM (modifyM (\<lambda>c. c\<lparr>sip_serial := Suc n\<rparr>))
       (returnM \<lparr>so_serial = n, so_local_user = []\<rparr>))"

text \<open>
  \<^verbatim>\<open>calls.emplace(id, call)\<close> as the last use of the local shared pointer: when the id is
  taken, the new object dies and the library is told.
\<close>

definition store_call :: "int \<Rightarrow> sip_call \<Rightarrow> sip_client \<Rightarrow> sip_client" where
  "store_call call_id call c =
     (if sip_calls c call_id = None
      then c\<lparr>sip_calls := map_emplace call_id call (sip_calls c)\<rparr>
      else c\<lparr>pj_ops := pj_ops c @ [pj_call_deleted (so_serial call)]\<rparr>)"

section \<open>Callbacks\<close>

definition user_from_uri :: "pj_env \<Rightarrow> string \<Rightarrow> string" where
  "user_from_uri env uri =
     (if \<not> pj_pool env then []
      else case pj_parse_uri env uri of
          None \<Rightarrow> []
        | Some (is_sip, user) \<Rightarrow> if is_sip then user else [])"

text \<open>The handler that the constructor of the client gives to the account.\<close>

definition onIncomingCall :: "pj_env \<Rightarrow> int \<Rightarrow> (sip_client, unit) prog" where
  "onIncomingCall env call_id =
     bindM new_call (\<lambda>call.
     bindM (getInfo env call_id) (\<lambda>ci.
     let call = call\<lparr>so_local_user := user_from_uri env (ci_localUri ci)\<rparr>
     in thenM (modifyM (store_call call_id call))
          (sip_emit (IncomingCall (ci_id ci) (so_local_user call)))))"

text \<open>
  The default handlers hold a weak pointer to their call: they do nothing once the object, told
  apart by its serial number, is gone.
\<close>

definition lock :: "nat \<Rightarrow> int \<Rightarrow> sip_client \<Rightarrow> bool" where
  "lock serial call_id c = (case sip_calls c call_id of None \<Rightarrow> False | Some call \<Rightarrow> so_serial call = serial)"

definition onCallState :: "pj_env \<Rightarrow> nat \<Rightarrow> int \<Rightarrow> (sip_client, unit) prog" where
  "onCallState env serial call_id =
     bindM (getM (lock serial call_id)) (\<lambda>alive.
       whenM alive (bindM (getInfo env call_id) (\<lambda>ci. sip_emit (CallStateUpdate call_id (ci_state ci)))))"

definition onCallMediaState :: "pj_env \<Rightarrow> nat \<Rightarrow> int \<Rightarrow> (sip_client, unit) prog" where
  "onCallMediaState env serial call_id =
     bindM (getM (lock serial call_id)) (\<lambda>alive.
       whenM alive (bindM (getM pj_ops) (\<lambda>h. sip_emit (CallMediaStateUpdate call_id (pj_has_media env h call_id)))))"

section \<open>Operations\<close>

definition Dial :: "pj_env \<Rightarrow> string \<Rightarrow> CallOpParam \<Rightarrow> (sip_client, int) prog" where
  "Dial env uri prm =
     bindM new_call (\<lambda>call.
     bindM (getM pj_ops) (\<lambda>h.
     thenM (pj env (pj_makeCall uri prm))
       (let sip_id = pj_new_call_id env h
        in thenM (modifyM (store_call sip_id call)) (returnM sip_id))))"

definition Hangup :: "pj_env \<Rightarrow> int \<Rightarrow> CallOpParam \<Rightarrow> (sip_client, unit) prog" where
  "Hangup env call_id prm =
     bindM (getM sip_calls) (\<lambda>calls.
       case calls call_id of
         None \<Rightarrow> returnM ()
       | Some call \<Rightarrow>
           thenM (pj env (pj_hangup call_id prm))
             (modifyM (\<lambda>c. c\<lparr>sip_calls := map_erase call_id (sip_calls c)\<rparr>)))"

text \<open>The loop of \<^verbatim>\<open>Call::audio_media\<close>: the first audio entry with a media object decides.\<close>

fun audio_media_loop :: "(nat \<Rightarrow> bool option) \<Rightarrow> nat \<Rightarrow> media_type list \<Rightarrow> nat option" where
  "audio_media_loop getMedia i [] = None"
| "audio_media_loop getMedia i (t # ts) =
     (if t = PJMEDIA_TYPE_AUDIO \<and> getMedia i \<noteq> None
      then (if getMedia i = Some True then Some i else None)
      else audio_media_loop getMedia (Suc i) ts)"

definition call_audio_media :: "pj_env \<Rightarrow> int \<Rightarrow> (sip_client, audio_media option) prog" where
  "call_audio_media env call_id =
     bindM (getInfo env call_id) (\<lambda>ci.
     bindM (getM pj_ops) (\<lambda>h.
       returnM (map_option (SipMedia call_id) (audio_media_loop (pj_media env h call_id) 0 (ci_media ci)))))"

definition SipBridgeAudio :: "pj_env \<Rightarrow> int \<Rightarrow> audio_media \<Rightarrow> audio_media \<Rightarrow> (sip_client, unit) prog" where
  "SipBridgeAudio env call_id input output =
     bindM (getM sip_calls) (\<lambda>calls.
       case calls call_id of
         None \<Rightarrow> throwM (RuntimeError ''CALL_NOT_FOUND'')
       | Some call \<Rightarrow>
           bindM (call_audio_media env call_id) (\<lambda>sip_audio.
             case sip_audio of
               None \<Rightarrow> throwM (RuntimeError ''SIP_MEDIA_NOT_READY'')
             | Some m \<Rightarrow>
                 thenM (pj env (pj_startTransmit m input)) (pj env (pj_startTransmit output m))))"

definition Answer :: "pj_env \<Rightarrow> int \<Rightarrow> CallOpParam \<Rightarrow> (sip_client, unit) prog" where
  "Answer env call_id prm =
     bindM (getM sip_calls) (\<lambda>calls.
       case calls call_id of
         None \<Rightarrow> throwM (RuntimeError ''CALL_NOT_FOUND'')
       | Some call \<Rightarrow> pj env (pj_answer call_id prm))"

definition SipDialDtmf :: "pj_env \<Rightarrow> int \<Rightarrow> string \<Rightarrow> (sip_client, unit) prog" where
  "SipDialDtmf env call_id dtmf_digits =
     bindM (getM sip_calls) (\<lambda>calls.
       case calls call_id of
         None \<Rightarrow> throwM (RuntimeError ''CALL_NOT_FOUND'')
       | Some call \<Rightarrow> pj env (pj_dialDtmf call_id dtmf_digits))"

section \<open>Set-up of the endpoint\<close>

definition ep_config :: "pj_env \<Rightarrow> settings \<Rightarrow> EpConfig" where
  "ep_config env s =
     \<lparr>ec_msgLogging = (if pjsip_log_sip_messages s then pj_default_msgLogging env else 0),
      ec_consoleLevel = 6, ec_decor = 0, ec_ecTailLen = 0, ec_threadCnt = sip_thread_count s,
      ec_audioFramePtime = 10, ec_ptime = 10, ec_clockRate = 48000, ec_maxCalls = pj_max_calls env,
      ec_writer = Some ''pjsip'', ec_stunServer = (if stun_server s \<noteq> [] then [stun_server s] else [])\<rparr>"

definition codec_id :: "settings \<Rightarrow> string" where
  "codec_id s = (if raw_pcm s then ''L16/48000/1'' else ''opus/48000/2'')"

fun set_priorities :: "pj_env \<Rightarrow> string \<Rightarrow> string list \<Rightarrow> (sip_client, unit) prog" where
  "set_priorities env codecId [] = returnM ()"
| "set_priorities env codecId (v # vs) =
     thenM (pj env (pj_codecSetPriority v (if v = codecId then 255 else 0))) (set_priorities env codecId vs)"

definition transport_config :: "settings \<Rightarrow> TransportConfig" where
  "transport_config s =
     \<lparr>tr_port = sip_port s, tr_portRange = sip_port_range s, tr_publicAddress = public_address s\<rparr>"

definition init_pj_endpoint :: "pj_env \<Rightarrow> settings \<Rightarrow> (sip_client, unit) prog" where
  "init_pj_endpoint env s =
     thenM (pj_note (pj_log_set_level 0))
     (thenM (pj env pj_libCreate)
     (thenM (pj env (pj_libInit (ep_config env s)))
     (thenM (pj env pj_setNullDev)
     (thenM (pj env pj_codecEnum)
     (thenM (set_priorities env (codec_id s) (pj_codecs env))
     (thenM (pj env (pj_transportCreate (transport_config s)))
       (pj env pj_libStart)))))))"

text \<open>The constructor, with the endpoint not yet created, and \<^verbatim>\<open>start\<close>.\<close>

definition new_sip_client :: "settings \<Rightarrow> sip_client" where
  "new_sip_client s = \<lparr>sip_calls = Map.empty, sip_serial = 0, sip_events = queue_empty,
     sip_account_cfg = AccountConfig_of s, pj_ops = []\<rparr>"

definition sip_start :: "pj_env \<Rightarrow> (sip_client, unit) prog" where
  "sip_start env = bindM (getM sip_account_cfg) (\<lambda>cfg. pj env (pj_account_create cfg))"

section \<open>Facts\<close>

lemma pj_eq:
  "pj env op c = (case pj_error env (pj_ops c) op of None \<Rightarrow> Inr () | Some r \<Rightarrow> Inl (PjError r),
     c\<lparr>pj_ops := pj_ops c @ [op]\<rparr>)"
  by (simp add: pj_def prog_simps split: option.splits)

lemma thenM_pj:
  "thenM (pj env op) m c = (case pj_error env (pj_ops c) op of
     Some r \<Rightarrow> (Inl (PjError r), c\<lparr>pj_ops := pj_ops c @ [op]\<rparr>)
   | None \<Rightarrow> m (c\<lparr>pj_ops := pj_ops c @ [op]\<rparr>))"
  by (simp add: thenM_def bindM_def pj_eq split: option.splits)

lemma getInfo_eq:
  "getInfo env i c = (case pj_error env (pj_ops c) (pj_getInfo i) of
     Some r \<Rightarrow> (Inl (PjError r), c\<lparr>pj_ops := pj_ops c @ [pj_getInfo i]\<rparr>)
   | None \<Rightarrow> (Inr (pj_call_info env (pj_ops c) i), c\<lparr>pj_ops := pj_ops c @ [pj_getInfo i]\<rparr>))"
  by (simp add: getInfo_def bindM_def getM_def thenM_pj returnM_def split: option.split)

lemma Hangup_eq:
  "Hangup env i prm c =
     (case sip_calls c i of
        None \<Rightarrow> (Inr (), c)
      | Some _ \<Rightarrow> (case pj_error env (pj_ops c) (pj_hangup i prm) of
           Some r \<Rightarrow> (Inl (PjError r), c\<lparr>pj_ops := pj_ops c @ [pj_hangup i prm]\<rparr>)
         | None \<Rightarrow> (Inr (), c\<lparr>pj_ops := pj_ops c @ [pj_hangup i prm],
                            sip_calls := map_erase i (sip_calls c)\<rparr>)))"
  by (simp add: Hangup_def bindM_def getM_def thenM_pj modifyM_def returnM_def split: option.splits)


section \<open>Bridging audio\<close>

lemma SipBridgeAudio_eq:
  "SipBridgeAudio env i input output c =
     (case sip_calls c i of
        None \<Rightarrow> (Inl (RuntimeError ''CALL_NOT_FOUND''), c)
      | Some _ \<Rightarrow> (case pj_error env (pj_ops c) (pj_getInfo i) of
          Some r \<Rightarrow> (Inl (PjError r), c\<lparr>pj_ops := pj_ops c @ [pj_getInfo i]\<rparr>)
        | None \<Rightarrow> (case audio_media_loop (pj_media env (pj_ops c @ [pj_getInfo i]) i) 0
                    (ci_media (pj_call_info env (pj_ops c) i)) of
            None \<Rightarrow> (Inl (RuntimeError ''SIP_MEDIA_NOT_READY''), c\<lparr>pj_ops := pj_ops c @ [pj_getInfo i]\<rparr>)
          | Some j \<Rightarrow> thenM (pj env (pj_startTransmit (SipMedia i j) input))
              (pj env (pj_startTransmit output (SipMedia i j))) (c\<lparr>pj_ops := pj_ops c @ [pj_getInfo i]\<rparr>))))"
  by (simp add: SipBridgeAudio_def call_audio_media_def bindM_def getM_def getInfo_eq returnM_def throwM_def
      split: option.splits)

text \<open>
  Which stream the bridge is to use: the first entry of the call that is audio and has a media object,
  where that object is an audio medium.
\<close>

definition first_audio :: "(nat \<Rightarrow> bool option) \<Rightarrow> media_type list \<Rightarrow> nat \<Rightarrow> bool" where
  "first_audio getMedia ts j \<longleftrightarrow> j < length ts \<and> ts ! j = PJMEDIA_TYPE_AUDIO \<and> getMedia j = Some True
     \<and> (\<forall>k < j. ts ! k = PJMEDIA_TYPE_AUDIO \<longrightarrow> getMedia k = None)"

lemma first_audio_unique: "first_audio g ts i \<Longrightarrow> first_audio g ts j \<Longrightarrow> i = j"
  by (metis first_audio_def linorder_neqE_nat option.distinct(1))

lemma audio_media_loop_shift:
  "audio_media_loop g (Suc i) ts = map_option Suc (audio_media_loop (g \<circ> Suc) i ts)"
  by (induction ts arbitrary: i) auto

lemma first_audio_Cons:
  "first_audio g (t # ts) j \<longleftrightarrow>
     (if t = PJMEDIA_TYPE_AUDIO \<and> g 0 \<noteq> None then j = 0 \<and> g 0 = Some True
      else \<exists>i. j = Suc i \<and> first_audio (g \<circ> Suc) ts i)"
  by (cases j) (auto simp: first_audio_def All_less_Suc2 less_Suc_eq_0_disj)

lemma audio_media_loop_first: "audio_media_loop g 0 ts = Some j \<longleftrightarrow> first_audio g ts j"
proof (induction ts arbitrary: g j)
  case Nil
  then show ?case by (simp add: first_audio_def)
next
  case (Cons t ts)
  then show ?case by (auto simp: first_audio_Cons audio_media_loop_shift comp_def)
qed

lemma audio_media_loop_none: "audio_media_loop g 0 ts = None \<longleftrightarrow> (\<forall>j. \<not> first_audio g ts j)"
  using audio_media_loop_first [of g ts] by (metis not_None_eq)

text \<open>
  C31. Bridging audio uses the first audio stream of a known call. It returns normally exactly
  with two connections requested, from that stream to the given input and from the given output to
  that stream, and nothing else changed. It refuses a call that the client does not know, and a known
  call whose first audio stream does not exist or is not usable, each with its own error and before any
  connection is made. The one other way to fail is that the library refuses one of the three requests,
  and then the requests up to that one were made.
\<close>

theorem sip_bridge_audio:
  assumes "info = pj_getInfo i" and "g = pj_media env (pj_ops c @ [info]) i"
    and "media = ci_media (pj_call_info env (pj_ops c) i)"
  shows "(case SipBridgeAudio env i input output c of
      (Inr _, c') \<Rightarrow> sip_calls c i \<noteq> None \<and> (\<exists>j. first_audio g media j
          \<and> c' = c\<lparr>pj_ops := pj_ops c @ [info, pj_startTransmit (SipMedia i j) input, pj_startTransmit output (SipMedia i j)]\<rparr>)
    | (Inl e, c') \<Rightarrow>
        (e = RuntimeError ''CALL_NOT_FOUND'' \<and> sip_calls c i = None \<and> c' = c)
        \<or> (e = RuntimeError ''SIP_MEDIA_NOT_READY'' \<and> sip_calls c i \<noteq> None \<and> (\<forall>j. \<not> first_audio g media j)
             \<and> c' = c\<lparr>pj_ops := pj_ops c @ [info]\<rparr>)
        \<or> (\<exists>r ops op. e = PjError r \<and> sip_calls c i \<noteq> None \<and> c' = c\<lparr>pj_ops := pj_ops c @ ops @ [op]\<rparr>
             \<and> pj_error env (pj_ops c @ ops) op = Some r
             \<and> (ops @ [op] = [info] \<or> (\<exists>j. first_audio g media j
                  \<and> (ops @ [op] = [info, pj_startTransmit (SipMedia i j) input]
                      \<or> ops @ [op] = [info, pj_startTransmit (SipMedia i j) input, pj_startTransmit output (SipMedia i j)])))))"
proof (cases "sip_calls c i")
  case None
  then show ?thesis by (simp add: SipBridgeAudio_eq)
next
  case (Some call)
  show ?thesis
  proof (cases "pj_error env (pj_ops c) info")
    case (Some r)
    then show ?thesis
      using \<open>sip_calls c i = Some call\<close> assms(1)
      by (simp add: SipBridgeAudio_eq) (intro exI [of _ "[]"], simp)
  next
    case None
    show ?thesis
    proof (cases "audio_media_loop g 0 media")
      case n: None
      then show ?thesis
        using Some None assms audio_media_loop_none [of g media] by (simp add: SipBridgeAudio_eq)
    next
      case j: (Some j)
      let ?in = "pj_startTransmit (SipMedia i j) input" and ?out = "pj_startTransmit output (SipMedia i j)"
      have j1: "first_audio g media j" using j by (simp add: audio_media_loop_first)
      have run: "SipBridgeAudio env i input output c =
          thenM (pj env ?in) (pj env ?out) (c\<lparr>pj_ops := pj_ops c @ [info]\<rparr>)"
        using Some None j assms by (simp add: SipBridgeAudio_eq)
      consider (first) r where "pj_error env (pj_ops c @ [info]) ?in = Some r"
        | (second) r where "pj_error env (pj_ops c @ [info]) ?in = None" "pj_error env (pj_ops c @ [info, ?in]) ?out = Some r"
        | (ok) "pj_error env (pj_ops c @ [info]) ?in = None" "pj_error env (pj_ops c @ [info, ?in]) ?out = None"
        by (meson not_None_eq)
      then show ?thesis
      proof cases
        case (first r)
        then show ?thesis
          using Some j1 first by (simp add: run thenM_pj) (intro exI [of _ "[info]"], auto)
      next
        case (second r)
        then show ?thesis
          using Some j1 second by (simp add: run thenM_pj pj_eq) (intro exI [of _ "[info, ?in]"], auto)
      next
        case ok
        then show ?thesis using Some j1 ok by (auto simp: run thenM_pj pj_eq)
      qed
    qed
  qed
qed

section \<open>Endpoint set-up\<close>

text \<open>Requests in order up to the first that throws.\<close>

fun run_pj :: "pj_env \<Rightarrow> pj_op list \<Rightarrow> (sip_client, unit) prog" where
  "run_pj env [] = returnM ()"
| "run_pj env (op # ops) = thenM (pj env op) (run_pj env ops)"

lemma run_pj_append: "run_pj env (xs @ ys) = thenM (run_pj env xs) (run_pj env ys)"
  by (induction xs) (simp_all add: thenM_def bindM_assoc)

lemma run_pj_one: "run_pj env [op] = pj env op"
  by (rule ext) (simp add: thenM_pj pj_eq returnM_def split: option.splits)

lemma run_pj_prefix:
  "\<exists>k \<le> length ops. snd (run_pj env ops c) = c\<lparr>pj_ops := pj_ops c @ take k ops\<rparr>
     \<and> (fst (run_pj env ops c) = Inr () \<longrightarrow> k = length ops)
     \<and> (\<forall>e. fst (run_pj env ops c) = Inl e \<longrightarrow> (\<exists>r. e = PjError r))"
proof (induction ops arbitrary: c)
  case Nil
  then show ?case by (simp add: returnM_def)
next
  case (Cons op ops)
  show ?case
  proof (cases "pj_error env (pj_ops c) op")
    case (Some r)
    then show ?thesis by (intro exI [of _ 1]) (simp add: thenM_pj)
  next
    case None
    obtain k where "k \<le> length ops"
      "snd (run_pj env ops (c\<lparr>pj_ops := pj_ops c @ [op]\<rparr>)) = c\<lparr>pj_ops := (pj_ops c @ [op]) @ take k ops\<rparr>"
      "fst (run_pj env ops (c\<lparr>pj_ops := pj_ops c @ [op]\<rparr>)) = Inr () \<longrightarrow> k = length ops"
      "\<forall>e. fst (run_pj env ops (c\<lparr>pj_ops := pj_ops c @ [op]\<rparr>)) = Inl e \<longrightarrow> (\<exists>r. e = PjError r)"
      using Cons.IH [of "c\<lparr>pj_ops := pj_ops c @ [op]\<rparr>"] by auto
    then show ?thesis using None by (intro exI [of _ "Suc k"]) (simp add: thenM_pj)
  qed
qed

definition codec_ops :: "pj_env \<Rightarrow> settings \<Rightarrow> pj_op list" where
  "codec_ops env s = map (\<lambda>v. pj_codecSetPriority v (if v = codec_id s then 255 else 0)) (pj_codecs env)"

definition endpoint_ops :: "pj_env \<Rightarrow> settings \<Rightarrow> pj_op list" where
  "endpoint_ops env s = [pj_libCreate, pj_libInit (ep_config env s), pj_setNullDev, pj_codecEnum] @ codec_ops env s
     @ [pj_transportCreate (transport_config s), pj_libStart]"

lemma set_priorities_run:
  "set_priorities env cid vs = run_pj env (map (\<lambda>v. pj_codecSetPriority v (if v = cid then 255 else 0)) vs)"
  by (induction vs) simp_all

lemma thenM_assoc: "thenM (thenM a b) c = thenM a (thenM b c)"
  by (simp add: thenM_def bindM_assoc)

lemma init_pj_endpoint_run:
  "init_pj_endpoint env s = thenM (pj_note (pj_log_set_level 0)) (run_pj env (endpoint_ops env s))"
  by (simp add: init_pj_endpoint_def endpoint_ops_def codec_ops_def set_priorities_run run_pj_append
      run_pj_one [unfolded run_pj.simps] thenM_assoc)

text \<open>What a run of requests that throws leaves: the requests up to the one that was refused.\<close>

lemma run_pj_cases:
  "(case run_pj env ops c of
      (Inr _, c') \<Rightarrow> c' = c\<lparr>pj_ops := pj_ops c @ ops\<rparr>
    | (Inl e, c') \<Rightarrow> \<exists>pre op rest r. ops = pre @ op # rest \<and> e = PjError r
        \<and> pj_error env (pj_ops c @ pre) op = Some r \<and> c' = c\<lparr>pj_ops := pj_ops c @ pre @ [op]\<rparr>)"
proof (induction ops arbitrary: c)
  case Nil
  then show ?case by (simp add: returnM_def)
next
  case (Cons op ops)
  show ?case
  proof (cases "pj_error env (pj_ops c) op")
    case (Some r)
    then show ?thesis by (simp add: thenM_pj) (intro exI [of _ "[]"], simp)
  next
    case None
    let ?c = "c\<lparr>pj_ops := pj_ops c @ [op]\<rparr>"
    obtain o' c' where run: "run_pj env ops ?c = (o', c')" by fastforce
    show ?thesis
    proof (cases o')
      case (Inl e)
      then obtain pre op' rest r where "ops = pre @ op' # rest" "e = PjError r"
          "pj_error env (pj_ops c @ op # pre) op' = Some r" "c' = c\<lparr>pj_ops := pj_ops c @ op # pre @ [op']\<rparr>"
        using Cons.IH [of ?c] run by auto
      then show ?thesis using None run Inl by (simp add: thenM_pj) (intro exI [of _ "op # pre"], simp)
    next
      case (Inr u)
      then show ?thesis using Cons.IH [of ?c] None run by (simp add: thenM_pj)
    qed
  qed
qed

text \<open>
  C32. Endpoint set-up. It issues its requests in a fixed order: create, initialise, null sound device,
  list the codecs, one priority for each codec, transport, start. The library is initialised with a clock
  of 48 kHz, frames of 10 ms, no echo canceller, the configured number of threads, the STUN server if one is
  set, the log writer, and no log of SIP messages unless that is asked for. The codec of the bridge,
  L16 when raw PCM is configured and Opus otherwise, gets the priority 255 and every other codec 0. The
  transport has the configured port, range and public address. The set-up fails exactly at the first
  request that the library refuses, with its reason, and makes no request after it.
\<close>

theorem endpoint_setup:
  assumes "cfg = \<lparr>ec_msgLogging = (if pjsip_log_sip_messages s then pj_default_msgLogging env else 0),
      ec_consoleLevel = 6, ec_decor = 0, ec_ecTailLen = 0, ec_threadCnt = sip_thread_count s,
      ec_audioFramePtime = 10, ec_ptime = 10, ec_clockRate = 48000, ec_maxCalls = pj_max_calls env,
      ec_writer = Some ''pjsip'', ec_stunServer = (if stun_server s = [] then [] else [stun_server s])\<rparr>"
    and "prio = (\<lambda>v. pj_codecSetPriority v (if v = (if raw_pcm s then ''L16/48000/1'' else ''opus/48000/2'') then 255 else 0))"
    and "ops = [pj_libCreate, pj_libInit cfg, pj_setNullDev, pj_codecEnum] @ map prio (pj_codecs env)
      @ [pj_transportCreate \<lparr>tr_port = sip_port s, tr_portRange = sip_port_range s, tr_publicAddress = public_address s\<rparr>,
         pj_libStart]"
  shows "(case init_pj_endpoint env s c of
      (Inr _, c') \<Rightarrow> c' = c\<lparr>pj_ops := pj_ops c @ pj_log_set_level 0 # ops\<rparr>
    | (Inl e, c') \<Rightarrow> \<exists>pre op rest r. ops = pre @ op # rest \<and> e = PjError r
        \<and> pj_error env (pj_ops c @ pj_log_set_level 0 # pre) op = Some r
        \<and> c' = c\<lparr>pj_ops := pj_ops c @ pj_log_set_level 0 # pre @ [op]\<rparr>)"
proof -
  have ops: "ops = endpoint_ops env s"
    unfolding assms endpoint_ops_def codec_ops_def codec_id_def transport_config_def ep_config_def by simp
  have run: "init_pj_endpoint env s c = run_pj env ops (c\<lparr>pj_ops := pj_ops c @ [pj_log_set_level 0]\<rparr>)"
    by (simp add: ops init_pj_endpoint_run thenM_def bindM_def pj_note_def modifyM_def)
  show ?thesis
    using run_pj_cases [where env = env and ops = ops and c = "c\<lparr>pj_ops := pj_ops c @ [pj_log_set_level 0]\<rparr>"]
    unfolding run by (auto split: prod.splits sum.splits)
qed

section \<open>Stale entries\<close>

text \<open>
  C33. While an entry for an id is there, a new incoming call that gets the same id is announced to the gateway,
  but its object is discarded, the map keeps the old object, and the state and media callbacks of
  the new call produce no event.
\<close>

theorem stale_call_shadows:
  assumes "sip_calls c i = Some old" and "so_serial old < sip_serial c"
    and "onIncomingCall env i c = (Inr (), c')"
  shows "sip_calls c' i = Some old
    \<and> pj_call_deleted (sip_serial c) \<in> set (pj_ops c')
    \<and> sip_events c' = emplace (Some (IncomingCall (ci_id (pj_call_info env (pj_ops c) i))
        (user_from_uri env (ci_localUri (pj_call_info env (pj_ops c) i))))) (sip_events c)
    \<and> onCallState env (sip_serial c) i c' = (Inr (), c')
    \<and> onCallMediaState env (sip_serial c) i c' = (Inr (), c')"
  using assms
  by (auto simp: onIncomingCall_def new_call_def bindM_def getM_def thenM_def modifyM_def returnM_def getInfo_eq
      sip_emit_def store_call_def onCallState_def onCallMediaState_def lock_def whenM_def Let_def
      split: option.splits)

definition quiet_pj :: pj_env where
  "quiet_pj = \<lparr>pj_error = (\<lambda>_ _. None), pj_new_call_id = (\<lambda>h. 0),
     pj_call_info = (\<lambda>_ i. \<lparr>ci_id = i, ci_localUri = ''sip:+1@gw'', ci_state = PJSIP_INV_STATE_INCOMING,
        ci_media = [PJMEDIA_TYPE_AUDIO]\<rparr>),
     pj_media = (\<lambda>_ _ _. Some True), pj_has_media = (\<lambda>_ _. True), pj_pool = True,
     pj_parse_uri = (\<lambda>u. Some (True, ''+1'')), pj_codecs = [''PCMU/8000/1'', ''opus/48000/2'', ''L16/48000/1''],
     pj_max_calls = 4, pj_default_msgLogging = 1, pj_log = (\<lambda>_ _. [])\<rparr>"

definition sip_empty :: sip_client where
  "sip_empty = \<lparr>sip_calls = Map.empty, sip_serial = 0, sip_events = [],
     sip_account_cfg = \<lparr>ac_idUri = [], ac_timerMinSESec = 120, ac_timerSessExpiresSec = 1800\<rparr>, pj_ops = []\<rparr>"

theorem sip_bridge_audio_witness:
  "let c = sip_empty\<lparr>sip_calls := [3 \<mapsto> \<lparr>so_serial = 0, so_local_user = ''ann''\<rparr>]\<rparr>;
       env = quiet_pj\<lparr>pj_call_info := (\<lambda>_ i. \<lparr>ci_id = i, ci_localUri = [], ci_state = PJSIP_INV_STATE_CONFIRMED,
          ci_media = [PJMEDIA_TYPE_OTHER, PJMEDIA_TYPE_AUDIO, PJMEDIA_TYPE_AUDIO]\<rparr>)\<rparr>
   in pj_ops (snd (SipBridgeAudio env 3 (TgInput 0) (TgOutput 0) c)) =
        [pj_getInfo 3, pj_startTransmit (SipMedia 3 1) (TgInput 0), pj_startTransmit (TgOutput 0) (SipMedia 3 1)]
      \<and> fst (SipBridgeAudio env 4 (TgInput 0) (TgOutput 0) c) = Inl (RuntimeError ''CALL_NOT_FOUND'')"
proof -
  define c where "c = sip_empty\<lparr>sip_calls := [3 \<mapsto> \<lparr>so_serial = 0, so_local_user = ''ann''\<rparr>]\<rparr>"
  define env where "env = quiet_pj\<lparr>pj_call_info := (\<lambda>_ i. \<lparr>ci_id = i, ci_localUri = [], ci_state = PJSIP_INV_STATE_CONFIRMED,
          ci_media = [PJMEDIA_TYPE_OTHER, PJMEDIA_TYPE_AUDIO, PJMEDIA_TYPE_AUDIO]\<rparr>)\<rparr>"
  have ok: "pj_error env h op = None" "pj_media env h i j = Some True" for h op i j
    by (simp_all add: env_def quiet_pj_def)
  have c: "sip_calls c 3 \<noteq> None" "sip_calls c 4 = None" "pj_ops c = []" by (simp_all add: c_def sip_empty_def)
  have first: "first_audio (pj_media env h 3) (ci_media (pj_call_info env h' 3)) 1" for h h'
    unfolding first_audio_def ok by (simp add: env_def)
  have "pj_ops (snd (SipBridgeAudio env 3 (TgInput 0) (TgOutput 0) c)) =
        [pj_getInfo 3, pj_startTransmit (SipMedia 3 1) (TgInput 0), pj_startTransmit (TgOutput 0) (SipMedia 3 1)]"
    using sip_bridge_audio [of _ 3 _ env c _ "TgInput 0" "TgOutput 0", OF refl refl refl]
      first c ok first_audio_unique [OF first]
    by (fastforce split: prod.splits sum.splits)
  moreover have "fst (SipBridgeAudio env 4 (TgInput 0) (TgOutput 0) c) = Inl (RuntimeError ''CALL_NOT_FOUND'')"
    using sip_bridge_audio [of _ 4 _ env c _ "TgInput 0" "TgOutput 0", OF refl refl refl] c
    by (auto split: prod.splits sum.splits)
  ultimately show ?thesis unfolding Let_def c_def env_def by blast
qed

theorem endpoint_setup_witness:
  "pj_ops (snd (init_pj_endpoint quiet_pj demo_settings sip_empty)) =
     [pj_log_set_level 0, pj_libCreate, pj_libInit \<lparr>ec_msgLogging = 1, ec_consoleLevel = 6, ec_decor = 0, ec_ecTailLen = 0,
        ec_threadCnt = 1, ec_audioFramePtime = 10, ec_ptime = 10, ec_clockRate = 48000, ec_maxCalls = 4,
        ec_writer = Some ''pjsip'', ec_stunServer = []\<rparr>, pj_setNullDev, pj_codecEnum,
      pj_codecSetPriority ''PCMU/8000/1'' 0, pj_codecSetPriority ''opus/48000/2'' 0, pj_codecSetPriority ''L16/48000/1'' 255,
      pj_transportCreate \<lparr>tr_port = 0, tr_portRange = 0, tr_publicAddress = []\<rparr>, pj_libStart]"
proof -
  have "pj_error quiet_pj h op = None" for h op by (simp add: quiet_pj_def)
  then have "snd (init_pj_endpoint quiet_pj demo_settings sip_empty) = sip_empty\<lparr>pj_ops := pj_ops sip_empty @ pj_log_set_level 0 #
      [pj_libCreate, pj_libInit (ep_config quiet_pj demo_settings), pj_setNullDev, pj_codecEnum]
      @ map (\<lambda>v. pj_codecSetPriority v (if v = (if raw_pcm demo_settings then ''L16/48000/1'' else ''opus/48000/2'') then 255 else 0))
          (pj_codecs quiet_pj)
      @ [pj_transportCreate \<lparr>tr_port = sip_port demo_settings, tr_portRange = sip_port_range demo_settings,
           tr_publicAddress = public_address demo_settings\<rparr>, pj_libStart]\<rparr>"
    using endpoint_setup [OF _ refl refl, of "ep_config quiet_pj demo_settings" demo_settings quiet_pj sip_empty]
    by (auto simp: ep_config_def split: prod.splits sum.splits)
  then show ?thesis by (simp add: sip_empty_def quiet_pj_def demo_settings_def ep_config_def)
qed

theorem stale_call_shadows_witness:
  "sip_calls (snd (onIncomingCall quiet_pj 0 (sip_empty\<lparr>sip_calls := [0 \<mapsto> \<lparr>so_serial = 0, so_local_user = ''old''\<rparr>],
      sip_serial := 1\<rparr>))) 0 = Some \<lparr>so_serial = 0, so_local_user = ''old''\<rparr>"
  using stale_call_shadows [of "sip_empty\<lparr>sip_calls := [0 \<mapsto> \<lparr>so_serial = 0, so_local_user = ''old''\<rparr>],
      sip_serial := 1\<rparr>" 0 "\<lparr>so_serial = 0, so_local_user = ''old''\<rparr>" quiet_pj]
  by (simp add: onIncomingCall_def new_call_def bindM_def getM_def thenM_def modifyM_def returnM_def getInfo_eq
      sip_emit_def store_call_def Let_def quiet_pj_def)

end
