(* ===== verification/Gateway_Actions.thy ===== *)
theory Gateway_Actions
  imports Sml_Engine Tg_Client Sip_Client Controller
begin

text \<open>
  The guards and actions of the state machine in \<^verbatim>\<open>tg2sip/gateway.cpp\<close>. An action runs on
  the context of its bridge and on the world the bridges share: the SIP client, the Telegram
  client, the calling runtime, the queue of internal events, the contact caches and the time
  until which Telegram refuses calls. Log output is left out.
\<close>

section \<open>State\<close>

datatype internal_event =
    InternalError string CallOpParam
  | SignalingDataEmitted string "byte list"

record cache =
  username_cache :: "string \<rightharpoonup> int"
  phone_cache :: "string \<rightharpoonup> int"

record ctx =
  ctx_id :: string
  sip_call_id :: int
  tg_call_id :: int
  ctx_controller :: "nat option"
  ext_phone :: string
  ext_username :: string
  user_id :: int
  hangup_prm :: CallOpParam

record world =
  w_sip :: sip_client
  w_tg :: tg_client
  w_rt :: rt_world
  w_internal :: "internal_event optional_queue"
  w_cache :: cache
  w_block_until :: int
  w_readings :: nat

text \<open>
  What is outside the program: the libraries, the settings, the process id and the readings of
  the steady clock, in nanoseconds.
\<close>

record env =
  e_pj :: pj_env
  e_td :: td_env
  e_ntg :: ntg_env
  e_settings :: settings
  e_clock :: "nat \<Rightarrow> int"
  e_pid :: int

type_synonym 'a act = "(ctx \<times> world, 'a) prog"

definition sipM :: "(sip_client, 'a) prog \<Rightarrow> 'a act" where
  "sipM m = liftM (\<lambda>(c, w). w_sip w) (\<lambda>s (c, w). (c, w\<lparr>w_sip := s\<rparr>)) m"

definition tgM :: "(tg_client, 'a) prog \<Rightarrow> 'a act" where
  "tgM m = liftM (\<lambda>(c, w). w_tg w) (\<lambda>s (c, w). (c, w\<lparr>w_tg := s\<rparr>)) m"

definition rtM :: "(rt_world, 'a) prog \<Rightarrow> 'a act" where
  "rtM m = liftM (\<lambda>(c, w). w_rt w) (\<lambda>s (c, w). (c, w\<lparr>w_rt := s\<rparr>)) m"

definition get_ctx :: "(ctx \<Rightarrow> 'a) \<Rightarrow> 'a act" where
  "get_ctx f = getM (\<lambda>(c, w). f c)"

definition put_ctx :: "(ctx \<Rightarrow> ctx) \<Rightarrow> unit act" where
  "put_ctx f = modifyM (\<lambda>(c, w). (f c, w))"

definition get_world :: "(world \<Rightarrow> 'a) \<Rightarrow> 'a act" where
  "get_world f = getM (\<lambda>(c, w). f w)"

definition put_world :: "(world \<Rightarrow> world) \<Rightarrow> unit act" where
  "put_world f = modifyM (\<lambda>(c, w). (c, f w))"

definition now :: "env \<Rightarrow> int act" where
  "now env = bindM (get_world w_readings) (\<lambda>n.
     thenM (put_world (\<lambda>w. w\<lparr>w_readings := Suc n\<rparr>)) (returnM (e_clock env n)))"

text \<open>\<^verbatim>\<open>internal_events.emplace(InternalError\<dots>)\<close> for the current context.\<close>

definition internal_error :: "CallOpParam \<Rightarrow> unit act" where
  "internal_error prm = bindM (get_ctx ctx_id) (\<lambda>i.
     put_world (\<lambda>w. w\<lparr>w_internal := emplace (Some (InternalError i prm)) (w_internal w)\<rparr>))"

definition PJSIP_SC_RINGING :: int where "PJSIP_SC_RINGING = 180"
definition PJSIP_SC_OK :: int where "PJSIP_SC_OK = 200"
definition PJSIP_SC_NOT_FOUND :: int where "PJSIP_SC_NOT_FOUND = 404"
definition PJSIP_SC_BAD_EXTENSION :: int where "PJSIP_SC_BAD_EXTENSION = 420"
definition PJSIP_SC_INTERNAL_SERVER_ERROR :: int where "PJSIP_SC_INTERNAL_SERVER_ERROR = 500"

definition server_error :: "bool \<Rightarrow> string \<Rightarrow> CallOpParam" where
  "server_error use_default reason =
     (new_CallOpParam use_default)\<lparr>prm_statusCode := PJSIP_SC_INTERNAL_SERVER_ERROR, prm_reason := reason\<rparr>"

text \<open>The two \<^verbatim>\<open>catch\<close> clauses that several actions share.\<close>

definition catch_pj :: "exn \<Rightarrow> unit act option" where
  "catch_pj e = (case e of PjError reason \<Rightarrow> Some (internal_error (server_error False reason)) | _ \<Rightarrow> None)"

definition catch_pj_runtime :: "exn \<Rightarrow> unit act option" where
  "catch_pj_runtime e =
     (case e of
        PjError reason \<Rightarrow> Some (internal_error (server_error False reason))
      | RuntimeError what \<Rightarrow> Some (internal_error (server_error False what))
      | _ \<Rightarrow> None)"

section \<open>Events and guards\<close>

datatype gw_event =
    EvUpdateCall td_call
  | EvNewMessage td_message
  | EvIncomingCall int string
  | EvCallState int inv_state
  | EvMediaState int bool
  | EvInternalError string CallOpParam

definition IsIncoming :: "gw_event \<Rightarrow> bool" where
  "IsIncoming e = (case e of EvUpdateCall call \<Rightarrow> \<not> tc_is_outgoing call | _ \<Rightarrow> False)"

definition IsInState :: "call_state_id \<Rightarrow> gw_event \<Rightarrow> bool" where
  "IsInState i e = (case e of EvUpdateCall call \<Rightarrow> call_state_get_id (tc_state call) = i | _ \<Rightarrow> False)"

definition IsSipInState :: "inv_state \<Rightarrow> gw_event \<Rightarrow> bool" where
  "IsSipInState s e = (case e of EvCallState _ t \<Rightarrow> t = s | _ \<Rightarrow> False)"

definition CallbackUriIsSet :: "settings \<Rightarrow> gw_event \<Rightarrow> bool" where
  "CallbackUriIsSet s e \<longleftrightarrow> callback_uri s \<noteq> []"

definition IsMediaReady :: "gw_event \<Rightarrow> bool" where
  "IsMediaReady e = (case e of EvMediaState _ b \<Rightarrow> b | _ \<Rightarrow> False)"

definition message_text :: "gw_event \<Rightarrow> string option" where
  "message_text e = (case e of
     EvNewMessage m \<Rightarrow> (case tm_content m of messageText t \<Rightarrow> Some t | _ \<Rightarrow> None)
   | _ \<Rightarrow> None)"

definition IsTextContent :: "gw_event \<Rightarrow> bool" where
  "IsTextContent e \<longleftrightarrow> message_text e \<noteq> None"

text \<open>A full match of \<^verbatim>\<open>^[0-9A-D*#]{1,32}$\<close>.\<close>

definition dtmf_char :: "char \<Rightarrow> bool" where
  "dtmf_char c \<longleftrightarrow> isdigit c \<or> c \<in> set ''ABCD*#''"

definition dtmf_match :: "string \<Rightarrow> bool" where
  "dtmf_match t \<longleftrightarrow> 1 \<le> length t \<and> length t \<le> 32 \<and> list_all dtmf_char t"

definition IsDtmfString :: "gw_event \<Rightarrow> bool" where
  "IsDtmfString e = (case message_text e of Some t \<Rightarrow> dtmf_match t | None \<Rightarrow> False)"

section \<open>Storing and cleaning\<close>

definition StoreSipId :: "gw_event \<Rightarrow> unit act" where
  "StoreSipId e = (case e of EvIncomingCall i _ \<Rightarrow> put_ctx (\<lambda>c. c\<lparr>sip_call_id := i\<rparr>) | _ \<Rightarrow> returnM ())"

definition StoreTgId :: "gw_event \<Rightarrow> unit act" where
  "StoreTgId e = (case e of EvUpdateCall call \<Rightarrow> put_ctx (\<lambda>c. c\<lparr>tg_call_id := tc_id call\<rparr>) | _ \<Rightarrow> returnM ())"

definition StoreTgUserId :: "gw_event \<Rightarrow> unit act" where
  "StoreTgUserId e = (case e of EvUpdateCall call \<Rightarrow> put_ctx (\<lambda>c. c\<lparr>user_id := tc_user_id call\<rparr>) | _ \<Rightarrow> returnM ())"

definition CleanTgId :: "gw_event \<Rightarrow> unit act" where
  "CleanTgId e = put_ctx (\<lambda>c. c\<lparr>tg_call_id := 0\<rparr>)"

definition CleanSipId :: "gw_event \<Rightarrow> unit act" where
  "CleanSipId e = put_ctx (\<lambda>c. c\<lparr>sip_call_id := PJSUA_INVALID_ID\<rparr>)"

definition SetHangupPrm :: "gw_event \<Rightarrow> unit act" where
  "SetHangupPrm e = (case e of EvInternalError _ prm \<Rightarrow> put_ctx (\<lambda>c. c\<lparr>hangup_prm := prm\<rparr>) | _ \<Rightarrow> returnM ())"

definition CleanUp :: "env \<Rightarrow> unit act" where
  "CleanUp env =
     bindM (get_ctx ctx_controller) (\<lambda>ctl.
     thenM (case ctl of Some a \<Rightarrow> rtM (Stop (e_ntg env) a) | None \<Rightarrow> returnM ())
     (bindM (get_ctx tg_call_id) (\<lambda>tg.
      thenM (whenM (tg \<noteq> 0)
              (thenM (bindM (tgM (td_get (e_td env) (discardCall tg False [] 0 False tg))) (\<lambda>result. returnM ()))
                (put_ctx (\<lambda>c. c\<lparr>tg_call_id := 0\<rparr>))))
      (bindM (get_ctx sip_call_id) (\<lambda>sip.
       bindM (get_ctx hangup_prm) (\<lambda>prm.
       whenM (sip \<noteq> PJSUA_INVALID_ID)
         (thenM (tryM (sipM (Hangup (e_pj env) sip prm))
                  (\<lambda>e. case e of PjError reason \<Rightarrow> Some (returnM ()) | _ \<Rightarrow> None))
           (put_ctx (\<lambda>c. c\<lparr>sip_call_id := PJSUA_INVALID_ID\<rparr>)))))))))"

section \<open>The actions of a call from Telegram\<close>

definition dial_headers :: "string \<Rightarrow> int \<Rightarrow> td_user \<Rightarrow> (string \<times> string) list" where
  "dial_headers cid tg_user_id user =
     [(''X-GW-Context'', cid), (''X-TG-ID'', to_string tg_user_id)]
     @ (if tu_first_name user \<noteq> [] then [(''X-TG-FirstName'', tu_first_name user)] else [])
     @ (if tu_last_name user \<noteq> [] then [(''X-TG-LastName'', tu_last_name user)] else [])
     @ (case tu_usernames user of Some u \<Rightarrow> if u \<noteq> [] then [(''X-TG-Username'', u)] else [] | None \<Rightarrow> [])
     @ (if tu_phone_number user \<noteq> [] then [(''X-TG-Phone'', tu_phone_number user)] else [])"

definition DialSip :: "env \<Rightarrow> gw_event \<Rightarrow> unit act" where
  "DialSip env e = (case e of
     EvUpdateCall call \<Rightarrow>
       bindM (tgM (td_get (e_td env) (getUser (tc_user_id call)))) (\<lambda>response.
         case response of
           td_error _ message \<Rightarrow> throwM (RuntimeError message)
         | td_user_object user \<Rightarrow>
             bindM (get_ctx ctx_id) (\<lambda>cid.
             tryM
               (bindM (sipM (Dial (e_pj env) (callback_uri (e_settings env))
                         ((new_CallOpParam True)\<lparr>prm_headers := dial_headers cid (tc_user_id call) user\<rparr>)))
                 (\<lambda>i. put_ctx (\<lambda>c. c\<lparr>sip_call_id := i\<rparr>)))
               catch_pj)
         | _ \<Rightarrow> throwM (Undefined ''bad cast''))
   | _ \<Rightarrow> returnM ())"

definition protocol :: "env \<Rightarrow> call_protocol" where
  "protocol env =
     \<lparr>cp_udp_p2p = udp_p2p (e_settings env), cp_udp_reflector = udp_reflector (e_settings env),
      cp_min_layer = GetConnectionMinLayer (e_ntg env), cp_max_layer = GetConnectionMaxLayer (e_ntg env),
      cp_library_versions = Versions\<rparr>"

definition error_text :: "int \<Rightarrow> string \<Rightarrow> string" where
  "error_text err_code message = to_string err_code @ ''; '' @ message"

definition AnswerTg :: "env \<Rightarrow> gw_event \<Rightarrow> unit act" where
  "AnswerTg env e =
     bindM (get_ctx tg_call_id) (\<lambda>tg.
     bindM (tgM (td_get (e_td env) (acceptCall tg (protocol env)))) (\<lambda>response.
       case response of
         td_error err_code message \<Rightarrow> internal_error (server_error False (error_text err_code message))
       | _ \<Rightarrow> returnM ()))"

section \<open>The actions of a call from SIP\<close>

definition ext_target :: "string \<Rightarrow> (ctx \<Rightarrow> ctx) option" where
  "ext_target ext =
     (if length ext > 3 \<and> take 3 ext = ''tg#'' then Some (\<lambda>c. c\<lparr>ext_username := drop 3 ext\<rparr>)
      else if length ext > 1 \<and> hd ext = CHR ''+'' \<and> is_digits (drop 1 ext) then Some (\<lambda>c. c\<lparr>ext_phone := drop 1 ext\<rparr>)
      else if is_digits ext then
        (case stol ext of
           Inl InvalidArgument \<Rightarrow> None
         | Inl OutOfRange \<Rightarrow> None
         | Inl _ \<Rightarrow> None
         | Inr v \<Rightarrow> Some (\<lambda>c. c\<lparr>user_id := v\<rparr>))
      else None)"

definition AcceptIncomingSip :: "env \<Rightarrow> gw_event \<Rightarrow> unit act" where
  "AcceptIncomingSip env e = (case e of
     EvIncomingCall _ ext \<Rightarrow>
       (case ext_target ext of
          Some f \<Rightarrow>
            thenM (put_ctx f)
            (bindM (get_ctx sip_call_id) (\<lambda>i.
             tryM (sipM (Answer (e_pj env) i ((new_CallOpParam True)\<lparr>prm_statusCode := PJSIP_SC_RINGING\<rparr>)))
               catch_pj_runtime))
        | None \<Rightarrow> internal_error ((new_CallOpParam False)\<lparr>prm_statusCode := PJSIP_SC_BAD_EXTENSION\<rparr>))
   | _ \<Rightarrow> returnM ())"

definition AnswerSip :: "env \<Rightarrow> gw_event \<Rightarrow> unit act" where
  "AnswerSip env e =
     bindM (get_ctx sip_call_id) (\<lambda>i.
     tryM (sipM (Answer (e_pj env) i ((new_CallOpParam True)\<lparr>prm_statusCode := PJSIP_SC_OK\<rparr>)))
       catch_pj_runtime)"

section \<open>The call itself\<close>

definition rtc_server :: "call_server \<Rightarrow> RtcServer option" where
  "rtc_server server =
     (case cs_type server of
        callServerTypeTelegramReflector peer_tag \<Rightarrow>
          Some \<lparr>rs_id = word_of_int (cs_id server), rs_ipv4 = cs_ip_address server, rs_ipv6 = cs_ipv6_address server,
            rs_username = [], rs_password = [], rs_port = word_of_int (cs_port server),
            rs_turn = False, rs_stun = False, rs_tcp = False, rs_peer_tag = peer_tag\<rparr>
      | callServerTypeWebrtc username password supports_turn supports_stun \<Rightarrow>
          if \<not> supports_turn \<and> \<not> supports_stun then None
          else Some \<lparr>rs_id = word_of_int (cs_id server), rs_ipv4 = cs_ip_address server, rs_ipv6 = cs_ipv6_address server,
            rs_username = username, rs_password = password, rs_port = word_of_int (cs_port server),
            rs_turn = supports_turn, rs_stun = supports_stun, rs_tcp = False, rs_peer_tag = []\<rparr>)"

text \<open>
  \<^verbatim>\<open>std::make_shared\<close> of a controller: the constructors of its two ports register them with
  pjsip, which may refuse, before its body runs and the object exists. When the second is refused, the
  destructor of the first takes it off the bridge again, which cannot fail.
\<close>

definition register_ports :: "env \<Rightarrow> controller \<Rightarrow> unit act" where
  "register_ports env k =
     thenM (sipM (pj (e_pj env) (pj_registerMediaPort (pi_name (in_info (ct_audio_input k))))))
       (sipM (pj (e_pj env) (pj_registerMediaPort (pi_name (out_info (ct_audio_output k))))))"

definition new_controller :: "env \<Rightarrow> controller \<Rightarrow> nat act" where
  "new_controller env k = thenM (register_ports env k) (rtM (make_controller k))"

text \<open>
  \<^verbatim>\<open>CreateTgVoip\<close>: the key is copied with a fixed length of 256 bytes; a key that is shorter is
  read past its end. Nothing here catches an exception. A controller that the context held before is
  destroyed by the assignment.
\<close>

definition CreateTgVoip :: "env \<Rightarrow> gw_event \<Rightarrow> unit act" where
  "CreateTgVoip env e = (case e of
     EvUpdateCall call \<Rightarrow>
       (case tc_state call of
          callStateReady servers key \<Rightarrow>
            if length key < 256 then throwM (Undefined ''short key'')
            else
              bindM (get_ctx id) (\<lambda>c.
              bindM (new_controller env (TgCallsController (user_id c) (take 256 key) (tc_is_outgoing call)
                       (List.map_filter rtc_server servers) (udp_p2p (e_settings env)) (Some (ctx_id c)))) (\<lambda>a.
              thenM (rtM (Start (e_ntg env) a))
              (thenM (case ctx_controller c of Some old \<Rightarrow> rtM (destroy_controller (e_ntg env) old) | None \<Rightarrow> returnM ())
                (put_ctx (\<lambda>c. c\<lparr>ctx_controller := Some a\<rparr>)))))
        | _ \<Rightarrow> throwM (Undefined ''bad cast''))
   | _ \<Rightarrow> returnM ())"

definition BridgeAudio :: "env \<Rightarrow> gw_event \<Rightarrow> unit act" where
  "BridgeAudio env e =
     bindM (get_ctx ctx_controller) (\<lambda>ctl.
     case ctl of
       None \<Rightarrow> throwM (Undefined ''null controller'')
     | Some a \<Rightarrow>
         bindM (get_ctx sip_call_id) (\<lambda>i.
         tryM (sipM (SipBridgeAudio (e_pj env) i (TgInput a) (TgOutput a))) catch_pj_runtime))"

definition DialDtmf :: "env \<Rightarrow> gw_event \<Rightarrow> unit act" where
  "DialDtmf env e =
     (case message_text e of
        Some text \<Rightarrow>
          bindM (get_ctx sip_call_id) (\<lambda>i.
          tryM (sipM (SipDialDtmf (e_pj env) i text))
            (\<lambda>e. case e of PjError reason \<Rightarrow> Some (returnM ()) | _ \<Rightarrow> None))
      | None \<Rightarrow> throwM (Undefined ''bad cast''))"


section \<open>Dialing Telegram\<close>

text \<open>
  The first match of \<^verbatim>\<open>Too Many Requests: retry after (\d+)\<close> in a message: the digits it
  captures, as many as there are.
\<close>

fun retry_after :: "string \<Rightarrow> string option" where
  "retry_after [] = None"
| "retry_after (c # cs) =
     (let pat = ''Too Many Requests: retry after '';
          rest = drop (length pat) (c # cs)
      in if take (length pat) (c # cs) = pat \<and> takeWhile isdigit rest \<noteq> []
         then Some (takeWhile isdigit rest)
         else retry_after cs)"

definition seconds :: "32 word \<Rightarrow> int" where
  "seconds n = uint n * 1000000000"

text \<open>\<^verbatim>\<open>duration_cast\<close> from nanoseconds to seconds truncates towards zero.\<close>

definition to_seconds :: "int \<Rightarrow> int" where
  "to_seconds ns = (if ns \<ge> 0 then ns div 1000000000 else - ((- ns) div 1000000000))"

text \<open>
  The wait is an \<^verbatim>\<open>int\<close> plus an \<^verbatim>\<open>unsigned\<close>, so the sum is taken modulo \<open>2 ^ 32\<close>.
\<close>

definition parse_error :: "env \<Rightarrow> string \<Rightarrow> unit act" where
  "parse_error env message =
     (case retry_after message of
        Some digits \<Rightarrow>
          (case stoi digits of
             Inl ex \<Rightarrow> throwM ex
           | Inr n \<Rightarrow>
               bindM (now env) (\<lambda>t.
                 put_world (\<lambda>w. w\<lparr>w_block_until := t + seconds (word_of_int n + extra_wait_time (e_settings env))\<rparr>)))
      | None \<Rightarrow>
          whenM (search ''PEER_FLOOD'' message)
            (bindM (now env) (\<lambda>t.
               put_world (\<lambda>w. w\<lparr>w_block_until := t + seconds (peer_flood_time (e_settings env))\<rparr>))))"

text \<open>The handling of an error reply that the three ways of dialing share.\<close>

definition dial_failed :: "env \<Rightarrow> int \<Rightarrow> string \<Rightarrow> unit act" where
  "dial_failed env err_code message =
     thenM (internal_error (server_error True (error_text err_code message))) (parse_error env message)"

definition dial_by_id :: "env \<Rightarrow> int \<Rightarrow> unit act" where
  "dial_by_id env i =
     thenM (put_ctx (\<lambda>c. c\<lparr>user_id := i\<rparr>))
     (bindM (tgM (td_get (e_td env) (createCall i (protocol env) False))) (\<lambda>response.
        case response of
          td_error err_code message \<Rightarrow> dial_failed env err_code message
        | td_callId call_id \<Rightarrow> put_ctx (\<lambda>c. c\<lparr>tg_call_id := call_id\<rparr>)
        | _ \<Rightarrow> throwM (Undefined ''bad cast'')))"

definition dial_by_phone :: "env \<Rightarrow> unit act" where
  "dial_by_phone env =
     bindM (get_ctx ext_phone) (\<lambda>phone.
     bindM (get_world (\<lambda>w. phone_cache (w_cache w) phone)) (\<lambda>cached.
     case cached of
       Some i \<Rightarrow> dial_by_id env i
     | None \<Rightarrow>
         bindM (tgM (td_get (e_td env) (importContacts [\<lparr>ic_phone_number = phone, ic_first_name = phone\<rparr>]))) (\<lambda>response.
           case response of
             td_error err_code message \<Rightarrow> dial_failed env err_code message
           | td_importedContacts user_ids \<Rightarrow>
               (case user_ids of
                  [] \<Rightarrow> throwM (Undefined ''empty vector'')
                | uid # _ \<Rightarrow>
                    if uid = 0
                    then internal_error ((new_CallOpParam True)
                           \<lparr>prm_statusCode := PJSIP_SC_NOT_FOUND, prm_reason := ''not registered in telegram''\<rparr>)
                    else
                      thenM (put_world (\<lambda>w. w\<lparr>w_cache := (w_cache w)
                               \<lparr>phone_cache := map_emplace phone uid (phone_cache (w_cache w))\<rparr>\<rparr>))
                        (dial_by_id env uid))
           | _ \<Rightarrow> throwM (Undefined ''bad cast''))))"

definition dial_by_username :: "env \<Rightarrow> unit act" where
  "dial_by_username env =
     bindM (get_ctx ext_username) (\<lambda>name.
     bindM (get_world (\<lambda>w. username_cache (w_cache w) name)) (\<lambda>cached.
     case cached of
       Some i \<Rightarrow> dial_by_id env i
     | None \<Rightarrow>
         bindM (tgM (td_get (e_td env) (searchPublicChat name))) (\<lambda>response.
           case response of
             td_error err_code message \<Rightarrow> dial_failed env err_code message
           | td_chat i type \<Rightarrow>
               (case type of
                  chatTypePrivate _ \<Rightarrow>
                    thenM (put_world (\<lambda>w. w\<lparr>w_cache := (w_cache w)
                             \<lparr>username_cache := map_emplace name i (username_cache (w_cache w))\<rparr>\<rparr>))
                      (dial_by_id env i)
                | chatTypeOther \<Rightarrow> internal_error (server_error True ''not a user''))
           | _ \<Rightarrow> throwM (Undefined ''bad cast''))))"

definition DialTg :: "env \<Rightarrow> gw_event \<Rightarrow> unit act" where
  "DialTg env e =
     bindM (now env) (\<lambda>t.
     bindM (get_world w_block_until) (\<lambda>block_until.
     if block_until > t then
       bindM (now env) (\<lambda>t'.
         internal_error (server_error False (''FLOOD_WAIT '' @ to_string (to_seconds (block_until - t')))))
     else
       bindM (get_ctx id) (\<lambda>c.
         if ext_username c \<noteq> [] then dial_by_username env
         else if ext_phone c \<noteq> [] then dial_by_phone env
         else dial_by_id env (user_id c))))"

section \<open>Running actions\<close>

text \<open>Equations that execute the building blocks on a context and a world.\<close>

lemma act_simps:
  "sipM m (c, w) = (case m (w_sip w) of (r, s) \<Rightarrow> (r, (c, w\<lparr>w_sip := s\<rparr>)))"
  "tgM n (c, w) = (case n (w_tg w) of (r, s) \<Rightarrow> (r, (c, w\<lparr>w_tg := s\<rparr>)))"
  "rtM k (c, w) = (case k (w_rt w) of (r, s) \<Rightarrow> (r, (c, w\<lparr>w_rt := s\<rparr>)))"
  "get_ctx f (c, w) = (Inr (f c), (c, w))" "put_ctx g (c, w) = (Inr (), (g c, w))"
  "get_world h (c, w) = (Inr (h w), (c, w))" "put_world j (c, w) = (Inr (), (c, j w))"
  by (simp_all add: sipM_def tgM_def rtM_def get_ctx_def put_ctx_def get_world_def put_world_def prog_simps
      split: prod.splits)

lemma internal_error_eq:
  "internal_error prm (c, w) =
     (Inr (), (c, w\<lparr>w_internal := emplace (Some (InternalError (ctx_id c) prm)) (w_internal w)\<rparr>))"
  by (simp add: internal_error_def bindM_def act_simps)

text \<open>Registering the ports of a new controller touches only the SIP library.\<close>

lemma register_ports_eq:
  "register_ports env (TgCallsController u k g ss p cb) (c, w) =
     (let inp = pj_registerMediaPort ''voip-input''; out = pj_registerMediaPort ''voip-output''; s = w_sip w
      in case pj_error (e_pj env) (pj_ops s) inp of
           Some r \<Rightarrow> (Inl (PjError r), (c, w\<lparr>w_sip := s\<lparr>pj_ops := pj_ops s @ [inp]\<rparr>\<rparr>))
         | None \<Rightarrow> (case pj_error (e_pj env) (pj_ops s @ [inp]) out of Some r \<Rightarrow> Inl (PjError r) | None \<Rightarrow> Inr (),
             (c, w\<lparr>w_sip := s\<lparr>pj_ops := pj_ops s @ [inp, out]\<rparr>\<rparr>)))"
  by (simp add: register_ports_def thenM_def bindM_def act_simps pj_eq Let_def TgCallsController_def
      new_SoftwareAudioInput_def new_SoftwareAudioOutput_def split: option.split)

lemma register_ports_world:
  "\<exists>r h. register_ports env (TgCallsController u k g ss p cb) (c, w) = (r, (c, w\<lparr>w_sip := (w_sip w)\<lparr>pj_ops := h\<rparr>\<rparr>))"
  by (simp add: register_ports_eq Let_def split: option.split) blast

lemma now_eq: "now env (c, w) = (Inr (e_clock env (w_readings w)), (c, w\<lparr>w_readings := Suc (w_readings w)\<rparr>))"
  by (simp add: now_def thenM_def bindM_def act_simps returnM_def)

end
