(* ===== verification/Gateway.thy ===== *)
theory Gateway
  imports Gateway_Actions
begin

text \<open>
  The gateway of \<^verbatim>\<open>tg2sip/gateway.cpp\<close>: the three transition tables, the bridges (one per
  call, each a state machine with its context), the dispatch of events to bridges, the contact
  cache and the main loop. An exception that leaves a state machine, a destructor or the main
  loop ends the process: a thrown outcome.
\<close>

section \<open>Transition tables\<close>

datatype main_state = S_init | S_from_tg | S_from_sip | S_X

datatype sub_state = sip_wait_media | wait_tg | wait_dtmf | sip_wait_confirm

fun is_updateCall :: "gw_event \<Rightarrow> bool" where
  "is_updateCall (EvUpdateCall _) = True" | "is_updateCall _ = False"

fun is_updateNewMessage :: "gw_event \<Rightarrow> bool" where
  "is_updateNewMessage (EvNewMessage _) = True" | "is_updateNewMessage _ = False"

fun is_IncomingCall :: "gw_event \<Rightarrow> bool" where
  "is_IncomingCall (EvIncomingCall _ _) = True" | "is_IncomingCall _ = False"

fun is_CallStateUpdate :: "gw_event \<Rightarrow> bool" where
  "is_CallStateUpdate (EvCallState _ _) = True" | "is_CallStateUpdate _ = False"

fun is_CallMediaStateUpdate :: "gw_event \<Rightarrow> bool" where
  "is_CallMediaStateUpdate (EvMediaState _ _) = True" | "is_CallMediaStateUpdate _ = False"

fun is_InternalError :: "gw_event \<Rightarrow> bool" where
  "is_InternalError (EvInternalError _ _) = True" | "is_InternalError _ = False"

type_synonym 's row = "('s, gw_event, ctx \<times> world) transition"

definition row :: "'s \<Rightarrow> (gw_event \<Rightarrow> bool) \<Rightarrow> (gw_event \<Rightarrow> bool) \<Rightarrow> (gw_event \<Rightarrow> unit act) \<Rightarrow> 's \<Rightarrow> 's row" where
  "row src ev g a dst = \<lparr>t_src = src, t_event = ev, t_guard = g, t_action = a, t_dst = dst\<rparr>"

definition from_tg :: "env \<Rightarrow> sub_state row list" where
  "from_tg env =
     [row sip_wait_media is_CallMediaStateUpdate IsMediaReady (AnswerTg env) wait_tg,
      row wait_tg is_updateCall (IsInState callStateReady_ID) (sml_seq (CreateTgVoip env) (BridgeAudio env)) wait_dtmf,
      row wait_dtmf is_updateNewMessage (sml_and IsTextContent IsDtmfString) (DialDtmf env) wait_dtmf]"

definition from_sip :: "env \<Rightarrow> sub_state row list" where
  "from_sip env =
     [row sip_wait_confirm is_CallStateUpdate (IsSipInState PJSIP_INV_STATE_EARLY) (DialTg env) wait_tg,
      row wait_tg is_updateCall (IsInState callStateReady_ID)
        (sml_seq StoreTgUserId (sml_seq (CreateTgVoip env) (AnswerSip env))) sip_wait_media,
      row sip_wait_media is_CallMediaStateUpdate IsMediaReady (BridgeAudio env) wait_dtmf,
      row wait_dtmf is_updateNewMessage (sml_and IsTextContent IsDtmfString) (DialDtmf env) wait_dtmf]"

definition StateMachine :: "env \<Rightarrow> main_state row list" where
  "StateMachine env =
     [row S_init is_updateCall
        (sml_and (sml_and IsIncoming (IsInState callStatePending_ID)) (CallbackUriIsSet (e_settings env)))
        (sml_seq StoreTgId (sml_seq StoreTgUserId (DialSip env))) S_from_tg,
      row S_init is_updateCall
        (sml_and (sml_and IsIncoming (IsInState callStatePending_ID)) (sml_not (CallbackUriIsSet (e_settings env))))
        StoreTgId S_X,
      row S_init is_updateCall sml_always sml_none S_X,
      row S_init is_IncomingCall sml_always (sml_seq StoreSipId (AcceptIncomingSip env)) S_from_sip,
      row S_init is_CallStateUpdate sml_always sml_none S_X,
      row S_init is_CallMediaStateUpdate sml_always sml_none S_X,
      row S_from_tg is_updateCall (sml_or (IsInState callStateDiscarded_ID) (IsInState callStateError_ID)) CleanTgId S_X,
      row S_from_tg is_CallStateUpdate (IsSipInState PJSIP_INV_STATE_DISCONNECTED) CleanSipId S_X,
      row S_from_tg is_InternalError sml_always SetHangupPrm S_X,
      row S_from_sip is_updateCall (sml_or (IsInState callStateDiscarded_ID) (IsInState callStateError_ID)) CleanTgId S_X,
      row S_from_sip is_InternalError sml_always SetHangupPrm S_X,
      row S_from_sip is_CallStateUpdate (IsSipInState PJSIP_INV_STATE_DISCONNECTED) CleanSipId S_X]"

definition sub_tables :: "env \<Rightarrow> main_state \<Rightarrow> (sub_state row list \<times> sub_state) option" where
  "sub_tables env m = (case m of
     S_from_tg \<Rightarrow> Some (from_tg env, sip_wait_media)
   | S_from_sip \<Rightarrow> Some (from_sip env, sip_wait_confirm)
   | _ \<Rightarrow> None)"

definition machine :: "env \<Rightarrow> (main_state, sub_state, gw_event, ctx \<times> world) machine" where
  "machine env =
     \<lparr>mc_table = StateMachine env, mc_init = S_init, mc_sub = sub_tables env,
      mc_entry = (\<lambda>m. if m = S_X then CleanUp env else returnM ()), mc_default = sip_wait_media\<rparr>"

section \<open>Bridges\<close>

record bridge =
  br_sm :: "(main_state, sub_state) sm"
  br_ctx :: ctx

record gateway =
  gw_bridges :: "bridge list"
  gw_world :: world
  gw_ctx_counter :: int

type_synonym 'a gwp = "(gateway, 'a) prog"

definition ctx_name :: "env \<Rightarrow> int \<Rightarrow> string" where
  "ctx_name env n = to_string (e_pid env) @ ''-'' @ to_string n"

definition new_Context :: "string \<Rightarrow> ctx" where
  "new_Context i = \<lparr>ctx_id = i, sip_call_id = PJSUA_INVALID_ID, tg_call_id = 0, ctx_controller = None,
     ext_phone = [], ext_username = [], user_id = 0, hangup_prm = new_CallOpParam False\<rparr>"

definition next_ctx_id :: "env \<Rightarrow> string gwp" where
  "next_ctx_id env =
     thenM (modifyM (\<lambda>g. g\<lparr>gw_ctx_counter := gw_ctx_counter g + 1\<rparr>)) (getM (\<lambda>g. ctx_name env (gw_ctx_counter g)))"

definition search_call :: "env \<Rightarrow> (ctx \<Rightarrow> bool) \<Rightarrow> nat gwp" where
  "search_call env predicate =
     bindM (getM gw_bridges) (\<lambda>bs.
       case find_if (predicate \<circ> br_ctx) bs of
         Some i \<Rightarrow> returnM i
       | None \<Rightarrow>
           bindM (next_ctx_id env) (\<lambda>i.
           thenM (modifyM (\<lambda>g. g\<lparr>gw_bridges := gw_bridges g @ [\<lparr>br_sm = new_sm (machine env), br_ctx = new_Context i\<rparr>]\<rparr>))
             (returnM (length bs))))"

text \<open>\<^verbatim>\<open>(*iter)->sm->process_event(event)\<close> for the bridge at a position.\<close>

definition bridge_event :: "env \<Rightarrow> nat \<Rightarrow> gw_event \<Rightarrow> unit gwp" where
  "bridge_event env i e g =
     (let b = gw_bridges g ! i
      in case sm_process_event (machine env) (br_sm b) e (br_ctx b, gw_world g) of
          (Inl x, (c, w)) \<Rightarrow> (Inl x, g\<lparr>gw_bridges := (gw_bridges g)[i := b\<lparr>br_ctx := c\<rparr>], gw_world := w\<rparr>)
        | (Inr s, (c, w)) \<Rightarrow> (Inr (), g\<lparr>gw_bridges := (gw_bridges g)[i := \<lparr>br_sm = s, br_ctx = c\<rparr>], gw_world := w\<rparr>))"

text \<open>\<^verbatim>\<open>delete *iter; bridges.erase(iter)\<close>: the context's controller is destroyed with it.\<close>

definition delete_bridge :: "env \<Rightarrow> nat \<Rightarrow> unit gwp" where
  "delete_bridge env i =
     bindM (getM (\<lambda>g. br_ctx (gw_bridges g ! i))) (\<lambda>c.
     thenM (case ctx_controller c of
              Some a \<Rightarrow> liftM (\<lambda>g. w_rt (gw_world g)) (\<lambda>r g. g\<lparr>gw_world := (gw_world g)\<lparr>w_rt := r\<rparr>\<rparr>)
                          (destroy_controller (e_ntg env) a)
            | None \<Rightarrow> returnM ())
       (modifyM (\<lambda>g. g\<lparr>gw_bridges := erase_at i (gw_bridges g)\<rparr>)))"

definition dispatch :: "env \<Rightarrow> nat \<Rightarrow> gw_event \<Rightarrow> unit gwp" where
  "dispatch env i e =
     thenM (bridge_event env i e)
       (bindM (getM (\<lambda>g. sm_is (br_sm (gw_bridges g ! i)) S_X)) (\<lambda>finished.
          whenM finished (delete_bridge env i)))"

section \<open>Event handlers\<close>

definition process_updateCall :: "env \<Rightarrow> td_call \<Rightarrow> unit gwp" where
  "process_updateCall env call =
     bindM (search_call env (\<lambda>c. tg_call_id c = tc_id call)) (\<lambda>i. dispatch env i (EvUpdateCall call))"

text \<open>The positions of the bridges for the sender of a message.\<close>

definition message_matches :: "int \<Rightarrow> bridge list \<Rightarrow> nat list" where
  "message_matches uid bs = filter (\<lambda>i. user_id (br_ctx (bs ! i)) = uid) [0..<length bs]"

definition process_updateNewMessage :: "env \<Rightarrow> td_message \<Rightarrow> unit gwp" where
  "process_updateNewMessage env m =
     (case tm_sender_id m of
        messageSenderChat _ \<Rightarrow> returnM ()
      | messageSenderUser uid \<Rightarrow>
          bindM (getM gw_bridges) (\<lambda>bs.
            case message_matches uid bs of
              [i] \<Rightarrow> bridge_event env i (EvNewMessage m)
            | _ \<Rightarrow> returnM ()))"

definition process_InternalError :: "env \<Rightarrow> string \<Rightarrow> CallOpParam \<Rightarrow> unit gwp" where
  "process_InternalError env cid prm =
     bindM (getM gw_bridges) (\<lambda>bs.
       case find_if (\<lambda>b. ctx_id (br_ctx b) = cid) bs of
         None \<Rightarrow> returnM ()
       | Some i \<Rightarrow> dispatch env i (EvInternalError cid prm))"

definition gw_tg :: "(tg_client, 'a) prog \<Rightarrow> 'a gwp" where
  "gw_tg m = liftM (\<lambda>g. w_tg (gw_world g)) (\<lambda>t g. g\<lparr>gw_world := (gw_world g)\<lparr>w_tg := t\<rparr>\<rparr>) m"

definition gw_rt :: "(rt_world, 'a) prog \<Rightarrow> 'a gwp" where
  "gw_rt m = liftM (\<lambda>g. w_rt (gw_world g)) (\<lambda>r g. g\<lparr>gw_world := (gw_world g)\<lparr>w_rt := r\<rparr>\<rparr>) m"

definition gw_sip :: "(sip_client, 'a) prog \<Rightarrow> 'a gwp" where
  "gw_sip m = liftM (\<lambda>g. w_sip (gw_world g)) (\<lambda>t g. g\<lparr>gw_world := (gw_world g)\<lparr>w_sip := t\<rparr>\<rparr>) m"

definition process_SignalingDataEmitted :: "env \<Rightarrow> string \<Rightarrow> byte list \<Rightarrow> unit gwp" where
  "process_SignalingDataEmitted env cid data =
     bindM (getM gw_bridges) (\<lambda>bs.
       case find_if (\<lambda>b. ctx_id (br_ctx b) = cid) bs of
         None \<Rightarrow> returnM ()
       | Some i \<Rightarrow>
           if ctx_controller (br_ctx (bs ! i)) = None then returnM ()
           else bindM (gw_tg (send_query_async False
                  (sendCallSignalingData (tg_call_id (br_ctx (bs ! i))) (string_of_bytes data)))) (\<lambda>_. returnM ()))"

definition process_updateNewCallSignalingData :: "env \<Rightarrow> int \<Rightarrow> string \<Rightarrow> unit gwp" where
  "process_updateNewCallSignalingData env call_id raw =
     bindM (getM gw_bridges) (\<lambda>bs.
       case find_if (\<lambda>b. tg_call_id (br_ctx b) = call_id) bs of
         None \<Rightarrow> returnM ()
       | Some i \<Rightarrow>
           (case ctx_controller (br_ctx (bs ! i)) of
              None \<Rightarrow> returnM ()
            | Some a \<Rightarrow> gw_rt (UpdateSignaling (e_ntg env) a (bytes_of_string raw))))"

fun sip_event_id :: "sip_event \<Rightarrow> int" where
  "sip_event_id (IncomingCall i _) = i"
| "sip_event_id (CallStateUpdate i _) = i"
| "sip_event_id (CallMediaStateUpdate i _) = i"

fun gw_event_of_sip :: "sip_event \<Rightarrow> gw_event" where
  "gw_event_of_sip (IncomingCall i ext) = EvIncomingCall i ext"
| "gw_event_of_sip (CallStateUpdate i s) = EvCallState i s"
| "gw_event_of_sip (CallMediaStateUpdate i b) = EvMediaState i b"

definition process_sip_event :: "env \<Rightarrow> sip_event \<Rightarrow> unit gwp" where
  "process_sip_event env e =
     bindM (search_call env (\<lambda>c. sip_call_id c = sip_event_id e)) (\<lambda>i. dispatch env i (gw_event_of_sip e))"

section \<open>The contact cache\<close>

fun send_all :: "int list \<Rightarrow> nat list gwp" where
  "send_all [] = returnM []"
| "send_all (i # is) =
     bindM (gw_tg (send_query_async False (getUser i))) (\<lambda>p.
     bindM (send_all is) (\<lambda>ps. returnM (p # ps)))"

definition cache_user :: "td_user \<Rightarrow> cache \<Rightarrow> cache" where
  "cache_user user ca =
     (let ca = (case tu_usernames user of
                  Some u \<Rightarrow> if u \<noteq> [] then ca\<lparr>username_cache := map_emplace u (tu_id user) (username_cache ca)\<rparr> else ca
                | None \<Rightarrow> ca)
      in if tu_phone_number user \<noteq> [] then ca\<lparr>phone_cache := map_emplace (tu_phone_number user) (tu_id user) (phone_cache ca)\<rparr>
         else ca)"

fun read_all :: "nat list \<Rightarrow> unit gwp" where
  "read_all [] = returnM ()"
| "read_all (p # ps) =
     bindM (gw_tg (future_get p)) (\<lambda>response.
       case response of
         td_error _ _ \<Rightarrow> read_all ps
       | td_user_object user \<Rightarrow>
           if \<not> tu_have_access user then returnM ()
           else thenM (modifyM (\<lambda>g. g\<lparr>gw_world := (gw_world g)\<lparr>w_cache := cache_user user (w_cache (gw_world g))\<rparr>\<rparr>))
                  (read_all ps)
       | _ \<Rightarrow> throwM (Undefined ''bad cast''))"

text \<open>
  \<^verbatim>\<open>load_cache\<close>: the queries for all users are sent first; meanwhile the client thread handles
  the responses \<open>rs\<close>, and then the futures are read in the order of the users.
\<close>

definition load_cache :: "env \<Rightarrow> (64 word \<times> td_object option) list \<Rightarrow> unit gwp" where
  "load_cache env rs =
     bindM (gw_tg (td_get (e_td env) (searchContacts [] INT_MAX))) (\<lambda>response.
       case response of
         td_error _ _ \<Rightarrow> returnM ()
       | td_users user_ids \<Rightarrow>
           bindM (send_all user_ids) (\<lambda>ps. thenM (gw_tg (tg_loop rs)) (read_all ps))
       | _ \<Rightarrow> throwM (Undefined ''bad cast''))"

section \<open>The main loop\<close>

definition pop_internal :: "internal_event option gwp" where
  "pop_internal = bindM (getM (\<lambda>g. queue_pop (w_internal (gw_world g)))) (\<lambda>(e, q).
     thenM (modifyM (\<lambda>g. g\<lparr>gw_world := (gw_world g)\<lparr>w_internal := q\<rparr>\<rparr>)) (returnM e))"

definition pop_tg :: "td_object option gwp" where
  "pop_tg = bindM (getM (\<lambda>g. queue_pop (tg_events (w_tg (gw_world g))))) (\<lambda>(e, q).
     thenM (modifyM (\<lambda>g. g\<lparr>gw_world := (gw_world g)\<lparr>w_tg := (w_tg (gw_world g))\<lparr>tg_events := q\<rparr>\<rparr>\<rparr>)) (returnM e))"

definition pop_sip :: "sip_event option gwp" where
  "pop_sip = bindM (getM (\<lambda>g. queue_pop (sip_events (w_sip (gw_world g))))) (\<lambda>(e, q).
     thenM (modifyM (\<lambda>g. g\<lparr>gw_world := (gw_world g)\<lparr>w_sip := (w_sip (gw_world g))\<lparr>sip_events := q\<rparr>\<rparr>\<rparr>)) (returnM e))"

definition process_internal :: "env \<Rightarrow> internal_event \<Rightarrow> unit gwp" where
  "process_internal env e = (case e of
     InternalError cid prm \<Rightarrow> process_InternalError env cid prm
   | SignalingDataEmitted cid data \<Rightarrow> process_SignalingDataEmitted env cid data)"

definition process_tg :: "env \<Rightarrow> td_object \<Rightarrow> unit gwp" where
  "process_tg env obj = (case obj of
     updateCall call \<Rightarrow> process_updateCall env call
   | updateNewMessage m \<Rightarrow> process_updateNewMessage env m
   | updateNewCallSignalingData i data \<Rightarrow> process_updateNewCallSignalingData env i data
   | _ \<Rightarrow> returnM ())"

text \<open>One round of the loop of \<^verbatim>\<open>start\<close>; the two readings of the clock only decide the sleep.\<close>

definition tick :: "env \<Rightarrow> unit gwp" where
  "tick env =
     thenM (bindM pop_internal (\<lambda>e. case e of Some x \<Rightarrow> process_internal env x | None \<Rightarrow> returnM ()))
     (thenM (bindM pop_tg (\<lambda>e. case e of Some x \<Rightarrow> process_tg env x | None \<Rightarrow> returnM ()))
       (bindM pop_sip (\<lambda>e. case e of Some x \<Rightarrow> process_sip_event env x | None \<Rightarrow> returnM ())))"

definition new_Gateway :: "env \<Rightarrow> sip_client \<Rightarrow> tg_client \<Rightarrow> rt_world \<Rightarrow> gateway" where
  "new_Gateway env sip tg rt =
     \<lparr>gw_bridges = [],
      gw_world = \<lparr>w_sip = sip, w_tg = tg, w_rt = rt, w_internal = queue_empty,
        w_cache = \<lparr>username_cache = Map.empty, phone_cache = Map.empty\<rparr>, w_block_until = e_clock env 0, w_readings = 1\<rparr>,
      gw_ctx_counter = 0\<rparr>"

text \<open>
  The library's signaling callback, through the runtime, into the gateway's queue of internal
  events.
\<close>

definition signaling_callback :: "int \<Rightarrow> byte list \<Rightarrow> unit gwp" where
  "signaling_callback uid data =
     bindM (gw_rt (SignalingTrampoline OnSignalingData uid data)) (\<lambda>out.
       case out of
         None \<Rightarrow> returnM ()
       | Some (cid, bs) \<Rightarrow> modifyM (\<lambda>g. g\<lparr>gw_world := (gw_world g)
            \<lparr>w_internal := emplace (Some (SignalingDataEmitted cid bs)) (w_internal (gw_world g))\<rparr>\<rparr>))"

text \<open>
  \<^verbatim>\<open>start\<close>: the contacts, then rounds until a signal sets the flag. The list says how often
  the loop goes round and what the other threads do before each round.
\<close>

fun gw_loop :: "env \<Rightarrow> unit gwp list \<Rightarrow> unit gwp" where
  "gw_loop env [] = returnM ()"
| "gw_loop env (a # as) = thenM a (thenM (tick env) (gw_loop env as))"

definition gw_start :: "env \<Rightarrow> (64 word \<times> td_object option) list \<Rightarrow> unit gwp list \<Rightarrow> unit gwp" where
  "gw_start env rs as = thenM (load_cache env rs) (gw_loop env as)"

section \<open>Running the handlers\<close>

lemma search_call_eq:
  "search_call env p g =
     (case find_if (p \<circ> br_ctx) (gw_bridges g) of
        Some i \<Rightarrow> (Inr i, g)
      | None \<Rightarrow> (Inr (length (gw_bridges g)),
          g\<lparr>gw_bridges := gw_bridges g @ [\<lparr>br_sm = new_sm (machine env), br_ctx = new_Context (ctx_name env (gw_ctx_counter g + 1))\<rparr>],
            gw_ctx_counter := gw_ctx_counter g + 1\<rparr>))"
  by (simp add: search_call_def next_ctx_id_def prog_simps split: option.split)

text \<open>An event for which no bridge exists reaches a new one, whose machine is in its initial state.\<close>

abbreviation new_bridge :: "env \<Rightarrow> gateway \<Rightarrow> bridge" where
  "new_bridge env g \<equiv> \<lparr>br_sm = new_sm (machine env), br_ctx = new_Context (ctx_name env (gw_ctx_counter g + 1))\<rparr>"

lemma initial_event:
  "sm_process_event (machine env) (new_sm (machine env)) e = main_process (machine env) (new_sm (machine env)) e"
  by (simp add: sm_process_event_def new_sm_def machine_def sub_tables_def)

lemma dispatch_new:
  "dispatch env (length (gw_bridges g)) e
      (g\<lparr>gw_bridges := gw_bridges g @ [new_bridge env g], gw_ctx_counter := gw_ctx_counter g + 1\<rparr>) =
    (case main_process (machine env) (new_sm (machine env)) e
        (new_Context (ctx_name env (gw_ctx_counter g + 1)), gw_world g) of
       (Inl x, (c, w)) \<Rightarrow> (Inl x, g\<lparr>gw_bridges := gw_bridges g @ [\<lparr>br_sm = new_sm (machine env), br_ctx = c\<rparr>],
          gw_world := w, gw_ctx_counter := gw_ctx_counter g + 1\<rparr>)
     | (Inr s, (c, w)) \<Rightarrow>
         whenM (sm_is s S_X) (delete_bridge env (length (gw_bridges g)))
           (g\<lparr>gw_bridges := gw_bridges g @ [\<lparr>br_sm = s, br_ctx = c\<rparr>],
              gw_world := w, gw_ctx_counter := gw_ctx_counter g + 1\<rparr>))"
  by (cases g) (simp add: dispatch_def bridge_event_def initial_event thenM_def bindM_def getM_def split: prod.split sum.split)

lemma search_dispatch_new:
  assumes "\<forall>b \<in> set (gw_bridges g). \<not> p (br_ctx b)"
  shows "bindM (search_call env p) (\<lambda>i. dispatch env i e) g =
    dispatch env (length (gw_bridges g)) e
      (g\<lparr>gw_bridges := gw_bridges g @ [new_bridge env g], gw_ctx_counter := gw_ctx_counter g + 1\<rparr>)"
proof -
  have "find_if (p \<circ> br_ctx) (gw_bridges g) = None" using assms by (simp add: find_if_None)
  then show ?thesis by (simp add: bindM_def search_call_eq)
qed

end
