(* ===== verification/Gateway_Inv.thy ===== *)
theory Gateway_Inv
  imports Gateway
begin

text \<open>
  The invariant of the gateway: every bridge is in a state of one of the two call machines, it
  owns a controller exactly in the states after the call was set up, the controllers that exist
  are just those the bridges own, and context names are unique. Every event handler keeps it when
  it returns.
\<close>

section \<open>What an action does not touch\<close>

definition rt_frame :: "nat set \<Rightarrow> rt_world \<Rightarrow> bool" where
  "rt_frame D r \<longleftrightarrow> dom (nw_heap r) = D \<and> rt_inv r"

definition frame :: "string \<Rightarrow> nat option \<Rightarrow> nat set \<Rightarrow> ctx \<times> world \<Rightarrow> bool" where
  "frame i ctl D cw \<longleftrightarrow>
     ctx_id (fst cw) = i \<and> ctx_controller (fst cw) = ctl \<and> rt_frame D (w_rt (snd cw))"

lemma keeps_conj: "keeps P m \<Longrightarrow> keeps Q m \<Longrightarrow> keeps (\<lambda>x. P x \<and> Q x) m"
  by (simp add: keeps_def)

lemma keeps_dom_assign [inv_intros]: "keeps (\<lambda>r. dom (nw_heap r) = D) (assign a f)"
  by (rule keeps_assign) auto

lemma keeps_dom_ops [inv_intros]:
  "keeps (\<lambda>r. dom (nw_heap r) = D) (CallBlocking env op)"
  "keeps (\<lambda>r. dom (nw_heap r) = D) (Register u a)" "keeps (\<lambda>r. dom (nw_heap r) = D) (Unregister u)"
  by (auto intro: keeps_CallBlocking simp: Register_def Unregister_def keeps_modify)

lemma keeps_dom_Stop: "keeps (\<lambda>r. dom (nw_heap r) = D) (Stop env a)"
  unfolding Stop_def by (intro inv_intros)

lemma keeps_dom_Start: "keeps (\<lambda>r. dom (nw_heap r) = D) (Start env a)"
  unfolding Start_def go_live_def by (intro inv_intros)

lemma keeps_rt_frame_Stop: "keeps (rt_frame D) (Stop env a)"
  unfolding rt_frame_def by (intro keeps_conj keeps_dom_Stop keeps_rt_Stop)

lemma keeps_rt_frame_Start: "keeps (rt_frame D) (Start env a)"
  unfolding rt_frame_def by (intro keeps_conj keeps_dom_Start keeps_rt_Start)

named_theorems frame_intros \<open>actions that keep the frame\<close>

lemma frame_sipM [frame_intros]: "keeps (frame i ctl D) (sipM m)"
  by (rule keepsI) (auto simp: frame_def act_simps split: prod.splits)

lemma frame_tgM [frame_intros]: "keeps (frame i ctl D) (tgM m)"
  by (rule keepsI) (auto simp: frame_def act_simps split: prod.splits)

lemma frame_rtM: "keeps (rt_frame D) m \<Longrightarrow> keeps (frame i ctl D) (rtM m)"
  by (rule keepsI) (auto simp: frame_def act_simps split: prod.splits dest: keepsD)

lemma frame_get [frame_intros]: "keeps P (get_ctx f)" "keeps P (get_world h)"
  by (auto simp: keeps_def get_ctx_def get_world_def getM_def)

lemma frame_put_ctx:
  "(\<And>c. ctx_id (f c) = ctx_id c \<and> ctx_controller (f c) = ctx_controller c) \<Longrightarrow> keeps (frame i ctl D) (put_ctx f)"
  by (rule keepsI) (auto simp: frame_def act_simps)

lemma frame_put_world: "(\<And>w. w_rt (f w) = w_rt w) \<Longrightarrow> keeps (frame i ctl D) (put_world f)"
  by (rule keepsI) (auto simp: frame_def act_simps)

lemma frame_now [frame_intros]: "keeps (frame i ctl D) (now env)"
  by (rule keepsI) (auto simp: frame_def now_eq)

lemma frame_internal_error [frame_intros]: "keeps (frame i ctl D) (internal_error prm)"
  by (rule keepsI) (auto simp: frame_def internal_error_eq)

lemma frame_try [frame_intros]:
  assumes "keeps (frame i ctl D) m"
  shows "keeps (frame i ctl D) (tryM m catch_pj)" "keeps (frame i ctl D) (tryM m catch_pj_runtime)"
  using assms
  by (auto simp: catch_pj_def catch_pj_runtime_def split: exn.splits intro!: keeps_try frame_internal_error)

lemma frame_try_ignore [frame_intros]:
  "keeps P m \<Longrightarrow> keeps P (tryM m (\<lambda>e. case e of PjError reason \<Rightarrow> Some (returnM ()) | _ \<Rightarrow> None))"
  by (rule keeps_try) (auto split: exn.splits intro: inv_intros)

lemma frame_store [frame_intros]:
  "keeps (frame i ctl D) (StoreSipId e)" "keeps (frame i ctl D) (StoreTgId e)"
  "keeps (frame i ctl D) (StoreTgUserId e)" "keeps (frame i ctl D) (CleanTgId e)"
  "keeps (frame i ctl D) (CleanSipId e)" "keeps (frame i ctl D) (SetHangupPrm e)"
  by (auto simp: StoreSipId_def StoreTgId_def StoreTgUserId_def CleanTgId_def CleanSipId_def SetHangupPrm_def
      intro!: frame_put_ctx keeps_return split: gw_event.splits)

lemma frame_CleanUp [frame_intros]: "keeps (frame i ctl D) (CleanUp env)"
  unfolding CleanUp_def
  by (intro inv_intros frame_intros)
    (auto split: option.splits exn.splits intro!: inv_intros frame_intros frame_rtM keeps_rt_frame_Stop frame_put_ctx)

lemma frame_DialSip [frame_intros]: "keeps (frame i ctl D) (DialSip env e)"
  unfolding DialSip_def
  by (auto split: gw_event.splits td_object.splits intro!: inv_intros frame_intros frame_put_ctx)

lemma frame_AnswerTg [frame_intros]: "keeps (frame i ctl D) (AnswerTg env e)"
  unfolding AnswerTg_def by (auto split: td_object.splits intro!: inv_intros frame_intros)

lemma ext_target_keeps: "ext_target ext = Some f \<Longrightarrow> ctx_id (f c) = ctx_id c \<and> ctx_controller (f c) = ctx_controller c"
  by (auto simp: ext_target_def split: if_splits sum.splits exn.splits)

lemma frame_AcceptIncomingSip [frame_intros]: "keeps (frame i ctl D) (AcceptIncomingSip env e)"
  unfolding AcceptIncomingSip_def
  by (auto split: gw_event.splits option.splits intro!: inv_intros frame_intros frame_put_ctx dest: ext_target_keeps)

lemma frame_AnswerSip [frame_intros]: "keeps (frame i ctl D) (AnswerSip env e)"
  unfolding AnswerSip_def by (auto intro!: inv_intros frame_intros)

lemma frame_BridgeAudio [frame_intros]: "keeps (frame i ctl D) (BridgeAudio env e)"
  unfolding BridgeAudio_def by (auto split: option.splits intro!: inv_intros frame_intros)

lemma frame_DialDtmf [frame_intros]: "keeps (frame i ctl D) (DialDtmf env e)"
  unfolding DialDtmf_def
  by (auto split: option.splits exn.splits intro!: inv_intros frame_intros)

lemma frame_parse_error [frame_intros]: "keeps (frame i ctl D) (parse_error env m)"
  unfolding parse_error_def
  by (auto split: option.splits sum.splits intro!: inv_intros frame_intros frame_put_world)

lemma frame_dial [frame_intros]:
  "keeps (frame i ctl D) (dial_failed env n m)" "keeps (frame i ctl D) (dial_by_id env uid)"
  unfolding dial_failed_def dial_by_id_def
  by (auto split: td_object.splits intro!: inv_intros frame_intros frame_put_ctx)

lemma frame_dial_by [frame_intros]:
  "keeps (frame i ctl D) (dial_by_phone env)" "keeps (frame i ctl D) (dial_by_username env)"
  unfolding dial_by_phone_def dial_by_username_def
  by (auto split: option.splits td_object.splits list.splits chat_type.splits
      intro!: inv_intros frame_intros frame_put_world)

lemma frame_DialTg [frame_intros]: "keeps (frame i ctl D) (DialTg env e)"
  unfolding DialTg_def by (auto intro!: inv_intros frame_intros)


section \<open>Creating the controller\<close>

lemma make_controller_frame:
  assumes "rt_frame D r" and "ctl_inv c" and "make_controller c r = (Inr a, r')"
  shows "a \<notin> D \<and> rt_frame (insert a D) r'"
proof -
  have a: "a = nw_next r" and r': "r' = snd (make_controller c r)"
      and heap: "nw_heap r' = (nw_heap r)(a \<mapsto> c)"
    using assms(3) by (auto simp: make_controller_def prog_simps)
  have "a \<notin> D"
    using assms(1) a by (auto simp: rt_frame_def rt_inv_def)
  moreover have "rt_inv r'"
    using keepsD [OF keeps_make_controller [OF assms(2)]] assms(1,3) by (auto simp: rt_frame_def)
  ultimately show ?thesis
    using assms(1) heap by (auto simp: rt_frame_def)
qed

lemma CreateTgVoip_frame:
  assumes "frame i None D (c, w)" and "CreateTgVoip env e (c, w) = (Inr x, cw)" and "is_updateCall e"
  shows "\<exists>a. a \<notin> D \<and> frame i (Some a) (insert a D) cw"
proof -
  obtain call where e: "e = EvUpdateCall call" using assms(3) by (cases e) auto
  obtain servers key where st: "tc_state call = callStateReady servers key" "\<not> length key < 256"
    using assms(2) e by (auto simp: CreateTgVoip_def throwM_def split: call_state.splits if_splits)
  let ?ctl = "TgCallsController (user_id c) (take 256 key) (tc_is_outgoing call)
      (List.map_filter rtc_server servers) (udp_p2p (e_settings env)) (Some (ctx_id c))"
  have c: "ctx_id c = i" "ctx_controller c = None" "rt_frame D (w_rt w)"
    using assms(1) by (simp_all add: frame_def)
  obtain a r where mk: "make_controller ?ctl (w_rt w) = (Inr a, r)"
    by (auto simp: make_controller_def prog_simps)
  obtain o' r' where start: "Start (e_ntg env) a r = (o', r')" by fastforce
  obtain p h where ports: "register_ports env ?ctl (c, w) = (p, (c, w\<lparr>w_sip := (w_sip w)\<lparr>pj_ops := h\<rparr>\<rparr>))"
    using register_ports_world by blast
  have "a \<notin> D \<and> rt_frame (insert a D) r"
    using make_controller_frame [OF c(3) ctl_inv_new mk] .
  moreover have "cw = (c\<lparr>ctx_controller := Some a\<rparr>, w\<lparr>w_sip := (w_sip w)\<lparr>pj_ops := h\<rparr>, w_rt := r'\<rparr>) \<and> o' = Inr ()"
    using assms(2) c(2) st mk start ports
    by (cases p; cases o') (auto simp: CreateTgVoip_def new_controller_def e bindM_def thenM_def act_simps returnM_def)
  ultimately show ?thesis
    using keepsD [OF keeps_rt_frame_Start] start c(1) by (fastforce simp: frame_def)
qed

section \<open>State machine steps\<close>

definition sm_ok :: "(main_state, sub_state) sm \<Rightarrow> nat option \<Rightarrow> bool" where
  "sm_ok s ctl = (case sm_state s of
     S_init \<Rightarrow> ctl = None
   | S_from_tg \<Rightarrow> sm_subs s S_from_tg \<noteq> sip_wait_confirm \<and> (ctl \<noteq> None \<longleftrightarrow> sm_subs s S_from_tg = wait_dtmf)
   | S_from_sip \<Rightarrow> (ctl \<noteq> None \<longleftrightarrow> sm_subs s S_from_sip = sip_wait_media \<or> sm_subs s S_from_sip = wait_dtmf)
   | S_X \<Rightarrow> True)"

text \<open>Either nothing changes about the controllers, or one is created for a context that had none.\<close>

definition grows :: "nat option \<Rightarrow> nat set \<Rightarrow> nat option \<Rightarrow> nat set \<Rightarrow> bool" where
  "grows ctl D ctl' D' \<longleftrightarrow> ctl' = ctl \<and> D' = D \<or> (\<exists>a. ctl = None \<and> ctl' = Some a \<and> a \<notin> D \<and> D' = insert a D)"

lemma keeps_sml_seq [frame_intros]: "keeps P (a e) \<Longrightarrow> keeps P (b e) \<Longrightarrow> keeps P (sml_seq a b e)"
  by (simp add: sml_seq_def keeps_then)

lemma keeps_sml_none [frame_intros]: "keeps P (sml_none e)"
  by (simp add: sml_none_def keeps_return)

lemma frame_main: "keeps (frame i ctl D) (main_process (machine env) s e)"
proof (rule keeps_main_process)
  fix t e'
  assume "t \<in> set (mc_table (machine env))"
  then show "keeps (frame i ctl D) (t_action t e')"
    by (auto simp: machine_def StateMachine_def row_def intro!: frame_intros)
qed (auto simp: machine_def intro!: frame_intros inv_intros)

lemma main_process_ok:
  assumes "sm_ok s ctl" and "main_process (machine env) s e (c, w) = (Inr s', cw)"
  shows "sm_ok s' ctl"
proof (cases "select (StateMachine env) (sm_state s) e")
  case None
  then have "s' = s" using assms(2) by (simp add: main_process_def machine_def returnM_def)
  then show ?thesis using assms(1) by simp
next
  case (Some t)
  have s': "s' = enter (machine env) (t_dst t) s"
    using assms(2) Some by (auto simp: main_process_def machine_def thenM_def bindM_Inr_iff returnM_def)
  have "t \<in> set (StateMachine env)" "t_src t = sm_state s"
    using select_Some [OF Some] by (auto simp: enabled_def)
  then have "t_dst t = S_X \<or> sm_state s = S_init \<and> (t_dst t = S_from_tg \<or> t_dst t = S_from_sip)"
    by (auto simp: StateMachine_def row_def)
  then show ?thesis
    using assms(1) by (auto simp: s' sm_ok_def enter_def machine_def sub_tables_def)
qed

text \<open>The rows of the two sub-machines, as what they do to the frame.\<close>

lemma from_tg_step:
  assumes "sub_process (from_tg env) s e (c, w) = (Inr (Some s'), cw)" and "frame i ctl D (c, w)"
    and "ctl \<noteq> None \<longleftrightarrow> s = wait_dtmf"
  shows "\<exists>ctl' D'. grows ctl D ctl' D' \<and> frame i ctl' D' cw \<and> s' \<noteq> sip_wait_confirm \<and> (ctl' \<noteq> None \<longleftrightarrow> s' = wait_dtmf)"
proof -
  obtain t where t: "select (from_tg env) s e = Some t" "t_action t e (c, w) = (Inr (), cw)" "s' = t_dst t"
    using assms(1) by (auto simp: sub_process_def thenM_def bindM_Inr_iff returnM_def split: option.splits)
  consider "s = sip_wait_media" "s' = wait_tg" "t_action t = AnswerTg env"
    | "s = wait_tg" "s' = wait_dtmf" "t_action t = sml_seq (CreateTgVoip env) (BridgeAudio env)" "is_updateCall e"
    | "s = wait_dtmf" "s' = wait_dtmf" "t_action t = DialDtmf env"
    using t(1,3) by (auto simp: from_tg_def enabled_def row_def split: if_splits)
  then show ?thesis
  proof cases
    case 1
    then have "frame i ctl D cw" using keepsD [OF frame_AnswerTg assms(2)] t(2) by metis
    then show ?thesis using 1 assms(3) by (auto simp: grows_def)
  next
    case 2
    then have "ctl = None" using assms(3) by auto
    obtain cw' where cw': "CreateTgVoip env e (c, w) = (Inr (), cw')" "BridgeAudio env e cw' = (Inr (), cw)"
      using t(2) 2(3) by (auto simp: sml_seq_def thenM_def bindM_Inr_iff)
    obtain a where a: "a \<notin> D" "frame i (Some a) (insert a D) cw'"
      using CreateTgVoip_frame [OF _ cw'(1) 2(4)] assms(2) \<open>ctl = None\<close> by blast
    have "frame i (Some a) (insert a D) cw"
      using keepsD [OF frame_BridgeAudio a(2) cw'(2)] .
    then show ?thesis using a(1) 2(2) \<open>ctl = None\<close> by (auto simp: grows_def)
  next
    case 3
    then have "frame i ctl D cw" using keepsD [OF frame_DialDtmf assms(2)] t(2) by metis
    then show ?thesis using 3 assms(3) by (auto simp: grows_def)
  qed
qed

lemma from_sip_step:
  assumes "sub_process (from_sip env) s e (c, w) = (Inr (Some s'), cw)" and "frame i ctl D (c, w)"
    and "ctl \<noteq> None \<longleftrightarrow> s = sip_wait_media \<or> s = wait_dtmf"
  shows "\<exists>ctl' D'. grows ctl D ctl' D' \<and> frame i ctl' D' cw \<and> (ctl' \<noteq> None \<longleftrightarrow> s' = sip_wait_media \<or> s' = wait_dtmf)"
proof -
  obtain t where t: "select (from_sip env) s e = Some t" "t_action t e (c, w) = (Inr (), cw)" "s' = t_dst t"
    using assms(1) by (auto simp: sub_process_def thenM_def bindM_Inr_iff returnM_def split: option.splits)
  consider "s = sip_wait_confirm" "s' = wait_tg" "t_action t = DialTg env"
    | "s = wait_tg" "s' = sip_wait_media"
      "t_action t = sml_seq StoreTgUserId (sml_seq (CreateTgVoip env) (AnswerSip env))" "is_updateCall e"
    | "s = sip_wait_media" "s' = wait_dtmf" "t_action t = BridgeAudio env"
    | "s = wait_dtmf" "s' = wait_dtmf" "t_action t = DialDtmf env"
    using t(1,3) by (auto simp: from_sip_def enabled_def row_def split: if_splits)
  then show ?thesis
  proof cases
    case 1
    then have "frame i ctl D cw" using keepsD [OF frame_DialTg assms(2)] t(2) by metis
    then show ?thesis using 1 assms(3) by (auto simp: grows_def)
  next
    case 2
    then have none: "ctl = None" using assms(3) by auto
    obtain c1 w1 cw2 where st: "StoreTgUserId e (c, w) = (Inr (), (c1, w1))" "CreateTgVoip env e (c1, w1) = (Inr (), cw2)"
        "AnswerSip env e cw2 = (Inr (), cw)"
      using t(2) 2(3) by (auto simp: sml_seq_def thenM_def bindM_Inr_iff)
    have "frame i None D (c1, w1)"
      using keepsD [OF frame_store(3) _ st(1)] assms(2) none by metis
    then obtain a where a: "a \<notin> D" "frame i (Some a) (insert a D) cw2"
      using CreateTgVoip_frame [OF _ st(2) 2(4)] by blast
    have "frame i (Some a) (insert a D) cw"
      using keepsD [OF frame_AnswerSip a(2) st(3)] .
    then show ?thesis using a(1) 2(2) none by (auto simp: grows_def)
  next
    case 3
    then have "frame i ctl D cw" using keepsD [OF frame_BridgeAudio assms(2)] t(2) by metis
    then show ?thesis using 3 assms(3) by (auto simp: grows_def)
  next
    case 4
    then have "frame i ctl D cw" using keepsD [OF frame_DialDtmf assms(2)] t(2) by metis
    then show ?thesis using 4 assms(3) by (auto simp: grows_def)
  qed
qed


lemma sub_process_None:
  "sub_process table s e cw = (Inr None, cw') \<Longrightarrow> cw' = cw"
  by (auto simp: sub_process_def thenM_def bindM_Inr_iff returnM_def split: option.splits)

text \<open>One event on one machine.\<close>

lemma sm_step:
  assumes "sm_ok s ctl" and "frame i ctl D (c, w)"
    and "sm_process_event (machine env) s e (c, w) = (Inr s', cw)"
  shows "\<exists>ctl' D'. grows ctl D ctl' D' \<and> frame i ctl' D' cw \<and> sm_ok s' ctl'"
proof -
  have main: ?thesis if "main_process (machine env) s e (c, w) = (Inr s', cw)"
    using main_process_ok [OF assms(1) that] keepsD [OF frame_main assms(2) that] by (auto simp: grows_def)
  show ?thesis
  proof (cases "mc_sub (machine env) (sm_state s)")
    case None
    then show ?thesis using assms(3) main by (simp add: sm_process_event_def)
  next
    case (Some ti)
    obtain table init where ti: "ti = (table, init)" by (cases ti)
    obtain handled cw1 where h: "sub_process table (sm_subs s (sm_state s)) e (c, w) = (Inr handled, cw1)"
        "(case handled of Some a \<Rightarrow> returnM (s\<lparr>sm_subs := (sm_subs s)(sm_state s := a)\<rparr>)
          | None \<Rightarrow> main_process (machine env) s e) cw1 = (Inr s', cw)"
      using assms(3) Some ti by (auto simp: sm_process_event_def bindM_Inr_iff)
    show ?thesis
    proof (cases handled)
      case None
      then show ?thesis using h main sub_process_None by fastforce
    next
      case (Some a)
      then have s': "s' = s\<lparr>sm_subs := (sm_subs s)(sm_state s := a)\<rparr>" "cw = cw1"
        using h(2) by (simp_all add: returnM_def)
      have "sm_state s = S_from_tg \<and> table = from_tg env \<or> sm_state s = S_from_sip \<and> table = from_sip env"
        using \<open>mc_sub (machine env) (sm_state s) = Some ti\<close> ti
        by (auto simp: machine_def sub_tables_def split: main_state.splits)
      then show ?thesis
        using from_tg_step [of env "sm_subs s S_from_tg" e c w a cw i ctl D]
          from_sip_step [of env "sm_subs s S_from_sip" e c w a cw i ctl D] h(1) Some assms(1,2) s'
        by (fastforce simp: sm_ok_def)
    qed
  qed
qed

text \<open>A machine leaves its initial state with every event that can create a bridge.\<close>

definition creating :: "gw_event \<Rightarrow> bool" where
  "creating e \<longleftrightarrow> is_updateCall e \<or> is_IncomingCall e \<or> is_CallStateUpdate e \<or> is_CallMediaStateUpdate e"

lemma sm_leaves_init:
  assumes "sm_state s = S_init" and "creating e" and "sm_process_event (machine env) s e cw = (Inr s', cw')"
  shows "sm_state s' \<noteq> S_init"
proof -
  have "select (StateMachine env) S_init e \<noteq> None"
    using assms(2) by (cases e) (auto simp: creating_def StateMachine_def enabled_def row_def sml_always_def)
  then obtain t where t: "select (StateMachine env) S_init e = Some t" by blast
  have "t_dst t \<noteq> S_init"
    using select_Some [OF t] by (auto simp: StateMachine_def row_def)
  moreover have "s' = enter (machine env) (t_dst t) s"
    using assms(1,3) t
    by (auto simp: sm_process_event_def machine_def sub_tables_def main_process_def thenM_def bindM_Inr_iff returnM_def)
  ultimately show ?thesis by (auto simp: enter_def split: option.splits)
qed

lemma sm_never_init:
  assumes "sm_state s \<noteq> S_init" and "sm_process_event (machine env) s e cw = (Inr s', cw')"
  shows "sm_state s' \<noteq> S_init"
proof -
  have main: "sm_state s'' \<noteq> S_init" if "main_process (machine env) s e u = (Inr s'', u')" for u u' s''
  proof (cases "select (StateMachine env) (sm_state s) e")
    case None
    then show ?thesis using that assms(1) by (auto simp: main_process_def machine_def returnM_def)
  next
    case (Some t)
    have "t_dst t \<noteq> S_init"
      using select_Some [OF Some] by (auto simp: StateMachine_def row_def)
    moreover have "s'' = enter (machine env) (t_dst t) s"
      using that Some by (auto simp: main_process_def machine_def thenM_def bindM_Inr_iff returnM_def)
    ultimately show ?thesis by (auto simp: enter_def split: option.splits)
  qed
  show ?thesis
  proof (cases "mc_sub (machine env) (sm_state s)")
    case None
    then show ?thesis using assms(2) main by (auto simp: sm_process_event_def)
  next
    case (Some ti)
    then show ?thesis
      using assms main by (cases ti, cases cw') (auto simp: sm_process_event_def bindM_Inr_iff returnM_def split: option.splits)
  qed
qed

section \<open>The invariant of the gateway\<close>

definition ctl_list :: "bridge \<Rightarrow> nat list" where
  "ctl_list b = (case ctx_controller (br_ctx b) of None \<Rightarrow> [] | Some a \<Rightarrow> [a])"

definition ctls :: "bridge list \<Rightarrow> nat list" where
  "ctls bs = concat (map ctl_list bs)"

definition names_ok :: "env \<Rightarrow> gateway \<Rightarrow> bool" where
  "names_ok env g \<longleftrightarrow> 0 \<le> gw_ctx_counter g
     \<and> distinct (map (ctx_id \<circ> br_ctx) (gw_bridges g))
     \<and> (\<forall>b \<in> set (gw_bridges g). \<exists>k. 1 \<le> k \<and> k \<le> gw_ctx_counter g \<and> ctx_id (br_ctx b) = ctx_name env k)"

text \<open>Every controller that exists is owned by exactly one bridge.\<close>

definition gw_core :: "env \<Rightarrow> gateway \<Rightarrow> bool" where
  "gw_core env g \<longleftrightarrow> names_ok env g
     \<and> (\<forall>b \<in> set (gw_bridges g). sm_ok (br_sm b) (ctx_controller (br_ctx b)))
     \<and> distinct (ctls (gw_bridges g)) \<and> rt_frame (set (ctls (gw_bridges g))) (w_rt (gw_world g))"

definition in_call :: "bridge \<Rightarrow> bool" where
  "in_call b \<longleftrightarrow> sm_state (br_sm b) = S_from_tg \<or> sm_state (br_sm b) = S_from_sip"

definition gw_inv :: "env \<Rightarrow> gateway \<Rightarrow> bool" where
  "gw_inv env g \<longleftrightarrow> gw_core env g \<and> list_all in_call (gw_bridges g)"

lemma ctls_append [simp]: "ctls (xs @ ys) = ctls xs @ ctls ys"
  by (simp add: ctls_def)

lemma ctls_Nil [simp]: "ctls [] = []"
  by (simp add: ctls_def)

lemma ctls_Cons [simp]: "ctls (b # bs) = ctl_list b @ ctls bs"
  by (simp add: ctls_def)

lemma list_split_at:
  assumes "i < length bs"
  shows "bs = take i bs @ bs ! i # drop (Suc i) bs"
    and "bs[i := b] = take i bs @ b # drop (Suc i) bs"
  using assms by (simp_all add: id_take_nth_drop upd_conv_take_nth_drop)

lemma to_string_inj:
  assumes "to_string i = to_string j"
  shows "i = j"
proof -
  have inj: "show_nat m = show_nat n \<Longrightarrow> m = n" for m n
    by (metis digits_val_show_nat)
  have dash: "CHR ''-'' # xs \<noteq> show_nat n" for xs n
  proof
    assume eq: "CHR ''-'' # xs = show_nat n"
    show False using show_nat_digits [of n] by (simp add: eq [symmetric] isdigit_def)
  qed
  show ?thesis
    using assms by (auto simp: to_string_def dash dash [symmetric] dest!: inj split: if_splits)
qed

lemma ctx_name_inj: "ctx_name env i = ctx_name env j \<Longrightarrow> i = j"
  by (auto simp: ctx_name_def dest: to_string_inj)


section \<open>The operations keep the invariant\<close>

lemma distinct_ctls_update:
  assumes "i < length bs" and "distinct (ctls bs)"
    and "grows (ctx_controller (br_ctx (bs ! i))) (set (ctls bs)) (ctx_controller (br_ctx b)) D'"
  shows "distinct (ctls (bs[i := b])) \<and> D' = set (ctls (bs[i := b]))"
proof -
  let ?xs = "take i bs" and ?ys = "drop (Suc i) bs"
  have bs: "ctls bs = ctls ?xs @ ctl_list (bs ! i) @ ctls ?ys"
    using list_split_at(1) [OF assms(1)] ctls_append [of ?xs "bs ! i # ?ys"] by simp
  have new: "ctls (bs[i := b]) = ctls ?xs @ ctl_list b @ ctls ?ys"
    using list_split_at(2) [OF assms(1), of b] by simp
  show ?thesis
    using assms(2,3) unfolding new bs grows_def
    by (auto simp: ctl_list_def)
qed

lemma ball_update: "\<forall>x \<in> set xs. P x \<Longrightarrow> P y \<Longrightarrow> \<forall>x \<in> set (xs[i := y]). P x"
  using set_update_subset_insert [of xs i y] by blast

lemma bridge_event_core:
  assumes "gw_core env g" and "i < length (gw_bridges g)" and "bridge_event env i e g = (Inr (), g')"
  shows "gw_core env g' \<and> gw_ctx_counter g' = gw_ctx_counter g
    \<and> (\<exists>b cw. gw_bridges g' = (gw_bridges g)[i := b]
        \<and> sm_process_event (machine env) (br_sm (gw_bridges g ! i)) e (br_ctx (gw_bridges g ! i), gw_world g)
            = (Inr (br_sm b), cw) \<and> cw = (br_ctx b, gw_world g'))"
proof -
  let ?b = "gw_bridges g ! i"
  obtain s c w where p: "sm_process_event (machine env) (br_sm ?b) e (br_ctx ?b, gw_world g) = (Inr s, (c, w))"
      "g' = g\<lparr>gw_bridges := (gw_bridges g)[i := \<lparr>br_sm = s, br_ctx = c\<rparr>], gw_world := w\<rparr>"
    using assms(3) by (auto simp: bridge_event_def Let_def split: prod.splits sum.splits)
  have mem: "?b \<in> set (gw_bridges g)" using assms(2) by simp
  have core: "sm_ok (br_sm ?b) (ctx_controller (br_ctx ?b))" "distinct (ctls (gw_bridges g))"
      "frame (ctx_id (br_ctx ?b)) (ctx_controller (br_ctx ?b)) (set (ctls (gw_bridges g))) (br_ctx ?b, gw_world g)"
      "names_ok env g"
    using assms(1) mem by (auto simp: gw_core_def frame_def)
  obtain ctl' D' where step: "grows (ctx_controller (br_ctx ?b)) (set (ctls (gw_bridges g))) ctl' D'"
      "frame (ctx_id (br_ctx ?b)) ctl' D' (c, w)" "sm_ok s ctl'"
    using sm_step [OF core(1,3) p(1)] by blast
  have ctl: "ctx_controller c = ctl'" "ctx_id c = ctx_id (br_ctx ?b)" "rt_frame D' (w_rt w)"
    using step(2) by (auto simp: frame_def)
  have d: "distinct (ctls ((gw_bridges g)[i := \<lparr>br_sm = s, br_ctx = c\<rparr>]))"
      "D' = set (ctls ((gw_bridges g)[i := \<lparr>br_sm = s, br_ctx = c\<rparr>]))"
    using distinct_ctls_update [OF assms(2) core(2), of "\<lparr>br_sm = s, br_ctx = c\<rparr>" D'] step(1) ctl(1) by auto
  have "map (ctx_id \<circ> br_ctx) ((gw_bridges g)[i := \<lparr>br_sm = s, br_ctx = c\<rparr>]) = map (ctx_id \<circ> br_ctx) (gw_bridges g)"
    using assms(2) ctl(2) by (simp add: map_update list_update_same_conv)
  moreover have "\<forall>b \<in> set ((gw_bridges g)[i := \<lparr>br_sm = s, br_ctx = c\<rparr>]).
      \<exists>k. 1 \<le> k \<and> k \<le> gw_ctx_counter g \<and> ctx_id (br_ctx b) = ctx_name env k"
    by (rule ball_update) (use core(4) mem ctl(2) in \<open>auto simp: names_ok_def\<close>)
  ultimately have "names_ok env g'"
    using core(4) by (simp add: names_ok_def p(2))
  moreover have "\<forall>b \<in> set ((gw_bridges g)[i := \<lparr>br_sm = s, br_ctx = c\<rparr>]). sm_ok (br_sm b) (ctx_controller (br_ctx b))"
    by (rule ball_update) (use assms(1) step(3) ctl(1) in \<open>auto simp: gw_core_def\<close>)
  ultimately have "gw_core env g'"
    using d ctl(3) by (simp add: gw_core_def p(2))
  moreover have "gw_ctx_counter g' = gw_ctx_counter g" "gw_world g' = w"
      "gw_bridges g' = (gw_bridges g)[i := \<lparr>br_sm = s, br_ctx = c\<rparr>]"
    by (simp_all add: p(2))
  ultimately show ?thesis
    using p(1) by (intro conjI exI [of _ "\<lparr>br_sm = s, br_ctx = c\<rparr>"] exI [of _ "(c, w)"]) simp_all
qed

lemma destroy_frame:
  assumes "rt_frame D r" and "a \<in> D" and "destroy_controller env a r = (Inr (), r')"
  shows "rt_frame (D - {a}) r'"
proof -
  obtain c where c: "nw_heap r a = Some c" using assms(1,2) by (auto simp: rt_frame_def)
  obtain v where v: "dom (nw_heap v) = D" "r' = v\<lparr>nw_heap := map_erase a (nw_heap v)\<rparr>"
  proof (cases "ct_created c")
    case True
    then obtain v where "Stop env a r = (Inr (), v)" "r' = v\<lparr>nw_heap := map_erase a (nw_heap v)\<rparr>"
      using assms(3) by (auto simp: destroy_eq [OF c] split: prod.splits sum.splits)
    then show thesis
      using that keepsD [OF keeps_dom_Stop] assms(1) by (metis rt_frame_def)
  next
    case False
    then show thesis using that assms(1,3) by (auto simp: destroy_eq [OF c] rt_frame_def)
  qed
  have "rt_inv r'" using destroy_unreferenced [OF _ c assms(3)] assms(1) by (simp add: rt_frame_def)
  then show ?thesis using v by (auto simp: rt_frame_def map_erase_def)
qed

lemma delete_bridge_core:
  assumes "gw_core env g" and "i < length (gw_bridges g)" and "delete_bridge env i g = (Inr (), g')"
  shows "gw_core env g' \<and> gw_bridges g' = erase_at i (gw_bridges g) \<and> gw_ctx_counter g' = gw_ctx_counter g"
proof -
  let ?bs = "gw_bridges g" and ?b = "gw_bridges g ! i"
  obtain r where r: "g' = g\<lparr>gw_world := (gw_world g)\<lparr>w_rt := r\<rparr>, gw_bridges := erase_at i ?bs\<rparr>"
      "case ctx_controller (br_ctx ?b) of None \<Rightarrow> r = w_rt (gw_world g)
        | Some a \<Rightarrow> destroy_controller (e_ntg env) a (w_rt (gw_world g)) = (Inr (), r)"
    using assms(3) by (auto simp: delete_bridge_def prog_simps split: option.splits prod.splits sum.splits)
  have split: "ctls ?bs = ctls (take i ?bs) @ ctl_list ?b @ ctls (drop (Suc i) ?bs)"
    using list_split_at(1) [OF assms(2)] ctls_append [of "take i ?bs" "?b # drop (Suc i) ?bs"] by simp
  have core: "distinct (ctls ?bs)" "rt_frame (set (ctls ?bs)) (w_rt (gw_world g))"
    using assms(1) by (simp_all add: gw_core_def)
  have "rt_frame (set (ctls (erase_at i ?bs))) r"
  proof (cases "ctx_controller (br_ctx ?b)")
    case None
    then show ?thesis using r(2) core(2) split by (simp add: erase_at_def ctl_list_def)
  next
    case (Some a)
    have "a \<in> set (ctls ?bs)" using split Some by (simp add: ctl_list_def)
    moreover have "destroy_controller (e_ntg env) a (w_rt (gw_world g)) = (Inr (), r)" using r(2) Some by simp
    ultimately have "rt_frame (set (ctls ?bs) - {a}) r"
      by (rule destroy_frame [OF core(2)])
    moreover have "set (ctls ?bs) - {a} = set (ctls (erase_at i ?bs))"
      using core(1) Some unfolding split by (auto simp: erase_at_def ctl_list_def)
    ultimately show ?thesis by simp
  qed
  moreover have "distinct (ctls (erase_at i ?bs))"
    using core(1) unfolding split by (auto simp: erase_at_def)
  moreover have "names_ok env g'"
    using assms(1) set_erase_at [of i ?bs] distinct_erase_at [of "map (ctx_id \<circ> br_ctx) ?bs" i]
    by (auto simp: gw_core_def names_ok_def r(1) map_erase_at)
  ultimately show ?thesis
    using assms(1) set_erase_at [of i ?bs] by (auto simp: gw_core_def r(1))
qed


section \<open>Dispatch\<close>

lemma names_okD:
  "names_ok env g \<Longrightarrow> b \<in> set (gw_bridges g) \<Longrightarrow>
     \<exists>k. 1 \<le> k \<and> k \<le> gw_ctx_counter g \<and> ctx_id (br_ctx b) = ctx_name env k"
  by (simp add: names_ok_def)

lemma names_ok_distinct: "names_ok env g \<Longrightarrow> distinct (map (ctx_id \<circ> br_ctx) (gw_bridges g))"
  by (simp add: names_ok_def)

lemma search_call_core:
  assumes "gw_inv env g" and "search_call env p g = (Inr i, g')"
  shows "gw_core env g' \<and> i < length (gw_bridges g')
    \<and> (\<forall>j < length (gw_bridges g'). j \<noteq> i \<longrightarrow> in_call (gw_bridges g' ! j))
    \<and> (in_call (gw_bridges g' ! i) \<or> sm_state (br_sm (gw_bridges g' ! i)) = S_init)"
proof (cases "find_if (p \<circ> br_ctx) (gw_bridges g)")
  case (Some k)
  then have "i = k" "g' = g" using assms(2) by (simp_all add: search_call_eq)
  then show ?thesis
    using assms(1) find_if_Some [OF Some] by (simp add: gw_inv_def list_all_length)
next
  case None
  let ?b = "\<lparr>br_sm = new_sm (machine env), br_ctx = new_Context (ctx_name env (gw_ctx_counter g + 1))\<rparr>"
  have g': "i = length (gw_bridges g)" "g' = g\<lparr>gw_bridges := gw_bridges g @ [?b], gw_ctx_counter := gw_ctx_counter g + 1\<rparr>"
    using assms(2) None by (simp_all add: search_call_eq)
  have old: "gw_core env g" "list_all in_call (gw_bridges g)" using assms(1) by (simp_all add: gw_inv_def)
  have fresh: "ctx_name env (gw_ctx_counter g + 1) \<noteq> ctx_id (br_ctx b)" if "b \<in> set (gw_bridges g)" for b
  proof
    assume eq: "ctx_name env (gw_ctx_counter g + 1) = ctx_id (br_ctx b)"
    obtain k where "k \<le> gw_ctx_counter g" "ctx_id (br_ctx b) = ctx_name env k"
      using names_okD [of env g b] \<open>b \<in> set (gw_bridges g)\<close> old(1) by (auto simp: gw_core_def)
    then show False using eq ctx_name_inj [of env "gw_ctx_counter g + 1" k] by simp
  qed
  have nok: "names_ok env g" using old(1) by (simp add: gw_core_def)
  have "distinct (map (ctx_id \<circ> br_ctx) (gw_bridges g))"
    using nok by (rule names_ok_distinct)
  moreover have "ctx_name env (gw_ctx_counter g + 1) \<notin> set (map (ctx_id \<circ> br_ctx) (gw_bridges g))"
    using fresh by fastforce
  ultimately have "distinct (map (ctx_id \<circ> br_ctx) (gw_bridges g @ [?b]))"
    unfolding map_append distinct_append by (simp add: new_Context_def)
  moreover have "\<exists>k. 1 \<le> k \<and> k \<le> gw_ctx_counter g + 1 \<and> ctx_id (br_ctx b) = ctx_name env k"
    if "b \<in> set (gw_bridges g @ [?b])" for b
  proof (cases "b \<in> set (gw_bridges g)")
    case True
    then obtain k where "1 \<le> k" "k \<le> gw_ctx_counter g" "ctx_id (br_ctx b) = ctx_name env k"
      using names_okD [OF nok True] by blast
    then show ?thesis by (intro exI [of _ k]) simp
  next
    case False
    then have "b = ?b" using that by simp
    then show ?thesis
      using nok by (intro exI [of _ "gw_ctx_counter g + 1"]) (simp add: names_ok_def new_Context_def)
  qed
  ultimately have "names_ok env g'"
    using nok by (simp add: names_ok_def g'(2))
  moreover have "sm_ok (new_sm (machine env)) None" "sm_state (new_sm (machine env)) = S_init"
    by (simp_all add: sm_ok_def new_sm_def machine_def)
  ultimately show ?thesis
    using old by (auto simp: gw_core_def g' new_Context_def ctl_list_def nth_append list_all_length)
qed

lemma dispatch_inv:
  assumes "gw_core env g" and "i < length (gw_bridges g)"
    and "\<forall>j < length (gw_bridges g). j \<noteq> i \<longrightarrow> in_call (gw_bridges g ! j)"
    and "in_call (gw_bridges g ! i) \<or> sm_state (br_sm (gw_bridges g ! i)) = S_init \<and> creating e"
    and "dispatch env i e g = (Inr (), g')"
  shows "gw_inv env g'"
proof -
  obtain g1 where g1: "bridge_event env i e g = (Inr (), g1)"
      "whenM (sm_is (br_sm (gw_bridges g1 ! i)) S_X) (delete_bridge env i) g1 = (Inr (), g')"
    using assms(5) by (auto simp: dispatch_def thenM_def bindM_Inr_iff getM_def)
  obtain b cw where b: "gw_core env g1" "gw_bridges g1 = (gw_bridges g)[i := b]"
      "sm_process_event (machine env) (br_sm (gw_bridges g ! i)) e (br_ctx (gw_bridges g ! i), gw_world g) = (Inr (br_sm b), cw)"
    using bridge_event_core [OF assms(1,2) g1(1)] by blast
  have not_init: "sm_state (br_sm b) \<noteq> S_init"
    using assms(4) sm_leaves_init [OF _ _ b(3)] sm_never_init [OF _ b(3)] by (auto simp: in_call_def)
  have at_i: "gw_bridges g1 ! i = b" "i < length (gw_bridges g1)" using b(2) assms(2) by simp_all
  have others: "in_call (gw_bridges g1 ! j)" if "j < length (gw_bridges g1)" "j \<noteq> i" for j
    using assms(3) that by (simp add: b(2))
  show ?thesis
  proof (cases "sm_state (br_sm b) = S_X")
    case True
    then have "delete_bridge env i g1 = (Inr (), g')" using g1(2) at_i by (simp add: sm_is_def whenM_def)
    then have "gw_core env g'" "gw_bridges g' = erase_at i (gw_bridges g1)"
      using delete_bridge_core [OF b(1) at_i(2)] by auto
    moreover have "list_all in_call (erase_at i (gw_bridges g1))"
      using others at_i(2) by (auto simp: erase_at_def list_all_length nth_append)
    ultimately show ?thesis by (simp add: gw_inv_def)
  next
    case False
    then have "g' = g1" using g1(2) at_i by (simp add: sm_is_def whenM_def returnM_def)
    moreover have "in_call b" using False not_init by (cases "sm_state (br_sm b)") (auto simp: in_call_def)
    ultimately show ?thesis
      using b(1) others at_i by (auto simp: gw_inv_def list_all_length)
  qed
qed

lemma search_dispatch_inv:
  assumes "creating e"
  shows "okeeps (gw_inv env) (bindM (search_call env p) (\<lambda>i. dispatch env i e))"
proof (rule okeepsI)
  fix g x g'
  assume "gw_inv env g" "bindM (search_call env p) (\<lambda>i. dispatch env i e) g = (Inr x, g')"
  then obtain i g1 where "search_call env p g = (Inr i, g1)" "dispatch env i e g1 = (Inr (), g')"
    by (auto simp: bindM_Inr_iff)
  then show "gw_inv env g'"
    using search_call_core [OF \<open>gw_inv env g\<close>, of p i g1] dispatch_inv [of env g1 i e g'] assms by blast
qed

lemma gw_inv_nth: "gw_inv env g \<Longrightarrow> i < length (gw_bridges g) \<Longrightarrow> in_call (gw_bridges g ! i)"
  by (simp add: gw_inv_def list_all_length)

lemma dispatch_existing:
  assumes "gw_inv env g" and "i < length (gw_bridges g)" and "dispatch env i e g = (Inr (), g')"
  shows "gw_inv env g'"
  using assms by (intro dispatch_inv [of env g i e g']) (auto simp: gw_inv_nth, simp add: gw_inv_def)

text \<open>A message never ends a call.\<close>

lemma message_keeps_state:
  assumes "sm_process_event (machine env) s (EvNewMessage m) cw = (Inr s', cw')"
  shows "sm_state s' = sm_state s"
proof -
  have "select (StateMachine env) q (EvNewMessage m) = None" for q
    by (simp add: StateMachine_def enabled_def row_def)
  then show ?thesis
    using assms by (auto simp: sm_process_event_def main_process_def machine_def bindM_Inr_iff returnM_def
        split: option.splits prod.splits)
qed

lemma message_inv: "okeeps (gw_inv env) (process_updateNewMessage env m)"
proof (rule okeepsI)
  fix g x g'
  assume g: "gw_inv env g" and run: "process_updateNewMessage env m g = (Inr x, g')"
  show "gw_inv env g'"
  proof (cases "g' = g")
    case False
    then obtain uid i where i: "message_matches uid (gw_bridges g) = [i]"
        "bridge_event env i (EvNewMessage m) g = (Inr (), g')"
      using run by (auto simp: process_updateNewMessage_def bindM_def getM_def returnM_def
          split: message_sender.splits list.splits)
    have "i \<in> set (message_matches uid (gw_bridges g))" using i(1) by simp
    then have len: "i < length (gw_bridges g)" by (simp add: message_matches_def)
    obtain b cw where b: "gw_core env g'" "gw_bridges g' = (gw_bridges g)[i := b]"
      "sm_process_event (machine env) (br_sm (gw_bridges g ! i)) (EvNewMessage m) (br_ctx (gw_bridges g ! i), gw_world g)
         = (Inr (br_sm b), cw)"
      using bridge_event_core [OF _ len i(2)] g by (auto simp: gw_inv_def)
    have "in_call b"
      using message_keeps_state [OF b(3)] gw_inv_nth [OF g len] by (simp add: in_call_def)
    then show ?thesis
      using b(1,2) g by (auto simp: gw_inv_def list_all_iff dest: set_update_subset_insert [THEN subsetD])
  qed (use g in simp)
qed


section \<open>All handlers and the loop\<close>

lemma okeeps_frame_world:
  assumes "\<And>w. w_rt (f w) = w_rt w"
  shows "okeeps (gw_inv env) (modifyM (\<lambda>g. g\<lparr>gw_world := f (gw_world g)\<rparr>))"
  using assms by (intro okeeps_modify) (auto simp: gw_inv_def gw_core_def names_ok_def)

lemma okeeps_gw_tg [ok_intros]: "okeeps (gw_inv env) (gw_tg m)"
  by (rule okeepsI) (auto simp: gw_tg_def liftM_def gw_inv_def gw_core_def names_ok_def split: prod.splits)

lemma okeeps_gw_rt:
  assumes "\<And>D. keeps (rt_frame D) m"
  shows "okeeps (gw_inv env) (gw_rt m)"
proof (rule okeepsI)
  fix g x g'
  assume g: "gw_inv env g" and run: "gw_rt m g = (Inr x, g')"
  obtain r where r: "m (w_rt (gw_world g)) = (Inr x, r)" "g' = g\<lparr>gw_world := (gw_world g)\<lparr>w_rt := r\<rparr>\<rparr>"
    using run by (auto simp: gw_rt_def liftM_def split: prod.splits)
  have "rt_frame (set (ctls (gw_bridges g))) r"
    using keepsD [OF assms _ r(1)] g by (simp add: gw_inv_def gw_core_def)
  then show "gw_inv env g'"
    using g by (simp add: gw_inv_def gw_core_def names_ok_def r(2))
qed

lemma keeps_rt_frame_callbacks:
  "keeps (rt_frame D) (UpdateSignaling env a data)" "keeps (rt_frame D) (SignalingTrampoline OnSignalingData u data)"
  "keeps (rt_frame D) (FramesTrampoline OnFrames u cb)" "keeps (rt_frame D) (MicFeederLoop_round env a)"
  "keeps (rt_frame D) (put_frame a f)" "keeps (rt_frame D) (get_frame a f)"
proof -
  have detached: "keeps (\<lambda>r. dom (nw_heap r) = D) (CallDetached env op)" for op
    by (rule keeps_CallDetached) simp
  show "keeps (rt_frame D) (UpdateSignaling env a data)"
    unfolding rt_frame_def
    by (intro keeps_conj keeps_rt_callbacks) (auto simp: UpdateSignaling_def intro!: inv_intros detached)
  show "keeps (rt_frame D) (SignalingTrampoline OnSignalingData u data)"
    unfolding rt_frame_def
    by (intro keeps_conj keeps_rt_callbacks)
      (auto simp: SignalingTrampoline_def intro!: inv_intros split: option.splits)
  show "keeps (rt_frame D) (FramesTrampoline OnFrames u cb)"
    unfolding rt_frame_def
    by (intro keeps_conj keeps_rt_callbacks)
      (auto simp: FramesTrampoline_def intro!: inv_intros split: option.splits)
  show "keeps (rt_frame D) (MicFeederLoop_round env a)"
    unfolding rt_frame_def
    by (intro keeps_conj keeps_rt_mic)
      (auto simp: MicFeederLoop_round_def intro!: inv_intros detached split: prod.splits)
  show "keeps (rt_frame D) (put_frame a f)" "keeps (rt_frame D) (get_frame a f)"
    unfolding rt_frame_def
    by (intro keeps_conj keeps_rt_callbacks keeps_rt_get_frame;
        auto simp: put_frame_def get_frame_def intro!: inv_intros split: prod.splits)+
qed

lemma InternalError_inv: "okeeps (gw_inv env) (process_InternalError env cid prm)"
proof (rule okeepsI)
  fix g x g'
  assume "gw_inv env g" "process_InternalError env cid prm g = (Inr x, g')"
  then show "gw_inv env g'"
    by (auto simp: process_InternalError_def bindM_def getM_def returnM_def split: option.splits
        dest!: find_if_Some intro: dispatch_existing)
qed

lemma handlers_inv [ok_intros]:
  "okeeps (gw_inv env) (process_updateCall env call)" "okeeps (gw_inv env) (process_sip_event env e)"
  "okeeps (gw_inv env) (process_updateNewMessage env m)" "okeeps (gw_inv env) (process_InternalError env cid prm)"
  "okeeps (gw_inv env) (process_SignalingDataEmitted env cid data)"
  "okeeps (gw_inv env) (process_updateNewCallSignalingData env cl raw)"
proof -
  show "okeeps (gw_inv env) (process_updateCall env call)"
    unfolding process_updateCall_def by (rule search_dispatch_inv) (simp add: creating_def)
  show "okeeps (gw_inv env) (process_sip_event env e)"
    unfolding process_sip_event_def by (rule search_dispatch_inv) (cases e; simp add: creating_def)
  show "okeeps (gw_inv env) (process_SignalingDataEmitted env cid data)"
    unfolding process_SignalingDataEmitted_def by (auto split: option.splits intro!: ok_intros)
  show "okeeps (gw_inv env) (process_updateNewCallSignalingData env cl raw)"
    unfolding process_updateNewCallSignalingData_def
    by (auto split: option.splits intro!: ok_intros okeeps_gw_rt keeps_rt_frame_callbacks)
qed (rule message_inv, rule InternalError_inv)

lemma pops_inv [ok_intros]:
  "okeeps (gw_inv env) pop_internal" "okeeps (gw_inv env) pop_tg" "okeeps (gw_inv env) pop_sip"
  unfolding pop_internal_def pop_tg_def pop_sip_def
  by (auto intro!: ok_intros okeeps_frame_world split: prod.splits)

lemma tick_inv [ok_intros]: "okeeps (gw_inv env) (tick env)"
  unfolding tick_def process_internal_def process_tg_def
  by (auto intro!: ok_intros split: option.splits internal_event.splits td_object.splits)

lemma load_cache_inv [ok_intros]: "okeeps (gw_inv env) (load_cache env rs)"
proof -
  have "okeeps (gw_inv env) (send_all is)" for "is"
    by (induction "is") (auto intro!: ok_intros)
  moreover have "okeeps (gw_inv env) (read_all ps)" for ps
    by (induction ps) (auto intro!: ok_intros okeeps_frame_world split: td_object.splits)
  ultimately show ?thesis
    unfolding load_cache_def by (auto intro!: ok_intros split: td_object.splits)
qed

lemma signaling_callback_inv [ok_intros]: "okeeps (gw_inv env) (signaling_callback uid data)"
  unfolding signaling_callback_def
  by (auto intro!: ok_intros okeeps_gw_rt keeps_rt_frame_callbacks okeeps_frame_world split: option.splits prod.splits)

section \<open>The gateway as a system\<close>

text \<open>
  The gateway thread loads the cache and runs rounds of its loop; between them, in any order, the
  SIP library, the Telegram client thread, the calling library and the audio threads do what they
  may do: their programs are arbitrary on their own part of the state, as long as the audio and
  signaling callbacks go through the runtime.
\<close>

inductive gw_step :: "env \<Rightarrow> gateway \<Rightarrow> gateway \<Rightarrow> bool" for env :: env where
  gw_load: "load_cache env rs g = (Inr (), g') \<Longrightarrow> gw_step env g g'"
| gw_tick: "tick env g = (Inr (), g') \<Longrightarrow> gw_step env g g'"
| gw_tg_thread: "gw_tg (process_response r) g = (Inr (), g') \<Longrightarrow> gw_step env g g'"
| gw_incoming: "gw_sip (onIncomingCall (e_pj env) i) g = (Inr (), g') \<Longrightarrow> gw_step env g g'"
| gw_call_state: "gw_sip (onCallState (e_pj env) n i) g = (Inr (), g') \<Longrightarrow> gw_step env g g'"
| gw_media_state: "gw_sip (onCallMediaState (e_pj env) n i) g = (Inr (), g') \<Longrightarrow> gw_step env g g'"
| gw_signaling: "signaling_callback uid data g = (Inr (), g') \<Longrightarrow> gw_step env g g'"
| gw_frames: "gw_rt (FramesTrampoline OnFrames uid fs) g = (Inr (), g') \<Longrightarrow> gw_step env g g'"
| gw_mic: "gw_rt (MicFeederLoop_round (e_ntg env) a) g = (Inr (), g') \<Longrightarrow> gw_step env g g'"
| gw_put: "gw_rt (put_frame a f) g = (Inr (), g') \<Longrightarrow> gw_step env g g'"
| gw_get: "gw_rt (get_frame a f) g = (Inr h, g') \<Longrightarrow> gw_step env g g'"

definition gw_init :: "env \<Rightarrow> gateway \<Rightarrow> bool" where
  "gw_init env g \<longleftrightarrow> g = new_Gateway env (new_sip_client (e_settings env)) (new_tg_client (e_settings env)) empty_rt"

lemma okeeps_gw_sip: "okeeps (gw_inv env) (gw_sip m)"
  by (rule okeepsI) (auto simp: gw_sip_def liftM_def gw_inv_def gw_core_def names_ok_def split: prod.splits)

lemma gw_step_inv:
  assumes "gw_inv env g" and "gw_step env g g'"
  shows "gw_inv env g'"
  using assms(2)
  by (cases rule: gw_step.cases)
    (auto intro: okeepsD [OF load_cache_inv assms(1)] okeepsD [OF tick_inv assms(1)] okeepsD [OF okeeps_gw_tg assms(1)]
      okeepsD [OF okeeps_gw_sip assms(1)] okeepsD [OF signaling_callback_inv assms(1)]
      okeepsD [OF okeeps_gw_rt [OF keeps_rt_frame_callbacks(3)] assms(1)]
      okeepsD [OF okeeps_gw_rt [OF keeps_rt_frame_callbacks(4)] assms(1)]
      okeepsD [OF okeeps_gw_rt [OF keeps_rt_frame_callbacks(5)] assms(1)]
      okeepsD [OF okeeps_gw_rt [OF keeps_rt_frame_callbacks(6)] assms(1)])

lemma gw_init_inv: "gw_init env g \<Longrightarrow> gw_inv env g"
  by (simp add: gw_init_def new_Gateway_def gw_inv_def gw_core_def names_ok_def rt_frame_def rt_inv_def empty_rt_def)

interpretation gw: invariant_system "gw_init env" "gw_step env" "gw_inv env" for env
  by unfold_locales (rule gw_init_inv, assumption, rule gw_step_inv)

end
