(* ===== verification/Gateway_Demo.thy ===== *)
theory Gateway_Demo
  imports Gateway
begin

text \<open>
  A concrete environment for the gateway, in which the theorems about it are run.
\<close>

section \<open>A concrete environment\<close>

text \<open>
  Libraries that accept everything, a configuration with a callback address, a clock that
  advances one second per reading: the environment the witnesses run in.
\<close>

definition demo_user :: td_user where
  "demo_user = \<lparr>tu_id = 42, tu_first_name = ''Ann'', tu_last_name = [], tu_usernames = Some ''ann'',
     tu_phone_number = ''100'', tu_have_access = True\<rparr>"

definition demo_td :: td_env where
  "demo_td = \<lparr>td_answer = (\<lambda>h f. case f of
       getUser i \<Rightarrow> td_user_object demo_user
     | createCall u p v \<Rightarrow> td_callId 9
     | importContacts cs \<Rightarrow> td_importedContacts [42]
     | searchPublicChat n \<Rightarrow> td_chat 42 (chatTypePrivate 42)
     | _ \<Rightarrow> td_ok)\<rparr>"

definition demo_env :: env where
  "demo_env = \<lparr>e_pj = quiet_pj, e_td = demo_td, e_ntg = obliging, e_settings = demo_settings,
     e_clock = (\<lambda>n. int n * 1000000000), e_pid = 7\<rparr>"

definition demo0 :: gateway where
  "demo0 = new_Gateway demo_env (new_sip_client demo_settings) (new_tg_client demo_settings) empty_rt"

end
