(* ===== verification/Gateway_Props.thy ===== *)
theory Gateway_Props
  imports Gateway_Inv Gateway_Demo
begin

text \<open>
  What the gateway does with calls: the properties of its event handlers, from the invariant and
  from the equations of the actions.
\<close>

section \<open>Structure of reachable states\<close>

lemma gw_inv_bridge:
  assumes "gw_inv env g" and "b \<in> set (gw_bridges g)"
  shows "(sm_state (br_sm b) = S_from_tg \<and> sm_subs (br_sm b) S_from_tg \<noteq> sip_wait_confirm
        \<and> (ctx_controller (br_ctx b) \<noteq> None \<longleftrightarrow> sm_subs (br_sm b) S_from_tg = wait_dtmf))
    \<or> (sm_state (br_sm b) = S_from_sip
        \<and> (ctx_controller (br_ctx b) \<noteq> None \<longleftrightarrow> sm_subs (br_sm b) S_from_sip \<in> {sip_wait_media, wait_dtmf}))"
proof -
  have "in_call b" "sm_ok (br_sm b) (ctx_controller (br_ctx b))"
    using assms by (auto simp: gw_inv_def gw_core_def list_all_iff)
  then show ?thesis by (auto simp: in_call_def sm_ok_def)
qed

lemma gw_inv_controllers:
  assumes "gw_inv env g"
  shows "(\<exists>c. nw_heap (w_rt (gw_world g)) a = Some c) \<longleftrightarrow> (\<exists>b \<in> set (gw_bridges g). ctx_controller (br_ctx b) = Some a)"
proof -
  have "dom (nw_heap (w_rt (gw_world g))) = set (ctls (gw_bridges g))"
    using assms by (simp add: gw_inv_def gw_core_def rt_frame_def)
  moreover have "a \<in> set (ctls bs) \<longleftrightarrow> (\<exists>b \<in> set bs. ctx_controller (br_ctx b) = Some a)" for bs
    by (induction bs) (auto simp: ctl_list_def split: option.splits)
  ultimately show ?thesis by blast
qed

text \<open>
  C1. Structure of every reachable state of the gateway, however the loop, the libraries' callbacks
  and the audio threads interleave: each bridge is in a call that came from Telegram or from SIP
  (none is left in the initial or the final state); it owns a controller exactly in the states
  after the call was connected, which are the states whose rows bridge audio or send DTMF; no two
  bridges own the same one; a controller exists exactly as long as a bridge owns it (none leaks,
  none is used after it was freed); and context names are unique.
\<close>

theorem gateway_structure:
  assumes "reach (gw_init env) (gw_step env) g"
  shows "list_all (\<lambda>b.
        (sm_state (br_sm b) = S_from_tg \<and> sm_subs (br_sm b) S_from_tg \<noteq> sip_wait_confirm
          \<and> (ctx_controller (br_ctx b) \<noteq> None \<longleftrightarrow> sm_subs (br_sm b) S_from_tg = wait_dtmf))
        \<or> (sm_state (br_sm b) = S_from_sip
          \<and> (ctx_controller (br_ctx b) \<noteq> None \<longleftrightarrow> sm_subs (br_sm b) S_from_sip \<in> {sip_wait_media, wait_dtmf})))
      (gw_bridges g)
    \<and> distinct (List.map_filter (ctx_controller \<circ> br_ctx) (gw_bridges g))
    \<and> ((\<exists>c. nw_heap (w_rt (gw_world g)) a = Some c) \<longleftrightarrow> (\<exists>b \<in> set (gw_bridges g). ctx_controller (br_ctx b) = Some a))
    \<and> distinct (map (ctx_id \<circ> br_ctx) (gw_bridges g))"
proof -
  have inv: "gw_inv env g" using assms by (rule gw.reach_inv)
  have "ctls bs = List.map_filter (ctx_controller \<circ> br_ctx) bs" for bs
    by (induction bs) (auto simp: ctl_list_def map_filter_simps split: option.splits)
  then have "distinct (List.map_filter (ctx_controller \<circ> br_ctx) (gw_bridges g))"
    using inv by (simp add: gw_inv_def gw_core_def)
  moreover have "distinct (map (ctx_id \<circ> br_ctx) (gw_bridges g))"
    using inv by (intro names_ok_distinct [of env]) (simp add: gw_inv_def gw_core_def)
  ultimately show ?thesis
    using gw_inv_bridge [OF inv] gw_inv_controllers [OF inv, of a] unfolding list_all_iff by blast
qed


section \<open>A call in a concrete environment\<close>

definition demo1 :: gateway where
  "demo1 = snd (gw_sip (onIncomingCall quiet_pj 0) demo0)"

definition demo2 :: gateway where
  "demo2 = snd (tick demo_env demo1)"

lemma demo_runs:
  "fst (gw_sip (onIncomingCall quiet_pj 0) demo0) = Inr ()" "fst (tick demo_env demo1) = Inr ()"
  "length (gw_bridges demo2) = 1"
  by code_simp+

lemma reach_demo2: "reach (gw_init demo_env) (gw_step demo_env) demo2"
proof -
  have "reach (gw_init demo_env) (gw_step demo_env) demo0"
    by (rule reach_init) (simp add: gw_init_def demo0_def demo_env_def)
  moreover have "gw_step demo_env demo0 demo1"
    using demo_runs(1) by (intro gw_incoming [where i = 0]) (simp add: demo1_def demo_env_def prod_eq_iff)
  moreover have "gw_step demo_env demo1 demo2"
    using demo_runs(2) by (intro gw_tick) (simp add: demo2_def prod_eq_iff)
  ultimately show ?thesis by (meson reach_step)
qed

theorem gateway_structure_witness:
  "length (gw_bridges demo2) = 1 \<and> distinct (map (ctx_id \<circ> br_ctx) (gw_bridges demo2))
   \<and> nw_heap (w_rt (gw_world demo2)) 0 = None"
proof -
  have "\<not> (\<exists>b \<in> set (gw_bridges demo2). ctx_controller (br_ctx b) = Some 0)"
    by code_simp
  then show ?thesis
    using gateway_structure [OF reach_demo2, of 0] demo_runs(3) by auto
qed

section \<open>Ending a call\<close>

lemma Hangup_outcome: "fst (Hangup env i prm s) = Inr () \<or> (\<exists>r. fst (Hangup env i prm s) = Inl (PjError r))"
  by (simp add: Hangup_eq split: option.splits)

lemma CleanUp_eq:
  "CleanUp env (c, w) =
     (case (case ctx_controller c of None \<Rightarrow> (Inr (), w_rt w) | Some a \<Rightarrow> Stop (e_ntg env) a (w_rt w)) of
        (Inl x, r) \<Rightarrow> (Inl x, (c, w\<lparr>w_rt := r\<rparr>))
      | (Inr _, r) \<Rightarrow>
         (case (if tg_call_id c = 0 then (Inr td_ok, w_tg w)
                else td_get (e_td env) (discardCall (tg_call_id c) False [] 0 False (tg_call_id c)) (w_tg w)) of
            (Inl x, t) \<Rightarrow> (Inl x, (c, w\<lparr>w_rt := r, w_tg := t\<rparr>))
          | (Inr _, t) \<Rightarrow>
              (Inr (), (c\<lparr>tg_call_id := 0, sip_call_id := PJSUA_INVALID_ID\<rparr>,
                 w\<lparr>w_rt := r, w_tg := t,
                   w_sip := (if sip_call_id c = PJSUA_INVALID_ID then w_sip w
                             else snd (Hangup (e_pj env) (sip_call_id c) (hangup_prm c) (w_sip w)))\<rparr>))))"
proof -
  obtain r1 r where stop: "(case ctx_controller c of None \<Rightarrow> (Inr (), w_rt w) | Some a \<Rightarrow> Stop (e_ntg env) a (w_rt w)) = (r1, r)"
    by fastforce
  obtain d1 t where td: "td_get (e_td env) (discardCall (tg_call_id c) False [] 0 False (tg_call_id c)) (w_tg w) = (d1, t)"
    by fastforce
  obtain h1 s where hang: "Hangup (e_pj env) (sip_call_id c) (hangup_prm c) (w_sip w) = (h1, s)" by fastforce
  have h1: "h1 = Inr () \<or> (\<exists>x. h1 = Inl (PjError x))"
    using Hangup_outcome [of "e_pj env" "sip_call_id c" "hangup_prm c" "w_sip w"] hang by simp
  show ?thesis
    using stop td hang h1
    by (cases c; cases w; cases "ctx_controller c"; cases r1; cases d1)
      (auto simp: CleanUp_def thenM_def bindM_def whenM_def tryM_def act_simps returnM_def)
qed


text \<open>
  What the end of a call with context \<open>c\<close> leaves behind: the Telegram call, if there is still one,
  was asked to be discarded; the SIP call, if there is still one and the client knows it, was asked to
  hang up with the parameters of the context, and the client forgets it unless that was refused; the
  controller is gone and no sink refers to it.
\<close>

definition hung_up :: "pj_env \<Rightarrow> int \<Rightarrow> CallOpParam \<Rightarrow> sip_client \<Rightarrow> sip_client" where
  "hung_up env i prm s =
     (if sip_calls s i = None then s
      else s\<lparr>pj_ops := pj_ops s @ [pj_hangup i prm],
             sip_calls := (if pj_error env (pj_ops s) (pj_hangup i prm) = None then (sip_calls s)(i := None) else sip_calls s)\<rparr>)"

lemma snd_Hangup: "snd (Hangup env i prm s) = hung_up env i prm s"
  by (auto simp: Hangup_eq hung_up_def map_erase_def split: option.split)

definition released :: "env \<Rightarrow> ctx \<Rightarrow> world \<Rightarrow> world \<Rightarrow> bool" where
  "released env c w w' \<longleftrightarrow>
     tg_sent (w_tg w') = tg_sent (w_tg w) @ (if tg_call_id c = 0 then []
       else [(tg_current_query_id (w_tg w) + 1, Some (discardCall (tg_call_id c) False [] 0 False (tg_call_id c)))])
     \<and> w_sip w' = (if sip_call_id c = -1 then w_sip w else hung_up (e_pj env) (sip_call_id c) (hangup_prm c) (w_sip w))
     \<and> (\<forall>a. ctx_controller c = Some a \<longrightarrow> nw_heap (w_rt w') a = None \<and> (\<forall>u. nw_sinks (w_rt w') u \<noteq> Some a))"

lemma CleanUp_returns:
  assumes "CleanUp env (c, w) = (Inr (), (c', w'))" and "tg_inv (w_tg w)" and "ids_left (w_tg w)"
  shows "ctx_controller c' = ctx_controller c
    \<and> tg_sent (w_tg w') = tg_sent (w_tg w) @ (if tg_call_id c = 0 then []
       else [(tg_current_query_id (w_tg w) + 1, Some (discardCall (tg_call_id c) False [] 0 False (tg_call_id c)))])
     \<and> w_sip w' = (if sip_call_id c = PJSUA_INVALID_ID then w_sip w
         else snd (Hangup (e_pj env) (sip_call_id c) (hangup_prm c) (w_sip w)))"
proof -
  obtain r1 r where stop: "(case ctx_controller c of None \<Rightarrow> (Inr (), w_rt w) | Some a \<Rightarrow> Stop (e_ntg env) a (w_rt w)) = (r1, r)"
    by fastforce
  show ?thesis
    using assms(1) stop unfolding CleanUp_eq td_get_eq [OF assms(2,3)]
    by (cases r1) (auto split: if_splits)
qed

lemma main_to_X:
  assumes "select (StateMachine env) (sm_state s) e = Some t" and "t_dst t = S_X"
    and "mc_sub (machine env) (sm_state s) = Some (table, i)" and "select table (sm_subs s (sm_state s)) e = None"
    and "t_action t e (c, w) = (Inr (), (c1, w))"
  shows "sm_process_event (machine env) s e (c, w) =
    (case CleanUp env (c1, w) of (Inl x, cw) \<Rightarrow> (Inl x, cw) | (Inr _, cw) \<Rightarrow> (Inr (s\<lparr>sm_state := S_X\<rparr>), cw))"
proof -
  have "main_process (machine env) s e (c, w) =
      (case CleanUp env (c1, w) of (Inl x, cw) \<Rightarrow> (Inl x, cw) | (Inr _, cw) \<Rightarrow> (Inr (s\<lparr>sm_state := S_X\<rparr>), cw))"
    using assms(1,2,5)
    by (auto simp: main_process_def machine_def thenM_def bindM_def returnM_def enter_def sub_tables_def
        split: prod.splits sum.splits)
  then show ?thesis
    using assms(3,4) by (simp add: sm_process_event_def bindM_def sub_process_def returnM_def)
qed

lemma dispatch_final:
  assumes inv: "gw_inv env g" and i: "i < length (gw_bridges g)" and b: "b = gw_bridges g ! i"
    and sel: "select (StateMachine env) (sm_state (br_sm b)) e = Some t" "t_dst t = S_X"
    and sub: "mc_sub (machine env) (sm_state (br_sm b)) = Some (table, init)"
      "select table (sm_subs (br_sm b) (sm_state (br_sm b))) e = None"
    and act: "t_action t e (br_ctx b, gw_world g) = (Inr (), (c1, gw_world g))" "ctx_controller c1 = ctx_controller (br_ctx b)"
    and tg: "tg_inv (w_tg (gw_world g))" "ids_left (w_tg (gw_world g))"
    and run: "dispatch env i e g = (Inr (), g')"
  shows "gw_bridges g' = erase_at i (gw_bridges g) \<and> released env c1 (gw_world g) (gw_world g')"
proof -
  obtain g1 where g1: "bridge_event env i e g = (Inr (), g1)"
      "whenM (sm_is (br_sm (gw_bridges g1 ! i)) S_X) (delete_bridge env i) g1 = (Inr (), g')"
    using run by (auto simp: dispatch_def thenM_def bindM_Inr_iff getM_def)
  obtain c2 w2 where cl: "CleanUp env (c1, gw_world g) = (Inr (), (c2, w2))"
      "g1 = g\<lparr>gw_bridges := (gw_bridges g)[i := \<lparr>br_sm = (br_sm b)\<lparr>sm_state := S_X\<rparr>, br_ctx = c2\<rparr>], gw_world := w2\<rparr>"
    using g1(1) main_to_X [OF sel sub act(1)] b
    by (auto simp: bridge_event_def Let_def split: prod.splits sum.splits)
  note clean = CleanUp_returns [OF cl(1) tg]
  have core: "gw_core env g1" using bridge_event_core [OF _ i g1(1)] inv by (simp add: gw_inv_def)
  have at_i: "gw_bridges g1 ! i = \<lparr>br_sm = (br_sm b)\<lparr>sm_state := S_X\<rparr>, br_ctx = c2\<rparr>" "i < length (gw_bridges g1)"
    using i by (simp_all add: cl(2))
  have del: "delete_bridge env i g1 = (Inr (), g')"
    using g1(2) at_i by (simp add: whenM_def sm_is_def)
  have core': "gw_core env g'" "gw_bridges g' = erase_at i (gw_bridges g1)"
    using delete_bridge_core [OF core at_i(2) del] by auto
  have bs: "gw_bridges g' = erase_at i (gw_bridges g)"
    using i by (simp add: core'(2) cl(2) erase_at_def upd_conv_take_nth_drop)
  have r: "w_tg (gw_world g') = w_tg w2" "w_sip (gw_world g') = w_sip w2"
    using del at_i by (auto simp: delete_bridge_def prog_simps cl(2) split: option.splits prod.splits sum.splits)
  have ctl: "nw_heap (w_rt (gw_world g')) a = None \<and> (\<forall>u. nw_sinks (w_rt (gw_world g')) u \<noteq> Some a)"
    if "ctx_controller c1 = Some a" for a
  proof -
    have "a \<in> set (ctl_list (gw_bridges g1 ! i))"
      using that clean by (simp add: at_i ctl_list_def)
    moreover have "distinct (ctls (gw_bridges g1))" using core by (simp add: gw_core_def)
    ultimately have "a \<notin> set (ctls (erase_at i (gw_bridges g1)))"
      using list_split_at(1) [OF at_i(2)] ctls_append [of "take i (gw_bridges g1)" "gw_bridges g1 ! i # drop (Suc i) (gw_bridges g1)"]
      by (auto simp: erase_at_def)
    then have none: "nw_heap (w_rt (gw_world g')) a = None" and rt: "rt_inv (w_rt (gw_world g'))"
      using core' by (auto simp: gw_core_def rt_frame_def dom_def)
    then show ?thesis using sink_live [OF rt] by fastforce
  qed
  show ?thesis
    using bs clean ctl act(2) by (simp add: released_def r snd_Hangup PJSUA_INVALID_ID_def)
qed


text \<open>
  The calling library accepts the stop of the call that the controller of a context has created,
  if it has created one.
\<close>

definition stop_accepted :: "env \<Rightarrow> ctx \<Rightarrow> world \<Rightarrow> bool" where
  "stop_accepted env c w \<longleftrightarrow>
     (case ctx_controller c of
        None \<Rightarrow> True
      | Some a \<Rightarrow>
          (case nw_heap (w_rt w) a of
             None \<Rightarrow> True
           | Some k \<Rightarrow> ct_created k \<longrightarrow> ntg_outcome (e_ntg env) (nw_ops (w_rt w)) (ntg_stop (ct_user_id k)) = None))"

lemma stop_accepted_Stop:
  assumes "stop_accepted env c w" and "ctx_controller c = Some a" and "nw_heap (w_rt w) a = Some k"
  shows "\<exists>r k'. Stop (e_ntg env) a (w_rt w) = (Inr (), r) \<and> nw_heap r a = Some k' \<and> \<not> ct_created k'"
  using assms by (auto simp: stop_accepted_def Stop_eq [OF assms(3)] Let_def stopped_def)

lemma destroy_stopped:
  assumes "nw_heap r a = Some k" and "\<not> ct_created k"
  shows "destroy_controller env a r = (Inr (), r\<lparr>nw_heap := map_erase a (nw_heap r)\<rparr>)"
  using assms by (simp add: destroy_eq)

lemma dispatch_final_returns:
  assumes inv: "gw_inv env g" and i: "i < length (gw_bridges g)" and b: "b = gw_bridges g ! i"
    and sel: "select (StateMachine env) (sm_state (br_sm b)) e = Some t" "t_dst t = S_X"
    and sub: "mc_sub (machine env) (sm_state (br_sm b)) = Some (table, init)"
      "select table (sm_subs (br_sm b) (sm_state (br_sm b))) e = None"
    and act: "t_action t e (br_ctx b, gw_world g) = (Inr (), (c1, gw_world g))" "ctx_controller c1 = ctx_controller (br_ctx b)"
    and tg: "tg_inv (w_tg (gw_world g))" "ids_left (w_tg (gw_world g))"
    and stop: "stop_accepted env (br_ctx b) (gw_world g)"
  shows "\<exists>g'. dispatch env i e g = (Inr (), g') \<and> gw_bridges g' = erase_at i (gw_bridges g)
    \<and> released env c1 (gw_world g) (gw_world g')"
proof -
  have "\<exists>c2 w2. CleanUp env (c1, gw_world g) = (Inr (), (c2, w2)) \<and> ctx_controller c2 = ctx_controller c1
      \<and> (\<forall>a. ctx_controller c1 = Some a \<longrightarrow> (\<exists>k. nw_heap (w_rt w2) a = Some k \<and> \<not> ct_created k))"
  proof (cases "ctx_controller c1")
    case None
    then show ?thesis by (simp add: CleanUp_eq td_get_eq [OF tg])
  next
    case (Some a)
    then obtain k where "nw_heap (w_rt (gw_world g)) a = Some k"
      using gw_inv_controllers [OF inv, of a] act(2) b i nth_mem by metis
    then obtain r k' where "Stop (e_ntg env) a (w_rt (gw_world g)) = (Inr (), r)" "nw_heap r a = Some k'" "\<not> ct_created k'"
      using stop_accepted_Stop stop act(2) Some by metis
    then show ?thesis using Some by (simp add: CleanUp_eq td_get_eq [OF tg])
  qed
  then obtain c2 w2 where cl: "CleanUp env (c1, gw_world g) = (Inr (), (c2, w2))"
      "\<And>a. ctx_controller c2 = Some a \<Longrightarrow> \<exists>k. nw_heap (w_rt w2) a = Some k \<and> \<not> ct_created k" by auto
  have "\<exists>g'. dispatch env i e g = (Inr (), g')"
    using main_to_X [OF sel sub act(1)] cl b i
    by (auto simp: dispatch_def bridge_event_def Let_def prog_simps sm_is_def delete_bridge_def destroy_stopped
        whenM_def split: option.split)
  then show ?thesis using dispatch_final [OF inv i b sel sub act tg] by blast
qed


text \<open>The rows that end a call, in either direction.\<close>

lemma ending_rows:
  assumes "in_call b"
  shows "\<exists>table init. mc_sub (machine env) (sm_state (br_sm b)) = Some (table, init)
      \<and> (\<forall>q cid prm. select table q (EvInternalError cid prm) = None)
      \<and> (\<forall>q j. select table q (EvCallState j PJSIP_INV_STATE_DISCONNECTED) = None)
      \<and> (\<forall>q call. call_state_get_id (tc_state call) \<in> {callStateDiscarded_ID, callStateError_ID} \<longrightarrow>
            select table q (EvUpdateCall call) = None)"
    and "\<exists>t. select (StateMachine env) (sm_state (br_sm b)) (EvInternalError cid prm) = Some t
      \<and> t_dst t = S_X \<and> t_action t = SetHangupPrm"
    and "\<exists>t. select (StateMachine env) (sm_state (br_sm b)) (EvCallState j PJSIP_INV_STATE_DISCONNECTED) = Some t
      \<and> t_dst t = S_X \<and> t_action t = CleanSipId"
    and "call_state_get_id (tc_state call) \<in> {callStateDiscarded_ID, callStateError_ID} \<Longrightarrow>
      \<exists>t. select (StateMachine env) (sm_state (br_sm b)) (EvUpdateCall call) = Some t
      \<and> t_dst t = S_X \<and> t_action t = CleanTgId"
  using assms
  by (auto simp: in_call_def machine_def sub_tables_def from_tg_def from_sip_def StateMachine_def enabled_def row_def
      IsInState_def IsSipInState_def sml_always_def sml_or_def)

text \<open>
  C8. A failure ends the call it belongs to with the status it chose. Handling an internal error
  for the context of a bridge removes that bridge and no other, hangs up its SIP leg with the
  status and reason of the error, discards its Telegram call, and frees its controller; an error
  for a context that is gone changes nothing.
\<close>

theorem internal_error_ends_call:
  assumes "gw_inv env g" and "i < length (gw_bridges g)" and "b = gw_bridges g ! i"
    and "tg_inv (w_tg (gw_world g))" and "ids_left (w_tg (gw_world g))"
    and "stop_accepted env (br_ctx b) (gw_world g)"
  shows "(\<exists>g'. process_InternalError env (ctx_id (br_ctx b)) prm g = (Inr (), g')
      \<and> gw_bridges g' = erase_at i (gw_bridges g)
      \<and> released env ((br_ctx b)\<lparr>hangup_prm := prm\<rparr>) (gw_world g) (gw_world g'))
    \<and> ((\<forall>b' \<in> set (gw_bridges g). ctx_id (br_ctx b') \<noteq> cid) \<longrightarrow> process_InternalError env cid prm g = (Inr (), g))"
proof -
  have in_call: "in_call b" using gw_inv_nth [OF assms(1,2)] assms(3) by simp
  have "find_if (\<lambda>b'. ctx_id (br_ctx b') = ctx_id (br_ctx b)) (gw_bridges g) = Some i"
  proof (cases "find_if (\<lambda>b'. ctx_id (br_ctx b') = ctx_id (br_ctx b)) (gw_bridges g)")
    case None
    then show ?thesis using assms(2,3) by (auto simp: find_if_None)
  next
    case (Some j)
    have "distinct (map (ctx_id \<circ> br_ctx) (gw_bridges g))"
      using assms(1) by (intro names_ok_distinct [of env]) (simp add: gw_inv_def gw_core_def)
    then have "j = i"
      using find_if_Some [OF Some] assms(2,3) by (simp add: distinct_conv_nth) metis
    then show ?thesis using Some by simp
  qed
  then have run: "process_InternalError env (ctx_id (br_ctx b)) prm g = dispatch env i (EvInternalError (ctx_id (br_ctx b)) prm) g"
    by (simp add: process_InternalError_def bindM_def getM_def)
  obtain table init where sub: "mc_sub (machine env) (sm_state (br_sm b)) = Some (table, init)"
      "select table (sm_subs (br_sm b) (sm_state (br_sm b))) (EvInternalError (ctx_id (br_ctx b)) prm) = None"
    using ending_rows(1) [OF in_call, of env] by blast
  obtain t where t: "select (StateMachine env) (sm_state (br_sm b)) (EvInternalError (ctx_id (br_ctx b)) prm) = Some t"
      "t_dst t = S_X" "t_action t = SetHangupPrm"
    using ending_rows(2) [OF in_call] by blast
  have "\<exists>g'. process_InternalError env (ctx_id (br_ctx b)) prm g = (Inr (), g')
      \<and> gw_bridges g' = erase_at i (gw_bridges g)
      \<and> released env ((br_ctx b)\<lparr>hangup_prm := prm\<rparr>) (gw_world g) (gw_world g')"
    unfolding run by (rule dispatch_final_returns [OF assms(1-3) t(1,2) sub _ _ assms(4-6)])
      (simp_all add: t(3) SetHangupPrm_def act_simps)
  moreover have "process_InternalError env cid prm g = (Inr (), g)"
    if "\<forall>b' \<in> set (gw_bridges g). ctx_id (br_ctx b') \<noteq> cid"
    using that find_if_None [of "\<lambda>b. ctx_id (br_ctx b) = cid" "gw_bridges g"]
    by (simp add: process_InternalError_def bindM_def getM_def returnM_def)
  ultimately show ?thesis by blast
qed


text \<open>A gateway with one call from SIP that is being dialed on the Telegram side.\<close>

definition call_gw :: gateway where
  "call_gw =
     \<lparr>gw_bridges = [\<lparr>br_sm = \<lparr>sm_state = S_from_sip, sm_subs = (\<lambda>_. wait_tg)\<rparr>,
        br_ctx = (new_Context (ctx_name demo_env 1))\<lparr>sip_call_id := 0, tg_call_id := 9\<rparr>\<rparr>],
      gw_world = (gw_world demo0)\<lparr>w_sip := (new_sip_client demo_settings)
        \<lparr>sip_calls := [0 \<mapsto> \<lparr>so_serial = 0, so_local_user = ''42''\<rparr>], sip_serial := 1\<rparr>\<rparr>,
      gw_ctx_counter = 1\<rparr>"

lemma call_gw_facts:
  "gw_inv demo_env call_gw" "tg_inv (w_tg (gw_world call_gw))" "ids_left (w_tg (gw_world call_gw))"
  "length (gw_bridges call_gw) = 1"
  "stop_accepted demo_env (br_ctx (gw_bridges call_gw ! 0)) (gw_world call_gw)"
proof -
  have w: "w_tg (gw_world call_gw) = new_tg_client demo_settings" "w_rt (gw_world call_gw) = empty_rt"
    by (simp_all add: call_gw_def demo0_def new_Gateway_def)
  show "gw_inv demo_env call_gw"
    unfolding gw_inv_def gw_core_def names_ok_def w
    by (auto simp: call_gw_def new_Context_def sm_ok_def in_call_def ctl_list_def rt_frame_def rt_inv_def empty_rt_def)
  show "tg_inv (w_tg (gw_world call_gw))" unfolding w by (rule tg_inv_new)
  show "ids_left (w_tg (gw_world call_gw))" unfolding w by (simp add: ids_left_def new_tg_client_def)
  show "stop_accepted demo_env (br_ctx (gw_bridges call_gw ! 0)) (gw_world call_gw)"
    by (simp add: stop_accepted_def call_gw_def new_Context_def)
qed (simp add: call_gw_def)

theorem internal_error_ends_call_witness:
  "gw_bridges (snd (process_InternalError demo_env (ctx_name demo_env 1) (server_error False ''x'') call_gw)) = []
   \<and> tg_sent (w_tg (gw_world (snd (process_InternalError demo_env (ctx_name demo_env 1) (server_error False ''x'') call_gw))))
      = [(1, Some (discardCall 9 False [] 0 False 9))]"
proof -
  have b: "ctx_id (br_ctx (gw_bridges call_gw ! 0)) = ctx_name demo_env 1"
    by (simp add: call_gw_def new_Context_def)
  obtain g' where g': "process_InternalError demo_env (ctx_name demo_env 1) (server_error False ''x'') call_gw = (Inr (), g')"
      "gw_bridges g' = erase_at 0 (gw_bridges call_gw)"
      "released demo_env ((br_ctx (gw_bridges call_gw ! 0))\<lparr>hangup_prm := server_error False ''x''\<rparr>)
        (gw_world call_gw) (gw_world g')"
    using internal_error_ends_call [OF call_gw_facts(1) _ refl call_gw_facts(2,3,5), of "server_error False ''x''"]
      call_gw_facts(4) b by auto
  have "gw_bridges g' = []" unfolding g'(2) by (simp add: call_gw_def erase_at_def)
  moreover have "tg_sent (w_tg (gw_world g')) = [(1, Some (discardCall 9 False [] 0 False 9))]"
    using g'(3) by (simp add: released_def call_gw_def demo0_def new_Gateway_def new_tg_client_def)
  ultimately show ?thesis unfolding g'(1) by simp
qed

text \<open>
  C9. A hang-up on one side ends the other side once. When Telegram reports the call discarded or
  failed, the SIP library is asked to hang up the SIP call, with the parameters of the context, the client
  forgets that call unless the library refuses, and no discard is sent back. When SIP reports the call
  disconnected, the Telegram call is discarded with one query and the SIP client is left as it is: no
  hang-up is sent back, and the entry of the call stays in its map. Either way the bridge is removed, and its
  controller is freed and no longer reachable by a sink.
\<close>

theorem hangup_crosses_over:
  assumes "gw_inv env g" and "i < length (gw_bridges g)" and "b = gw_bridges g ! i"
    and "tg_inv (w_tg (gw_world g))" and "ids_left (w_tg (gw_world g))"
    and "call_state_get_id (tc_state call) \<in> {callStateDiscarded_ID, callStateError_ID}"
    and "stop_accepted env (br_ctx b) (gw_world g)"
    and "sip = sip_call_id (br_ctx b)" and "tg = tg_call_id (br_ctx b)" and "s = w_sip (gw_world g)"
    and "bye = pj_hangup sip (hangup_prm (br_ctx b))"
  shows "(\<exists>g'. dispatch env i (EvUpdateCall call) g = (Inr (), g')
        \<and> gw_bridges g' = erase_at i (gw_bridges g)
        \<and> w_sip (gw_world g') = (if sip = -1 \<or> sip_calls s sip = None then s
             else s\<lparr>pj_ops := pj_ops s @ [bye],
                    sip_calls := (if pj_error (e_pj env) (pj_ops s) bye = None then (sip_calls s)(sip := None) else sip_calls s)\<rparr>)
        \<and> tg_sent (w_tg (gw_world g')) = tg_sent (w_tg (gw_world g))
        \<and> (\<forall>a. ctx_controller (br_ctx b) = Some a \<longrightarrow>
             nw_heap (w_rt (gw_world g')) a = None \<and> (\<forall>u. nw_sinks (w_rt (gw_world g')) u \<noteq> Some a)))
    \<and> (\<exists>g'. dispatch env i (EvCallState sip PJSIP_INV_STATE_DISCONNECTED) g = (Inr (), g')
        \<and> gw_bridges g' = erase_at i (gw_bridges g)
        \<and> w_sip (gw_world g') = s
        \<and> map snd (tg_sent (w_tg (gw_world g'))) = map snd (tg_sent (w_tg (gw_world g)))
             @ (if tg = 0 then [] else [Some (discardCall tg False [] 0 False tg)])
        \<and> (\<forall>a. ctx_controller (br_ctx b) = Some a \<longrightarrow>
             nw_heap (w_rt (gw_world g')) a = None \<and> (\<forall>u. nw_sinks (w_rt (gw_world g')) u \<noteq> Some a)))"
proof (rule conjI)
  have in_call: "in_call b" using gw_inv_nth [OF assms(1,2)] assms(3) by simp
  obtain table init where sub: "mc_sub (machine env) (sm_state (br_sm b)) = Some (table, init)"
      "\<And>q j. select table q (EvCallState j PJSIP_INV_STATE_DISCONNECTED) = None"
      "\<And>q. select table q (EvUpdateCall call) = None"
    using ending_rows(1) [OF in_call, of env] assms(6) by blast
  obtain t where t: "select (StateMachine env) (sm_state (br_sm b)) (EvUpdateCall call) = Some t"
      "t_dst t = S_X" "t_action t = CleanTgId"
    using ending_rows(4) [OF in_call assms(6)] by blast
  obtain g1 where "dispatch env i (EvUpdateCall call) g = (Inr (), g1)" "gw_bridges g1 = erase_at i (gw_bridges g)"
      "released env ((br_ctx b)\<lparr>tg_call_id := 0\<rparr>) (gw_world g) (gw_world g1)"
    using dispatch_final_returns [OF assms(1-3) t(1,2) sub(1,3) _ _ assms(4,5,7)] by (auto simp: t(3) CleanTgId_def act_simps)
  then show "\<exists>g'. dispatch env i (EvUpdateCall call) g = (Inr (), g')
        \<and> gw_bridges g' = erase_at i (gw_bridges g)
        \<and> w_sip (gw_world g') = (if sip = -1 \<or> sip_calls s sip = None then s
             else s\<lparr>pj_ops := pj_ops s @ [bye],
                    sip_calls := (if pj_error (e_pj env) (pj_ops s) bye = None then (sip_calls s)(sip := None) else sip_calls s)\<rparr>)
        \<and> tg_sent (w_tg (gw_world g')) = tg_sent (w_tg (gw_world g))
        \<and> (\<forall>a. ctx_controller (br_ctx b) = Some a \<longrightarrow>
             nw_heap (w_rt (gw_world g')) a = None \<and> (\<forall>u. nw_sinks (w_rt (gw_world g')) u \<noteq> Some a))"
    by (intro exI [of _ g1]) (simp add: released_def hung_up_def assms(8-11))
  obtain u where u: "select (StateMachine env) (sm_state (br_sm b)) (EvCallState sip PJSIP_INV_STATE_DISCONNECTED) = Some u"
      "t_dst u = S_X" "t_action u = CleanSipId"
    using ending_rows(3) [OF in_call] by blast
  obtain g2 where "dispatch env i (EvCallState sip PJSIP_INV_STATE_DISCONNECTED) g = (Inr (), g2)"
      "gw_bridges g2 = erase_at i (gw_bridges g)"
      "released env ((br_ctx b)\<lparr>sip_call_id := PJSUA_INVALID_ID\<rparr>) (gw_world g) (gw_world g2)"
    using dispatch_final_returns [OF assms(1-3) u(1,2) sub(1,2) _ _ assms(4,5,7)] by (auto simp: u(3) CleanSipId_def act_simps)
  then show "\<exists>g'. dispatch env i (EvCallState sip PJSIP_INV_STATE_DISCONNECTED) g = (Inr (), g')
        \<and> gw_bridges g' = erase_at i (gw_bridges g)
        \<and> w_sip (gw_world g') = s
        \<and> map snd (tg_sent (w_tg (gw_world g'))) = map snd (tg_sent (w_tg (gw_world g)))
             @ (if tg = 0 then [] else [Some (discardCall tg False [] 0 False tg)])
        \<and> (\<forall>a. ctx_controller (br_ctx b) = Some a \<longrightarrow>
             nw_heap (w_rt (gw_world g')) a = None \<and> (\<forall>u. nw_sinks (w_rt (gw_world g')) u \<noteq> Some a))"
    by (intro exI [of _ g2]) (simp add: released_def PJSUA_INVALID_ID_def assms(9,10))
qed

definition discarded_call :: td_call where
  "discarded_call = \<lparr>tc_id = 9, tc_user_id = 42, tc_is_outgoing = True, tc_state = callStateDiscarded []\<rparr>"

theorem hangup_crosses_over_witness:
  "(\<exists>g'. dispatch demo_env 0 (EvUpdateCall discarded_call) call_gw = (Inr (), g') \<and> gw_bridges g' = []
      \<and> pj_ops (w_sip (gw_world g')) = [pj_hangup 0 (new_CallOpParam False)] \<and> sip_calls (w_sip (gw_world g')) 0 = None
      \<and> tg_sent (w_tg (gw_world g')) = [])
   \<and> (\<exists>g'. dispatch demo_env 0 (EvCallState 0 PJSIP_INV_STATE_DISCONNECTED) call_gw = (Inr (), g') \<and> gw_bridges g' = []
      \<and> sip_calls (w_sip (gw_world g')) 0 = Some \<lparr>so_serial = 0, so_local_user = ''42''\<rparr>
      \<and> map snd (tg_sent (w_tg (gw_world g'))) = [Some (discardCall 9 False [] 0 False 9)])"
proof -
  let ?b = "gw_bridges call_gw ! 0"
  have ctx: "sip_call_id (br_ctx ?b) = 0" "tg_call_id (br_ctx ?b) = 9" "hangup_prm (br_ctx ?b) = new_CallOpParam False"
      "erase_at 0 (gw_bridges call_gw) = []"
    by (simp_all add: call_gw_def new_Context_def erase_at_def)
  have world: "w_sip (gw_world call_gw) = (new_sip_client demo_settings)
        \<lparr>sip_calls := [0 \<mapsto> \<lparr>so_serial = 0, so_local_user = ''42''\<rparr>], sip_serial := 1\<rparr>"
      "w_tg (gw_world call_gw) = new_tg_client demo_settings" "pj_error (e_pj demo_env) h op = None" for h op
    by (simp_all add: call_gw_def demo0_def new_Gateway_def demo_env_def quiet_pj_def)
  have "call_state_get_id (tc_state discarded_call) \<in> {callStateDiscarded_ID, callStateError_ID}"
    by (simp add: discarded_call_def)
  from hangup_crosses_over [OF call_gw_facts(1) _ refl call_gw_facts(2,3) this call_gw_facts(5) refl refl refl refl]
  show ?thesis
    using call_gw_facts(4) by (simp add: ctx world new_sip_client_def new_tg_client_def) (elim conjE exE, intro conjI exI, auto)
qed

end
