(* ===== verification/Gateway_Dialing.thy ===== *)
theory Gateway_Dialing
  imports Gateway_Demo
begin

text \<open>
  Whom a call from SIP reaches: the extension, the lookup of the Telegram user with its caches, and
  the time during which Telegram accepts no calls.
\<close>

section \<open>Extensions\<close>

text \<open>
  The ways to name a Telegram user in an extension, as a specification: a user name after
  \<^verbatim>\<open>tg#\<close>, a phone number after a plus sign, or the decimal digits of a user id, with or
  without leading zeros; and what the context of the call has to hold for each.
\<close>

datatype callee = Username string | Phone string | UserId int

fun names :: "string \<Rightarrow> callee \<Rightarrow> bool" where
  "names ext (Username n) \<longleftrightarrow> n \<noteq> [] \<and> ext = ''tg#'' @ n"
| "names ext (Phone d) \<longleftrightarrow> d \<noteq> [] \<and> set d \<subseteq> set ''0123456789'' \<and> ext = CHR ''+'' # d"
| "names ext (UserId i) \<longleftrightarrow> 0 \<le> i \<and> i < 2 ^ 63 \<and> (\<exists>k. ext = replicate k (CHR ''0'') @ to_string i)"

fun set_callee :: "callee \<Rightarrow> ctx \<Rightarrow> ctx" where
  "set_callee (Username n) c = c\<lparr>ext_username := n\<rparr>"
| "set_callee (Phone d) c = c\<lparr>ext_phone := d\<rparr>"
| "set_callee (UserId i) c = c\<lparr>user_id := i\<rparr>"

lemma isdigit_iff: "isdigit c \<longleftrightarrow> c \<in> set ''0123456789''"
proof
  assume "isdigit c"
  then have "code c = 48 \<or> code c = 49 \<or> code c = 50 \<or> code c = 51 \<or> code c = 52 \<or> code c = 53
      \<or> code c = 54 \<or> code c = 55 \<or> code c = 56 \<or> code c = 57"
    unfolding isdigit_def by arith
  then have "code c \<in> code ` set ''0123456789''" by simp
  then show "c \<in> set ''0123456789''" by (simp only: image_iff of_char_eq_iff) blast
next
  have "list_all isdigit ''0123456789''" by (simp add: isdigit_def)
  then show "c \<in> set ''0123456789'' \<Longrightarrow> isdigit c" by (simp only: list_all_iff)
qed

lemma is_digits_iff: "is_digits ds \<longleftrightarrow> set ds \<subseteq> set ''0123456789''"
  unfolding is_digits_def list_all_iff isdigit_iff by blast

lemma to_string_is_digits: "0 \<le> i \<Longrightarrow> is_digits (to_string i) \<and> to_string i \<noteq> []"
  by (simp add: to_string_def is_digits_def show_nat_digits show_nat_nonempty)

text \<open>Every string of digits is the numeral of its value after some zeros.\<close>

lemma digits_val_zeros: "digits_val 10 (replicate k (CHR ''0'') @ ds) = digits_val 10 ds"
  by (induction k) (simp_all add: digits_val_def digit_val_def isdigit_def)

lemma char_of_digit: "isdigit c \<Longrightarrow> char_of (48 + digit_val c) = c"
  by (simp add: digit_val_def isdigit_def)

lemma digits_numeral:
  assumes "is_digits ds"
  shows "\<exists>k. ds = replicate k (CHR ''0'') @ (if digits_val 10 ds = 0 then [] else show_nat (digits_val 10 ds))"
  using assms
proof (induction ds rule: rev_induct)
  case (snoc c ds)
  let ?v = "digits_val 10 ds" and ?d = "digit_val c"
  have c: "isdigit c" "?d < 10" "char_of (48 + ?d) = c"
    using snoc.prems by (auto simp: is_digits_def digit_val_digit char_of_digit)
  obtain k where k: "ds = replicate k (CHR ''0'') @ (if ?v = 0 then [] else show_nat ?v)"
    using snoc by (auto simp: is_digits_def)
  have zero: "c = CHR ''0''" if "?d = 0" using c(3) that by (simp add: char_of_def bit_0)
  have step: "show_nat (?v * 10 + ?d) = (if ?v = 0 then [c] else show_nat ?v @ [c])"
    using c by (subst show_nat.simps) auto
  show ?case
  proof (cases "?v = 0 \<and> ?d = 0")
    case True
    then show ?thesis
      using k zero digits_val_zeros [of k "''0''"]
      by (intro exI [of _ "Suc k"]) (simp add: digits_val_snoc replicate_append_same, simp add: digits_val_def digit_val_def isdigit_def)
  next
    case False
    then show ?thesis
      using k step by (intro exI [of _ k]) (auto simp: digits_val_snoc)
  qed
qed (simp add: digits_val_def)

lemma digits_to_string:
  assumes "is_digits ds" and "ds \<noteq> []"
  shows "\<exists>k. ds = replicate k (CHR ''0'') @ to_string (int (digits_val 10 ds))"
proof -
  obtain k where k: "ds = replicate k (CHR ''0'') @ (if digits_val 10 ds = 0 then [] else show_nat (digits_val 10 ds))"
    using digits_numeral [OF assms(1)] by blast
  show ?thesis
  proof (cases "digits_val 10 ds = 0")
    case True
    then obtain m where "k = Suc m" using k assms(2) by (cases k) auto
    moreover have "to_string 0 = ''0''" by (simp add: to_string_def show_nat.simps char_of_def bit_0)
    ultimately show ?thesis
      using k True by (intro exI [of _ m]) (simp add: replicate_append_same)
  next
    case False
    then show ?thesis using k by (intro exI [of _ k]) (simp add: to_string_def)
  qed
qed

lemma digits_no_prefix:
  assumes "is_digits s"
  shows "take 3 s \<noteq> ''tg#''" and "s \<noteq> [] \<Longrightarrow> hd s \<noteq> CHR ''+''"
proof -
  show "take 3 s \<noteq> ''tg#''"
  proof
    assume "take 3 s = ''tg#''"
    then have "CHR ''t'' \<in> set s" by (metis list.set_intros(1) in_set_takeD)
    then show False using assms by (auto simp: is_digits_def list_all_iff isdigit_def)
  qed
  show "s \<noteq> [] \<Longrightarrow> hd s \<noteq> CHR ''+''"
    using assms by (cases s) (auto simp: is_digits_def dest: digit_not_sign)
qed

lemma ext_target_names:
  assumes "names ext t"
  shows "ext_target ext = Some (set_callee t)"
proof (cases t)
  case (UserId i)
  then obtain k where i: "0 \<le> i" "i < 2 ^ 63" and ext: "ext = replicate k (CHR ''0'') @ to_string i"
    using assms by auto
  have digits: "is_digits ext" "ext \<noteq> []"
    using to_string_is_digits [OF i(1)] by (auto simp: ext is_digits_def list_all_iff isdigit_def)
  have val: "digits_val 10 ext = nat i"
    using i(1) by (simp add: ext digits_val_zeros to_string_def digits_val_show_nat)
  have "\<not> (length ext > 3 \<and> take 3 ext = ''tg#'')" "\<not> (length ext > 1 \<and> hd ext = CHR ''+'' \<and> is_digits (drop 1 ext))"
    using digits_no_prefix [OF digits(1)] digits(2) by auto
  moreover have "stol ext = Inr i"
    using stol_digits [OF digits(1)] digits(2) val i by (simp add: LONG_MAX_def)
  ultimately show ?thesis
    using digits(1) UserId by (simp only: ext_target_def) (auto simp: fun_eq_iff)
qed (use assms in \<open>auto simp: ext_target_def is_digits_iff fun_eq_iff\<close>)

lemma ext_target_none:
  assumes "\<forall>t. \<not> names ext t"
  shows "ext_target ext = None"
proof -
  have tg: "\<not> (length ext > 3 \<and> take 3 ext = ''tg#'')"
  proof
    assume *: "length ext > 3 \<and> take 3 ext = ''tg#''"
    then have "ext = ''tg#'' @ drop 3 ext" by (metis append_take_drop_id)
    then have "names ext (Username (drop 3 ext))" using * by simp
    then show False using assms by blast
  qed
  have plus: "\<not> (length ext > 1 \<and> hd ext = CHR ''+'' \<and> is_digits (drop 1 ext))"
  proof
    assume *: "length ext > 1 \<and> hd ext = CHR ''+'' \<and> is_digits (drop 1 ext)"
    then have "names ext (Phone (drop 1 ext))" by (cases ext) (auto simp: is_digits_iff)
    then show False using assms by blast
  qed
  have "\<exists>x. stol ext = Inl x \<and> (x = InvalidArgument \<or> x = OutOfRange)" if d: "is_digits ext"
  proof (cases "ext = [] \<or> int (digits_val 10 ext) > LONG_MAX")
    case True
    then show ?thesis using stol_digits [OF d] by auto
  next
    case False
    then have "names ext (UserId (int (digits_val 10 ext)))"
      using digits_to_string [OF d] by (simp add: LONG_MAX_def)
    then show ?thesis using assms by blast
  qed
  then show ?thesis using tg plus by (auto simp: ext_target_def)
qed

lemma Answer_eq:
  "Answer env i prm s =
     (case sip_calls s i of
        None \<Rightarrow> (Inl (RuntimeError ''CALL_NOT_FOUND''), s)
      | Some call \<Rightarrow>
          ((case pj_error env (pj_ops s) (pj_answer i prm) of Some r \<Rightarrow> Inl (PjError r) | None \<Rightarrow> Inr ()),
           s\<lparr>pj_ops := pj_ops s @ [pj_answer i prm]\<rparr>))"
  by (simp add: Answer_def pj_def prog_simps split: option.split)

text \<open>The machine of a call from SIP that waits for the SIP side to ring.\<close>

definition ringing :: "env \<Rightarrow> (main_state, sub_state) sm" where
  "ringing env = (new_sm (machine env))\<lparr>sm_state := S_from_sip\<rparr>"

lemma enter_from_sip: "enter (machine env) S_from_sip (new_sm (machine env)) = ringing env"
  by (simp add: enter_def machine_def sub_tables_def ringing_def new_sm_def fun_upd_idem)

lemma incoming_row:
  "main_process (machine env) (new_sm (machine env)) (EvIncomingCall i ext) (c, w) =
     (case AcceptIncomingSip env (EvIncomingCall i ext) (c\<lparr>sip_call_id := i\<rparr>, w) of
        (Inl x, cw) \<Rightarrow> (Inl x, cw) | (Inr _, cw) \<Rightarrow> (Inr (ringing env), cw))"
proof -
  have init: "sm_state (new_sm (machine env)) = S_init" by (simp add: new_sm_def machine_def)
  have sel: "select (mc_table (machine env)) S_init (EvIncomingCall i ext) =
      Some (row S_init is_IncomingCall sml_always (sml_seq StoreSipId (AcceptIncomingSip env)) S_from_sip)"
    by (simp add: machine_def StateMachine_def enabled_def row_def sml_always_def)
  have entry: "mc_entry (machine env) S_from_sip = returnM ()" by (simp add: machine_def)
  show ?thesis
    unfolding main_process_def init sel
    by (simp add: row_def sml_seq_def thenM_def bindM_def StoreSipId_def act_simps entry returnM_def enter_from_sip
        split: prod.split sum.split)
qed

text \<open>
  C10. A call from SIP, for every extension. If the extension names a user (a user name after
  \<^verbatim>\<open>tg#\<close>, a phone number after \<^verbatim>\<open>+\<close>, or the decimal digits of a user id below
  \<open>2 ^ 63\<close>, also with leading zeros), a new bridge holds the SIP call and exactly that user, and the SIP
  side is told that it rings; if the library refuses that, its reason is queued as an error of
  this call. Every other extension, the empty one included, gets a bridge that names nobody, no answer
  is sent, and the error 420 is queued for it.
\<close>

theorem incoming_sip_call:
  assumes "\<forall>b \<in> set (gw_bridges g). sip_call_id (br_ctx b) \<noteq> i"
    and "sip_calls (w_sip (gw_world g)) i = Some call"
    and "n = ctx_name env (gw_ctx_counter g + 1)" and "c = (new_Context n)\<lparr>sip_call_id := i\<rparr>"
    and "ring = pj_answer i ((new_CallOpParam True)\<lparr>prm_statusCode := 180\<rparr>)"
    and "w = gw_world g" and "s = w_sip w"
  shows "(\<forall>t. names ext t \<longrightarrow>
      process_sip_event env (IncomingCall i ext) g =
        (Inr (), g\<lparr>gw_bridges := gw_bridges g @ [\<lparr>br_sm = ringing env, br_ctx = set_callee t c\<rparr>],
           gw_world := w\<lparr>w_sip := s\<lparr>pj_ops := pj_ops s @ [ring]\<rparr>,
             w_internal := (case pj_error (e_pj env) (pj_ops s) ring of
                None \<Rightarrow> w_internal w
              | Some r \<Rightarrow> emplace (Some (InternalError n (server_error False r))) (w_internal w))\<rparr>,
           gw_ctx_counter := gw_ctx_counter g + 1\<rparr>))
    \<and> ((\<forall>t. \<not> names ext t) \<longrightarrow>
      process_sip_event env (IncomingCall i ext) g =
        (Inr (), g\<lparr>gw_bridges := gw_bridges g @ [\<lparr>br_sm = ringing env, br_ctx = c\<rparr>],
           gw_world := w\<lparr>w_internal := emplace (Some (InternalError n
             ((new_CallOpParam False)\<lparr>prm_statusCode := 420\<rparr>))) (w_internal w)\<rparr>,
           gw_ctx_counter := gw_ctx_counter g + 1\<rparr>))"
proof -
  have run: "process_sip_event env (IncomingCall i x) g =
      (case AcceptIncomingSip env (EvIncomingCall i x) (c, w) of
         (Inl y, (c', w')) \<Rightarrow> (Inl y, g\<lparr>gw_bridges := gw_bridges g @ [\<lparr>br_sm = new_sm (machine env), br_ctx = c'\<rparr>],
            gw_world := w', gw_ctx_counter := gw_ctx_counter g + 1\<rparr>)
       | (Inr _, (c', w')) \<Rightarrow> (Inr (), g\<lparr>gw_bridges := gw_bridges g @ [\<lparr>br_sm = ringing env, br_ctx = c'\<rparr>],
            gw_world := w', gw_ctx_counter := gw_ctx_counter g + 1\<rparr>))" for x
  proof -
    have "sm_is (ringing env) S_X = False" by (simp add: ringing_def sm_is_def)
    then show ?thesis
      using assms search_dispatch_new [of g "\<lambda>c. sip_call_id c = i" env "EvIncomingCall i x"]
      by (simp add: process_sip_event_def dispatch_new incoming_row whenM_def returnM_def split: prod.split sum.split)
  qed
  have set: "sip_call_id (set_callee t c) = i" "ctx_id (set_callee t c) = n" for t
    using assms(3,4) by (cases t; simp add: new_Context_def)+
  have good: "AcceptIncomingSip env (EvIncomingCall i ext) (c, w) =
      (Inr (), (set_callee t c, w\<lparr>w_sip := s\<lparr>pj_ops := pj_ops s @ [ring]\<rparr>,
             w_internal := (case pj_error (e_pj env) (pj_ops s) ring of
                None \<Rightarrow> w_internal w
              | Some r \<Rightarrow> emplace (Some (InternalError n (server_error False r))) (w_internal w))\<rparr>))" if "names ext t" for t
    using assms(2,5,6,7) set
    by (cases w) (simp add: AcceptIncomingSip_def ext_target_names [OF that] thenM_def bindM_def act_simps tryM_def
        Answer_eq catch_pj_runtime_def internal_error_eq PJSIP_SC_RINGING_def split: option.split)
  have bad: "AcceptIncomingSip env (EvIncomingCall i ext) (c, w) = (Inr (), (c, w\<lparr>w_internal := emplace (Some (InternalError n
             ((new_CallOpParam False)\<lparr>prm_statusCode := 420\<rparr>))) (w_internal w)\<rparr>))" if "\<forall>t. \<not> names ext t"
    using ext_target_none [OF that] assms(3,4)
    by (simp add: AcceptIncomingSip_def internal_error_eq PJSIP_SC_BAD_EXTENSION_def new_Context_def)
  show ?thesis
    unfolding run using good bad by simp
qed

definition ring_gw :: gateway where
  "ring_gw = demo0\<lparr>gw_world := (gw_world demo0)\<lparr>w_sip := (new_sip_client demo_settings)
     \<lparr>sip_calls := [0 \<mapsto> \<lparr>so_serial = 0, so_local_user = ''tg#ann''\<rparr>], sip_serial := 1\<rparr>\<rparr>\<rparr>"

lemma no_name_12x: "\<not> names ''12x'' t"
proof (cases t)
  case (UserId i)
  have "is_digits (replicate k (CHR ''0'') @ to_string i)" if "0 \<le> i" for k
    using to_string_is_digits [OF that] by (auto simp: is_digits_def list_all_iff isdigit_def)
  moreover have "\<not> is_digits ''12x''" by (simp add: is_digits_def isdigit_def)
  ultimately show ?thesis using UserId by auto
qed auto

theorem incoming_sip_call_witness:
  "map (\<lambda>b. (sip_call_id (br_ctx b), ext_username (br_ctx b)))
     (gw_bridges (snd (process_sip_event demo_env (IncomingCall 0 ''tg#ann'') ring_gw))) = [(0, ''ann'')]
   \<and> map (\<lambda>b. (sip_call_id (br_ctx b), user_id (br_ctx b)))
     (gw_bridges (snd (process_sip_event demo_env (IncomingCall 0 ''007'') ring_gw))) = [(0, 7)]
   \<and> queue_pop (w_internal (gw_world (snd (process_sip_event demo_env (IncomingCall 0 ''12x'') ring_gw))))
     = (Some (InternalError (ctx_name demo_env 1) ((new_CallOpParam False)\<lparr>prm_statusCode := 420\<rparr>)), queue_empty)"
proof -
  have hyp: "\<forall>b \<in> set (gw_bridges ring_gw). sip_call_id (br_ctx b) \<noteq> 0"
    "sip_calls (w_sip (gw_world ring_gw)) 0 = Some \<lparr>so_serial = 0, so_local_user = ''tg#ann''\<rparr>"
    by (simp_all add: ring_gw_def demo0_def new_Gateway_def)
  note any = incoming_sip_call [where env = demo_env, OF hyp refl refl refl refl refl]
  note good = any [THEN conjunct1, rule_format] and bad = any [THEN conjunct2, rule_format]
  have empty: "gw_bridges ring_gw = []" by (simp add: ring_gw_def demo0_def new_Gateway_def)
  have seven: "names ''007'' (UserId 7)"
    by (simp add: to_string_def show_nat.simps char_of_def bit_0 bit_Suc) (rule exI [of _ "Suc (Suc 0)"], simp)
  have "map (\<lambda>b. (sip_call_id (br_ctx b), ext_username (br_ctx b)))
     (gw_bridges (snd (process_sip_event demo_env (IncomingCall 0 ''tg#ann'') ring_gw))) = [(0, ''ann'')]"
    using good [of "''tg#ann''" "Username ''ann''"] by (simp add: empty)
  moreover have "map (\<lambda>b. (sip_call_id (br_ctx b), user_id (br_ctx b)))
     (gw_bridges (snd (process_sip_event demo_env (IncomingCall 0 ''007'') ring_gw))) = [(0, 7)]"
    unfolding good [OF seven] by (simp add: empty)
  moreover have "queue_pop (w_internal (gw_world (snd (process_sip_event demo_env (IncomingCall 0 ''12x'') ring_gw))))
     = (Some (InternalError (ctx_name demo_env 1) ((new_CallOpParam False)\<lparr>prm_statusCode := 420\<rparr>)), queue_empty)"
    unfolding bad [OF no_name_12x]
    by (simp add: ring_gw_def demo0_def new_Gateway_def queue_empty_def emplace_def queue_pop_def)
  ultimately show ?thesis by blast
qed

section \<open>Looking up the Telegram user\<close>

text \<open>A client that can send \<open>n\<close> more queries before its 64-bit identifiers repeat, and what one query does to it.\<close>

definition can_ask :: "nat \<Rightarrow> tg_client \<Rightarrow> bool" where
  "can_ask n t \<longleftrightarrow> tg_inv t \<and> unat (tg_current_query_id t) + n \<le> 18446744073709551615"

lemma can_ask_new: "n \<le> 18446744073709551615 \<Longrightarrow> can_ask n (new_tg_client s)"
  using tg_inv_new [of s] by (simp add: can_ask_def) (simp add: new_tg_client_def)

definition after_query :: "td_env \<Rightarrow> td_function \<Rightarrow> tg_client \<Rightarrow> tg_client" where
  "after_query env f t = snd (td_get env f t)"

abbreviation queries :: "tg_client \<Rightarrow> td_function option list" where
  "queries t \<equiv> map snd (tg_sent t)"

lemma ask:
  assumes "can_ask (Suc n) t"
  shows "td_get env f t = (Inr (td_answer env (tg_sent t) f), after_query env f t)"
    and "can_ask n (after_query env f t)" and "queries (after_query env f t) = queries t @ [Some f]"
proof -
  have t: "tg_inv t" "ids_left t" using assms by (simp_all add: can_ask_def ids_left_def)
  show "td_get env f t = (Inr (td_answer env (tg_sent t) f), after_query env f t)"
    by (simp add: after_query_def td_get_eq [OF t])
  show "queries (after_query env f t) = queries t @ [Some f]"
    by (simp add: after_query_def td_get_eq [OF t])
  have "tg_inv (after_query env f t)"
  proof -
    have le: "unat q \<le> Suc (unat (tg_current_query_id t))" if "tg_handlers t q = Some h" for q h
      using t(1) that by (fastforce simp: tg_inv_def)
    show ?thesis
      using t(1) unfolding after_query_def td_get_eq [OF t] by (auto simp: tg_inv_def unat_next_id [OF t(2)] nth_append intro: less_SucI dest: le)
  qed
  then show "can_ask n (after_query env f t)"
    using assms unat_next_id [OF t(2)] by (simp add: can_ask_def) (simp add: after_query_def td_get_eq [OF t])
qed


text \<open>
  The lookup as a specification: whom a context names, what the caches know, which query finds the
  user otherwise, and what its answer says.
\<close>

definition callee_of :: "ctx \<Rightarrow> callee" where
  "callee_of c = (if ext_username c \<noteq> [] then Username (ext_username c)
     else if ext_phone c \<noteq> [] then Phone (ext_phone c) else UserId (user_id c))"

fun known :: "callee \<Rightarrow> cache \<Rightarrow> int option" where
  "known (Username n) ca = username_cache ca n"
| "known (Phone d) ca = phone_cache ca d"
| "known (UserId i) ca = Some i"

fun lookup_query :: "callee \<Rightarrow> td_function option" where
  "lookup_query (Username n) = Some (searchPublicChat n)"
| "lookup_query (Phone d) = Some (importContacts [\<lparr>ic_phone_number = d, ic_first_name = d\<rparr>])"
| "lookup_query (UserId i) = None"

fun found :: "callee \<Rightarrow> td_object \<Rightarrow> int option" where
  "found (Username n) (td_chat i (chatTypePrivate u)) = Some i"
| "found (Phone d) (td_importedContacts (u # us)) = (if u = 0 then None else Some u)"
| "found _ _ = None"

lemma dial_by_id_eq:
  assumes "can_ask (Suc n) (w_tg w)" and "f = createCall u (protocol env) False"
    and "td_answer (e_td env) (tg_sent (w_tg w)) f = td_callId k"
  shows "dial_by_id env u (c, w) =
    (Inr (), (c\<lparr>user_id := u, tg_call_id := k\<rparr>, w\<lparr>w_tg := after_query (e_td env) f (w_tg w)\<rparr>))"
  using assms(2,3) by (simp add: dial_by_id_def thenM_def bindM_def act_simps ask(1) [OF assms(1)])

lemma DialTg_free:
  assumes "w_block_until w \<le> e_clock env (w_readings w)"
  shows "DialTg env e (c, w) =
    (case callee_of c of Username _ \<Rightarrow> dial_by_username env | Phone _ \<Rightarrow> dial_by_phone env | UserId i \<Rightarrow> dial_by_id env i)
      (c, w\<lparr>w_readings := Suc (w_readings w)\<rparr>)"
  using assms by (simp add: DialTg_def bindM_def now_eq act_simps callee_of_def)

lemma dial_known:
  assumes "w_block_until w \<le> e_clock env (w_readings w)" and "known (callee_of c) (w_cache w) = Some u"
  shows "DialTg env e (c, w) = dial_by_id env u (c, w\<lparr>w_readings := Suc (w_readings w)\<rparr>)"
  using assms(2) unfolding DialTg_free [OF assms(1)]
  by (cases "callee_of c")
    (auto simp: callee_of_def dial_by_username_def dial_by_phone_def bindM_def act_simps split: if_splits)

lemma dial_lookup:
  assumes "w_block_until w \<le> e_clock env (w_readings w)" and "known (callee_of c) (w_cache w) = None"
    and "lookup_query (callee_of c) = Some q" and "can_ask (Suc n) (w_tg w)"
    and "found (callee_of c) (td_answer (e_td env) (tg_sent (w_tg w)) q) = Some u"
  shows "\<exists>ca. known (callee_of c) ca = Some u \<and> DialTg env e (c, w) =
    dial_by_id env u (c, w\<lparr>w_readings := Suc (w_readings w), w_tg := after_query (e_td env) q (w_tg w), w_cache := ca\<rparr>)"
proof (cases "callee_of c")
  case (Username m)
  have name: "ext_username c = m" using Username by (auto simp: callee_of_def split: if_splits)
  obtain v where ans: "td_answer (e_td env) (tg_sent (w_tg w)) q = td_chat u (chatTypePrivate v)"
    using assms(5) Username by (cases "(callee_of c, td_answer (e_td env) (tg_sent (w_tg w)) q)" rule: found.cases) auto
  show ?thesis
    using assms(2,3) name ans ask(1) [OF assms(4), of "e_td env" q] unfolding DialTg_free [OF assms(1)] Username
    by (intro exI [of _ "(w_cache w)\<lparr>username_cache := map_emplace m u (username_cache (w_cache w))\<rparr>"], cases w)
      (simp add: dial_by_username_def thenM_def bindM_def act_simps split: option.splits)
next
  case (Phone d)
  have name: "ext_phone c = d" using Phone by (auto simp: callee_of_def split: if_splits)
  obtain us where ans: "td_answer (e_td env) (tg_sent (w_tg w)) q = td_importedContacts (u # us)" "u \<noteq> 0"
    using assms(5) Phone
    by (cases "(callee_of c, td_answer (e_td env) (tg_sent (w_tg w)) q)" rule: found.cases) (auto split: if_splits)
  show ?thesis
    using assms(2,3) name ans ask(1) [OF assms(4), of "e_td env" q] unfolding DialTg_free [OF assms(1)] Phone
    by (intro exI [of _ "(w_cache w)\<lparr>phone_cache := map_emplace d u (phone_cache (w_cache w))\<rparr>"], cases w)
      (simp add: dial_by_phone_def thenM_def bindM_def act_simps split: option.splits)
qed (use assms(3) in simp)

text \<open>
  C11. Dialing the Telegram side. When Telegram accepts calls, the user that the context names is
  taken from the caches or, if unknown, asked for with the one query for its kind; the call is
  created for that user, its id and the user are stored in the context, no error is queued, and
  afterwards the caches know the user. So exactly one query is sent for a known callee and two for
  an unknown one, and dialing the same callee again needs no lookup.
\<close>

theorem dial_resolves:
  assumes "w_block_until w \<le> e_clock env (w_readings w)" and "can_ask 2 (w_tg w)"
    and "\<forall>h. td_answer (e_td env) h (createCall u (protocol env) False) = td_callId k"
    and "case known (callee_of c) (w_cache w) of
        Some v \<Rightarrow> v = u \<and> lookup = []
      | None \<Rightarrow> (\<exists>q. lookup_query (callee_of c) = Some q \<and> lookup = [q]
          \<and> found (callee_of c) (td_answer (e_td env) (tg_sent (w_tg w)) q) = Some u)"
  shows "\<exists>w'. DialTg env e (c, w) = (Inr (), (c\<lparr>user_id := u, tg_call_id := k\<rparr>, w'))
    \<and> queries (w_tg w') = queries (w_tg w) @ map Some (lookup @ [createCall u (protocol env) False])
    \<and> known (callee_of c) (w_cache w') = Some u \<and> w_internal w' = w_internal w
    \<and> w_block_until w' = w_block_until w \<and> w_sip w' = w_sip w \<and> w_rt w' = w_rt w"
proof (cases "known (callee_of c) (w_cache w)")
  case (Some v)
  then have v: "known (callee_of c) (w_cache w) = Some u" "lookup = []" using assms(4) by simp_all
  let ?w = "w\<lparr>w_readings := Suc (w_readings w)\<rparr>"
  have ask1: "can_ask (Suc 1) (w_tg ?w)" using assms(2) by (simp add: can_ask_def)
  note dial = dial_by_id_eq [OF ask1 refl, of env u k c]
  show ?thesis
    unfolding dial_known [OF assms(1) v(1)]
    using dial assms(3) v ask(3) [OF ask1] by simp
next
  case None
  then obtain q where q: "lookup_query (callee_of c) = Some q" "lookup = [q]"
      "found (callee_of c) (td_answer (e_td env) (tg_sent (w_tg w)) q) = Some u" using assms(4) by auto
  have ask1: "can_ask (Suc (Suc 0)) (w_tg w)" using assms(2) unfolding numeral_2_eq_2 .
  obtain ca where ca: "known (callee_of c) ca = Some u" and run: "DialTg env e (c, w) =
      dial_by_id env u (c, w\<lparr>w_readings := Suc (w_readings w), w_tg := after_query (e_td env) q (w_tg w), w_cache := ca\<rparr>)"
    using dial_lookup [OF assms(1) None q(1) ask1 q(3)] by blast
  let ?w = "w\<lparr>w_readings := Suc (w_readings w), w_tg := after_query (e_td env) q (w_tg w), w_cache := ca\<rparr>"
  have ask2: "can_ask (Suc 0) (w_tg ?w)" using ask(2) [OF ask1] by simp
  note dial = dial_by_id_eq [OF ask2 refl, of env u k c]
  show ?thesis
    unfolding run using dial assms(3) ca q(2) ask(3) [OF ask1] ask(3) [OF ask2] by simp
qed


theorem dial_resolves_witness:
  "let c = (new_Context ''x'')\<lparr>ext_username := ''ann''\<rparr>; r = DialTg demo_env (EvCallState 0 PJSIP_INV_STATE_EARLY) (c, gw_world demo0)
   in fst r = Inr () \<and> fst (snd r) = c\<lparr>user_id := 42, tg_call_id := 9\<rparr>
      \<and> queries (w_tg (snd (snd r))) = [Some (searchPublicChat ''ann''), Some (createCall 42 (protocol demo_env) False)]"
proof -
  let ?c = "(new_Context ''x'')\<lparr>ext_username := ''ann''\<rparr>" and ?w = "gw_world demo0"
  have w: "w_tg ?w = new_tg_client demo_settings" "w_block_until ?w = 0" "w_readings ?w = 1"
      "w_cache ?w = \<lparr>username_cache = Map.empty, phone_cache = Map.empty\<rparr>"
    by (simp_all add: demo0_def new_Gateway_def demo_env_def)
  have "can_ask 2 (w_tg ?w)"
    unfolding w by (rule can_ask_new) simp
  moreover have "w_block_until ?w \<le> e_clock demo_env (w_readings ?w)" by (simp add: w demo_env_def)
  moreover have "\<forall>h. td_answer (e_td demo_env) h (createCall 42 (protocol demo_env) False) = td_callId 9"
    by (simp add: demo_env_def demo_td_def)
  moreover have "callee_of ?c = Username ''ann''" by (simp add: callee_of_def)
  moreover have "td_answer (e_td demo_env) h (searchPublicChat ''ann'') = td_chat 42 (chatTypePrivate 42)" for h
    by (simp add: demo_env_def demo_td_def)
  moreover have "queries (w_tg ?w) = []" unfolding w by (simp add: new_tg_client_def)
  ultimately show ?thesis
    using dial_resolves [where w = ?w and env = demo_env and u = 42 and k = 9 and c = ?c
        and lookup = "[searchPublicChat ''ann'']" and e = "EvCallState 0 PJSIP_INV_STATE_EARLY"]
    by (auto simp: w Let_def)
qed

section \<open>Flood control\<close>

lemma retry_after_digits:
  assumes "ds \<noteq> []" and "is_digits ds"
  shows "retry_after (''Too Many Requests: retry after '' @ ds) = Some ds"
  using assms by (simp add: Let_def takeWhile_all is_digits_def)

lemma stoi_to_string: "0 \<le> n \<Longrightarrow> n \<le> INT_MAX \<Longrightarrow> stoi (to_string n) = Inr n"
  using stol_to_string [of n] by (simp add: stoi_def INT_MAX_def INT_MIN_def LONG_MAX_def)

lemma seconds_sum: "seconds (word_of_int n + x) = (n + uint x) mod 2 ^ 32 * 1000000000"
proof -
  have "word_of_int n + x = word_of_int (n + uint x)" by simp
  then have "uint (word_of_int n + x) = (n + uint x) mod 2 ^ 32" by (simp only: uint_word_of_int) simp
  then show ?thesis by (simp add: seconds_def)
qed

text \<open>
  C12. Flood control. When Telegram answers a call with an error that says when to retry, or with
  a peer flood, the call gets an error with the code and the text of the answer, and calls are
  blocked for the time asked for plus the configured extra (a sum of 32 bits), or for the
  configured peer flood time. While the clock is before that time, every other call from SIP is
  refused with an error that names the seconds left, and no query is sent to Telegram.
\<close>

theorem flood_wait:
  assumes "w_block_until w \<le> e_clock env (w_readings w)" and "can_ask 1 (w_tg w)"
    and "known (callee_of c) (w_cache w) = Some u"
    and "td_answer (e_td env) (tg_sent (w_tg w)) (createCall u (protocol env) False) = td_error err_code message"
    and "(\<exists>n. 0 \<le> n \<and> n \<le> INT_MAX \<and> message = ''Too Many Requests: retry after '' @ to_string n
            \<and> wait = (n + uint (extra_wait_time (e_settings env))) mod 2 ^ 32)
         \<or> retry_after message = None \<and> search ''PEER_FLOOD'' message \<and> wait = uint (peer_flood_time (e_settings env))"
  shows "\<exists>w'. DialTg env e (c, w) = (Inr (), (c\<lparr>user_id := u\<rparr>, w'))
    \<and> w_internal w' = emplace (Some (InternalError (ctx_id c)
        (server_error True (to_string err_code @ ''; '' @ message)))) (w_internal w)
    \<and> w_block_until w' = e_clock env (w_readings w + 1) + wait * 1000000000
    \<and> (w_block_until v = w_block_until w' \<and> e_clock env (w_readings v) < w_block_until w' \<longrightarrow>
        DialTg env e' (c', v) = (Inr (), (c', v\<lparr>w_readings := w_readings v + 2,
          w_internal := emplace (Some (InternalError (ctx_id c') (server_error False
            (''FLOOD_WAIT '' @ to_string (to_seconds (w_block_until w' - e_clock env (w_readings v + 1))))))) (w_internal v)\<rparr>)))"
proof -
  let ?w = "w\<lparr>w_readings := Suc (w_readings w)\<rparr>" and ?f = "createCall u (protocol env) False"
  have ask1: "can_ask (Suc 0) (w_tg ?w)" using assms(2) by simp
  let ?w1 = "w\<lparr>w_readings := Suc (w_readings w), w_tg := after_query (e_td env) ?f (w_tg w),
      w_internal := emplace (Some (InternalError (ctx_id c) (server_error True (to_string err_code @ ''; '' @ message)))) (w_internal w)\<rparr>"
  have "DialTg env e (c, w) = parse_error env message (c\<lparr>user_id := u\<rparr>, ?w1)"
    unfolding dial_known [OF assms(1,3)] using assms(4) ask(1) [OF ask1, of "e_td env" ?f]
    by (cases w) (simp add: dial_by_id_def dial_failed_def thenM_def bindM_def act_simps internal_error_eq error_text_def)
  also have "\<dots> = (Inr (), (c\<lparr>user_id := u\<rparr>, ?w1\<lparr>w_readings := Suc (Suc (w_readings w)),
      w_block_until := e_clock env (w_readings w + 1) + wait * 1000000000\<rparr>))"
    using assms(5)
  proof
    assume "\<exists>n. 0 \<le> n \<and> n \<le> INT_MAX \<and> message = ''Too Many Requests: retry after '' @ to_string n
            \<and> wait = (n + uint (extra_wait_time (e_settings env))) mod 2 ^ 32"
    then obtain n where n: "0 \<le> n" "n \<le> INT_MAX" "message = ''Too Many Requests: retry after '' @ to_string n"
        "wait = (n + uint (extra_wait_time (e_settings env))) mod 2 ^ 32" by blast
    have "retry_after message = Some (to_string n)"
      unfolding n(3) using to_string_is_digits [OF n(1)] by (intro retry_after_digits) simp_all
    then show ?thesis
      using stoi_to_string [OF n(1,2)]
      by (simp add: parse_error_def bindM_def now_eq act_simps seconds_sum n(4))
  next
    assume "retry_after message = None \<and> search ''PEER_FLOOD'' message \<and> wait = uint (peer_flood_time (e_settings env))"
    then show ?thesis
      by (simp add: parse_error_def bindM_def now_eq act_simps whenM_def seconds_def)
  qed
  finally have dial: "DialTg env e (c, w) = \<dots>" .
  have blocked: "DialTg env e' (c', v) = (Inr (), (c', v\<lparr>w_readings := w_readings v + 2,
          w_internal := emplace (Some (InternalError (ctx_id c') (server_error False
            (''FLOOD_WAIT '' @ to_string (to_seconds (w_block_until v - e_clock env (w_readings v + 1))))))) (w_internal v)\<rparr>))"
    if "e_clock env (w_readings v) < w_block_until v"
    using that by (cases v) (simp add: DialTg_def bindM_def now_eq act_simps internal_error_eq)
  show ?thesis
    unfolding dial using blocked by (intro exI conjI impI; (rule refl)?) auto
qed


definition flood_env :: env where
  "flood_env = demo_env\<lparr>e_td := \<lparr>td_answer = (\<lambda>h f. td_error 429 ''Too Many Requests: retry after 60'')\<rparr>\<rparr>"

theorem flood_wait_witness:
  "let c = (new_Context ''a'')\<lparr>user_id := 5\<rparr>;
       w = snd (snd (DialTg flood_env (EvCallState 0 PJSIP_INV_STATE_EARLY) (c, gw_world demo0)));
       v = snd (snd (DialTg flood_env (EvCallState 1 PJSIP_INV_STATE_EARLY) (new_Context ''b'', w)))
   in w_block_until w = 92000000000 \<and> w_tg v = w_tg w
      \<and> fst (DialTg flood_env (EvCallState 1 PJSIP_INV_STATE_EARLY) (new_Context ''b'', w)) = Inr ()"
proof -
  let ?c = "(new_Context ''a'')\<lparr>user_id := 5\<rparr>" and ?w = "gw_world demo0"
  have w: "w_tg ?w = new_tg_client demo_settings" "w_block_until ?w = 0" "w_readings ?w = 1"
    by (simp_all add: demo0_def new_Gateway_def demo_env_def)
  have clock: "e_clock flood_env n = int n * 1000000000" for n by (simp add: flood_env_def demo_env_def)
  have h: "w_block_until ?w \<le> e_clock flood_env (w_readings ?w)" "can_ask 1 (w_tg ?w)"
      "known (callee_of ?c) (w_cache ?w) = Some 5"
      "td_answer (e_td flood_env) (tg_sent (w_tg ?w)) (createCall 5 (protocol flood_env) False)
        = td_error 429 ''Too Many Requests: retry after 60''"
    by (simp_all add: w clock can_ask_new callee_of_def new_Context_def) (simp add: flood_env_def)
  have six: "to_string 60 = ''60''" by (simp add: to_string_def show_nat.simps char_of_def bit_0)
  have wait: "(90::int) = (60 + uint (extra_wait_time (e_settings flood_env))) mod 2 ^ 32"
    by (simp add: flood_env_def demo_env_def demo_settings_def)
  have msg: "(\<exists>n. 0 \<le> n \<and> n \<le> INT_MAX \<and> ''Too Many Requests: retry after 60'' = ''Too Many Requests: retry after '' @ to_string n
            \<and> (90::int) = (n + uint (extra_wait_time (e_settings flood_env))) mod 2 ^ 32)"
    using six wait by (intro exI [of _ 60]) (simp add: INT_MAX_def)
  obtain w' where run: "DialTg flood_env (EvCallState 0 PJSIP_INV_STATE_EARLY) (?c, ?w) = (Inr (), (?c\<lparr>user_id := 5\<rparr>, w'))"
      "w_block_until w' = e_clock flood_env (w_readings ?w + 1) + 90 * 1000000000"
    using flood_wait [OF h disjI1 [OF msg]] by blast
  have "w_readings w' = 3"
  proof -
    have "w_readings (snd (snd (DialTg flood_env (EvCallState 0 PJSIP_INV_STATE_EARLY) (?c, ?w)))) = 3" by code_simp
    then show ?thesis by (simp add: run(1))
  qed
  then have "\<exists>r. DialTg flood_env (EvCallState 1 PJSIP_INV_STATE_EARLY) (new_Context ''b'', w') = (Inr (), (new_Context ''b'', w'\<lparr>w_readings := 5, w_internal := r\<rparr>))"
    using flood_wait [OF h disjI1 [OF msg], of "EvCallState 0 PJSIP_INV_STATE_EARLY" w' "EvCallState 1 PJSIP_INV_STATE_EARLY" "new_Context ''b''"] run
    by (auto simp: clock w)
  then show ?thesis
    using run by (auto simp: Let_def clock w)
qed

end
