(* ===== verification/Gateway_Calls.thy ===== *)
theory Gateway_Calls
  imports Gateway_Dialing
begin

text \<open>
  The life of a call between its arrival and its end: the steps that connect it in either direction,
  the messages and the signaling data that belong to it, and the events that belong to no call.
\<close>

section \<open>Steps of a bridge\<close>

text \<open>An event that the sub-machine of a bridge handles.\<close>

lemma dispatch_sub:
  assumes "i < length (gw_bridges g)" and "b = gw_bridges g ! i"
    and "sub_tables env (sm_state (br_sm b)) = Some (table, init)"
    and "select table (sm_subs (br_sm b) (sm_state (br_sm b))) e = Some t"
  shows "dispatch env i e g =
    (case t_action t e (br_ctx b, gw_world g) of
       (Inl x, (c, w)) \<Rightarrow> (Inl x, g\<lparr>gw_bridges := (gw_bridges g)[i := b\<lparr>br_ctx := c\<rparr>], gw_world := w\<rparr>)
     | (Inr _, (c, w)) \<Rightarrow> (Inr (), g\<lparr>gw_bridges := (gw_bridges g)[i :=
           \<lparr>br_sm = (br_sm b)\<lparr>sm_subs := (sm_subs (br_sm b))(sm_state (br_sm b) := t_dst t)\<rparr>, br_ctx = c\<rparr>], gw_world := w\<rparr>))"
proof -
  have "sm_state (br_sm b) \<noteq> S_X" using assms(3) by (auto simp: sub_tables_def)
  then show ?thesis
    using assms
    by (simp add: dispatch_def bridge_event_def sm_process_event_def machine_def sub_process_def
        thenM_def bindM_def getM_def whenM_def returnM_def sm_is_def Let_def split: prod.split sum.split)
qed

lemma search_dispatch_found:
  assumes "find_if (p \<circ> br_ctx) (gw_bridges g) = Some i"
  shows "bindM (search_call env p) (\<lambda>i. dispatch env i e) g = dispatch env i e g"
  using assms by (simp add: bindM_def search_call_eq)

lemma Dial_eq:
  assumes "d = pj_new_call_id env (pj_ops s)" and "sip_calls s d = None"
  shows "Dial env uri prm s =
     (case pj_error env (pj_ops s) (pj_makeCall uri prm) of
        Some r \<Rightarrow> (Inl (PjError r), s\<lparr>sip_serial := Suc (sip_serial s), pj_ops := pj_ops s @ [pj_makeCall uri prm]\<rparr>)
      | None \<Rightarrow> (Inr d, s\<lparr>sip_calls := (sip_calls s)(d \<mapsto> \<lparr>so_serial = sip_serial s, so_local_user = []\<rparr>),
            sip_serial := Suc (sip_serial s), pj_ops := pj_ops s @ [pj_makeCall uri prm]\<rparr>))"
  using assms by (cases s) (simp add: Dial_def new_call_def pj_def store_call_def map_emplace_def Let_def prog_simps split: option.split)

section \<open>A call from Telegram\<close>

definition waiting_media :: "env \<Rightarrow> (main_state, sub_state) sm" where
  "waiting_media env = (new_sm (machine env))\<lparr>sm_state := S_from_tg\<rparr>"

lemma enter_from_tg: "enter (machine env) S_from_tg (new_sm (machine env)) = waiting_media env"
  by (simp add: enter_def machine_def sub_tables_def waiting_media_def new_sm_def fun_upd_idem)

lemma pending_row:
  assumes "\<not> tc_is_outgoing call" and "tc_state call = callStatePending" and "callback_uri (e_settings env) \<noteq> []"
  shows "main_process (machine env) (new_sm (machine env)) (EvUpdateCall call) (c, w) =
     (case DialSip env (EvUpdateCall call) (c\<lparr>tg_call_id := tc_id call, user_id := tc_user_id call\<rparr>, w) of
        (Inl x, cw) \<Rightarrow> (Inl x, cw) | (Inr _, cw) \<Rightarrow> (Inr (waiting_media env), cw))"
proof -
  have init: "sm_state (new_sm (machine env)) = S_init" by (simp add: new_sm_def machine_def)
  have sel: "\<exists>t. select (mc_table (machine env)) S_init (EvUpdateCall call) = Some t
      \<and> t_action t = sml_seq StoreTgId (sml_seq StoreTgUserId (DialSip env)) \<and> t_dst t = S_from_tg"
    using assms by (simp add: machine_def StateMachine_def enabled_def row_def sml_and_def IsIncoming_def IsInState_def
        CallbackUriIsSet_def)
  have entry: "mc_entry (machine env) S_from_tg = returnM ()" by (simp add: machine_def)
  show ?thesis
    unfolding main_process_def init using sel
    by (auto simp: sml_seq_def thenM_def bindM_def StoreTgId_def StoreTgUserId_def act_simps entry returnM_def enter_from_tg
        split: prod.split sum.split)
qed

text \<open>The headers as a specification: two that are always there, then those of four that are not empty.\<close>

lemma dial_headers_filter:
  "dial_headers n uid user =
     [(''X-GW-Context'', n), (''X-TG-ID'', to_string uid)]
     @ filter (\<lambda>(h, v). v \<noteq> [])
         [(''X-TG-FirstName'', tu_first_name user), (''X-TG-LastName'', tu_last_name user),
          (''X-TG-Username'', case tu_usernames user of Some u \<Rightarrow> u | None \<Rightarrow> []), (''X-TG-Phone'', tu_phone_number user)]"
  by (simp add: dial_headers_def split: option.split)

text \<open>
  C13. A call from Telegram, with a callback address configured. The caller is looked up with one
  query and the address is called with these headers in this order: the name of the context, the id
  of the caller, and of first name, last name, user name and phone number those that are not empty. A new bridge
  holds the call, the caller and the id of the SIP call, and waits for the SIP side. If the SIP
  library refuses, the bridge holds no SIP call and the reason is queued as its error. If the
  lookup fails, an exception with the text of the failure leaves the handler: nothing catches it,
  and the process ends.
\<close>

theorem incoming_tg_call:
  assumes "\<forall>b \<in> set (gw_bridges g). tg_call_id (br_ctx b) \<noteq> tc_id call"
    and "\<not> tc_is_outgoing call" and "tc_state call = callStatePending" and "callback_uri (e_settings env) \<noteq> []"
    and "w = gw_world g" and "s = w_sip w" and "can_ask 1 (w_tg w)" and "f = getUser (tc_user_id call)"
    and "d = pj_new_call_id (e_pj env) (pj_ops s)" and "sip_calls s d = None"
    and "n = ctx_name env (gw_ctx_counter g + 1)"
    and "c = (new_Context n)\<lparr>tg_call_id := tc_id call, user_id := tc_user_id call\<rparr>"
    and "headers = [(''X-GW-Context'', n), (''X-TG-ID'', to_string (tc_user_id call))]
      @ filter (\<lambda>(h, v). v \<noteq> [])
          [(''X-TG-FirstName'', tu_first_name user), (''X-TG-LastName'', tu_last_name user),
           (''X-TG-Username'', case tu_usernames user of Some u \<Rightarrow> u | None \<Rightarrow> []), (''X-TG-Phone'', tu_phone_number user)]"
    and "invite = pj_makeCall (callback_uri (e_settings env))
          \<lparr>prm_use_default = True, prm_statusCode = 0, prm_reason = [], prm_headers = headers\<rparr>"
  shows "(td_answer (e_td env) (tg_sent (w_tg w)) f = td_user_object user \<longrightarrow>
      pj_error (e_pj env) (pj_ops s) invite = None \<longrightarrow>
      process_updateCall env call g =
        (Inr (), g\<lparr>gw_bridges := gw_bridges g @ [\<lparr>br_sm = waiting_media env, br_ctx = c\<lparr>sip_call_id := d\<rparr>\<rparr>],
           gw_world := w\<lparr>w_sip := s\<lparr>sip_calls := (sip_calls s)(d \<mapsto> \<lparr>so_serial = sip_serial s, so_local_user = []\<rparr>),
               sip_serial := Suc (sip_serial s), pj_ops := pj_ops s @ [invite]\<rparr>,
             w_tg := after_query (e_td env) f (w_tg w)\<rparr>,
           gw_ctx_counter := gw_ctx_counter g + 1\<rparr>))
    \<and> (td_answer (e_td env) (tg_sent (w_tg w)) f = td_user_object user \<longrightarrow>
      pj_error (e_pj env) (pj_ops s) invite = Some r \<longrightarrow>
      process_updateCall env call g =
        (Inr (), g\<lparr>gw_bridges := gw_bridges g @ [\<lparr>br_sm = waiting_media env, br_ctx = c\<rparr>],
           gw_world := w\<lparr>w_sip := s\<lparr>sip_serial := Suc (sip_serial s), pj_ops := pj_ops s @ [invite]\<rparr>,
             w_tg := after_query (e_td env) f (w_tg w),
             w_internal := emplace (Some (InternalError n (server_error False r))) (w_internal w)\<rparr>,
           gw_ctx_counter := gw_ctx_counter g + 1\<rparr>))
    \<and> (td_answer (e_td env) (tg_sent (w_tg w)) f = td_error err_code message \<longrightarrow>
      fst (process_updateCall env call g) = Inl (RuntimeError message))"
proof -
  have run: "process_updateCall env call g =
      (case DialSip env (EvUpdateCall call) (c, w) of
         (Inl y, (c', w')) \<Rightarrow> (Inl y, g\<lparr>gw_bridges := gw_bridges g @ [\<lparr>br_sm = new_sm (machine env), br_ctx = c'\<rparr>],
            gw_world := w', gw_ctx_counter := gw_ctx_counter g + 1\<rparr>)
       | (Inr _, (c', w')) \<Rightarrow> (Inr (), g\<lparr>gw_bridges := gw_bridges g @ [\<lparr>br_sm = waiting_media env, br_ctx = c'\<rparr>],
            gw_world := w', gw_ctx_counter := gw_ctx_counter g + 1\<rparr>))"
  proof -
    have "sm_is (waiting_media env) S_X = False" by (simp add: waiting_media_def sm_is_def)
    then show ?thesis
      using assms(1,5,11,12) search_dispatch_new [of g "\<lambda>c. tg_call_id c = tc_id call" env "EvUpdateCall call"]
      by (simp add: process_updateCall_def dispatch_new pending_row [OF assms(2-4)] whenM_def returnM_def split: prod.split sum.split)
  qed
  have get: "td_get (e_td env) f (w_tg w) = (Inr (td_answer (e_td env) (tg_sent (w_tg w)) f), after_query (e_td env) f (w_tg w))"
    using ask(1) [of 0 "w_tg w" "e_td env" f] assms(7) by simp
  have n: "ctx_id c = n" using assms(12) by (simp add: new_Context_def)
  note dial = Dial_eq [OF assms(9,10)]
  have invite: "invite = pj_makeCall (callback_uri (e_settings env))
          ((new_CallOpParam True)\<lparr>prm_headers := dial_headers n (tc_user_id call) user\<rparr>)"
    unfolding assms(13,14) dial_headers_filter by (simp add: new_CallOpParam_def)
  show ?thesis
    unfolding run using get n dial assms(6,8) invite
    by (cases w)
      (simp add: DialSip_def bindM_def act_simps tryM_def catch_pj_def internal_error_eq throwM_def split: option.split)
qed

definition pending_call :: td_call where
  "pending_call = \<lparr>tc_id = 5, tc_user_id = 42, tc_is_outgoing = False, tc_state = callStatePending\<rparr>"

theorem incoming_tg_call_witness:
  "fst (process_updateCall demo_env pending_call demo0) = Inr ()
   \<and> map (\<lambda>b. (tg_call_id (br_ctx b), user_id (br_ctx b), sip_call_id (br_ctx b)))
        (gw_bridges (snd (process_updateCall demo_env pending_call demo0))) = [(5, 42, 0)]
   \<and> queries (w_tg (gw_world (snd (process_updateCall demo_env pending_call demo0)))) = [Some (getUser 42)]
   \<and> pj_ops (w_sip (gw_world (snd (process_updateCall demo_env pending_call demo0)))) =
      [pj_makeCall ''sip:100@pbx'' \<lparr>prm_use_default = True, prm_statusCode = 0, prm_reason = [],
         prm_headers = [(''X-GW-Context'', ctx_name demo_env 1), (''X-TG-ID'', to_string 42), (''X-TG-FirstName'', ''Ann''),
           (''X-TG-Username'', ''ann''), (''X-TG-Phone'', ''100'')]\<rparr>]"
proof -
  let ?w = "gw_world demo0"
  have w: "w_tg ?w = new_tg_client demo_settings" "w_sip ?w = new_sip_client demo_settings" "gw_bridges demo0 = []"
    by (simp_all add: demo0_def new_Gateway_def)
  have h: "\<forall>b \<in> set (gw_bridges demo0). tg_call_id (br_ctx b) \<noteq> tc_id pending_call"
      "\<not> tc_is_outgoing pending_call" "tc_state pending_call = callStatePending" "callback_uri (e_settings demo_env) \<noteq> []"
    by (simp_all add: w pending_call_def demo_env_def demo_settings_def)
  have ask1: "can_ask 1 (w_tg ?w)" by (simp add: w can_ask_new)
  have d: "0 = pj_new_call_id (e_pj demo_env) (pj_ops (w_sip ?w))" "sip_calls (w_sip ?w) 0 = None"
    by (simp_all add: w demo_env_def quiet_pj_def new_sip_client_def)
  have user: "td_answer (e_td demo_env) h (getUser (tc_user_id pending_call)) = td_user_object demo_user" for h
    by (simp add: demo_env_def demo_td_def)
  have ok: "pj_error (e_pj demo_env) h op = None" for h op by (simp add: demo_env_def quiet_pj_def)
  have callback: "callback_uri (e_settings demo_env) = ''sip:100@pbx''" and counter: "gw_ctx_counter demo0 = 0"
    by (simp_all add: demo_env_def demo_settings_def demo0_def new_Gateway_def)
  have sent: "queries (after_query (e_td demo_env) (getUser 42) (w_tg ?w)) = [Some (getUser 42)]"
    using ask(3) [of 0 "w_tg ?w"] ask1 w by (simp add: new_tg_client_def)
  obtain g' where g': "process_updateCall demo_env pending_call demo0 = (Inr (), g')"
      "map (\<lambda>b. (tg_call_id (br_ctx b), user_id (br_ctx b), sip_call_id (br_ctx b))) (gw_bridges g') = [(5, 42, 0)]"
      "w_tg (gw_world g') = after_query (e_td demo_env) (getUser 42) (w_tg ?w)"
      "pj_ops (w_sip (gw_world g')) = [pj_makeCall ''sip:100@pbx'' \<lparr>prm_use_default = True, prm_statusCode = 0, prm_reason = [],
         prm_headers = [(''X-GW-Context'', ctx_name demo_env 1), (''X-TG-ID'', to_string 42), (''X-TG-FirstName'', ''Ann''),
           (''X-TG-Username'', ''ann''), (''X-TG-Phone'', ''100'')]\<rparr>]"
    using incoming_tg_call [OF h refl refl ask1 refl d refl refl refl refl, THEN conjunct1, rule_format, OF user ok]
    by (simp add: w(3))
      (simp add: pending_call_def w(2) new_sip_client_def demo_user_def callback counter)
  then show ?thesis using sent by simp
qed

section \<open>Connecting a call\<close>

text \<open>
  The servers a call can use, as a specification: every reflector, and of the others those that support TURN or
  STUN. A reflector has a peer tag and no credentials, any other server the reverse.
\<close>

fun usable_type :: "server_type \<Rightarrow> bool" where
  "usable_type (callServerTypeTelegramReflector tag) = True"
| "usable_type (callServerTypeWebrtc name password turn stun) = (turn \<or> stun)"

fun credentials :: "server_type \<Rightarrow> string \<times> string \<times> bool \<times> bool \<times> byte list" where
  "credentials (callServerTypeTelegramReflector tag) = ([], [], False, False, tag)"
| "credentials (callServerTypeWebrtc name password turn stun) = (name, password, turn, stun, [])"

definition server_entry :: "call_server \<Rightarrow> RtcServer" where
  "server_entry s = (case credentials (cs_type s) of (name, password, turn, stun, tag) \<Rightarrow>
     \<lparr>rs_id = word_of_int (cs_id s), rs_ipv4 = cs_ip_address s, rs_ipv6 = cs_ipv6_address s, rs_username = name,
      rs_password = password, rs_port = word_of_int (cs_port s), rs_turn = turn, rs_stun = stun, rs_tcp = False,
      rs_peer_tag = tag\<rparr>)"

definition usable_servers :: "call_server list \<Rightarrow> RtcServer list" where
  "usable_servers ss = map server_entry (filter (\<lambda>s. usable_type (cs_type s)) ss)"

lemma usable_servers: "List.map_filter rtc_server ss = usable_servers ss"
proof (induction ss)
  case (Cons s ss)
  then show ?case
    by (cases "cs_type s") (simp_all add: usable_servers_def rtc_server_def server_entry_def map_filter_simps)
qed (simp add: usable_servers_def map_filter_simps)

text \<open>The controller that a ready call gets, and the runtime after it has been started.\<close>

definition call_controller :: "env \<Rightarrow> ctx \<Rightarrow> td_call \<Rightarrow> call_server list \<Rightarrow> byte list \<Rightarrow> controller" where
  "call_controller env c call servers key =
     TgCallsController (user_id c) (take 256 key) (tc_is_outgoing call) (usable_servers servers)
       (udp_p2p (e_settings env)) (Some (ctx_id c))"

definition live :: "controller \<Rightarrow> controller" where
  "live k = k\<lparr>ct_audio_input := input_Start (ct_audio_input k), ct_audio_output := output_Start (ct_audio_output k),
     ct_registered := True, ct_created := True, ct_mic_feeder_running := True\<rparr>"

definition started :: "controller \<Rightarrow> rt_world \<Rightarrow> rt_world" where
  "started k r = r\<lparr>nw_sinks := (nw_sinks r)(ct_user_id k \<mapsto> nw_next r), nw_heap := (nw_heap r)(nw_next r \<mapsto> live k),
     nw_next := Suc (nw_next r), nw_ops := nw_ops r @ ntg_create_p2p (ct_user_id k) # setup_ops k\<rparr>"

lemma run_ops_ok: "(\<And>h op. ntg_outcome env h op = None) \<Longrightarrow> run_ops env ops h = (None, h @ ops)"
  by (induction ops arbitrary: h) simp_all

lemma start_new:
  assumes "\<And>h op. ntg_outcome env h op = None" and "\<not> ct_mic_feeder_running k"
  shows "make_controller k r = (Inr (nw_next r), r\<lparr>nw_heap := (nw_heap r)(nw_next r \<mapsto> k), nw_next := Suc (nw_next r)\<rparr>)"
    and "Start env (nw_next r) (r\<lparr>nw_heap := (nw_heap r)(nw_next r \<mapsto> k), nw_next := Suc (nw_next r)\<rparr>) = (Inr (), started k r)"
proof -
  let ?r = "r\<lparr>nw_heap := (nw_heap r)(nw_next r \<mapsto> k), nw_next := Suc (nw_next r)\<rparr>"
  show "make_controller k r = (Inr (nw_next r), ?r)" by (simp add: make_controller_def prog_simps)
  have "nw_heap ?r (nw_next r) = Some k" by simp
  note start = Start_eq [OF this, of env]
  show "Start env (nw_next r) ?r = (Inr (), started k r)"
    unfolding start using assms
    by (cases r, cases k)
      (simp add: run_ops_ok go_live_def deref_eq assign_eq Register_def prog_simps started_def live_def)
qed

abbreviation port_ops :: "pj_op list" where
  "port_ops \<equiv> [pj_registerMediaPort ''voip-input'', pj_registerMediaPort ''voip-output'']"

text \<open>A refused port: the exception leaves the action, and there is no controller.\<close>

lemma ports_refused:
  assumes "tc_state call = callStateReady servers key" and "256 \<le> length key"
    and "pj_error (e_pj env) (pj_ops (w_sip w)) (pj_registerMediaPort ''voip-input'') = Some r"
  shows "CreateTgVoip env (EvUpdateCall call) (c, w) = (Inl (PjError r),
      (c, w\<lparr>w_sip := (w_sip w)\<lparr>pj_ops := pj_ops (w_sip w) @ [pj_registerMediaPort ''voip-input'']\<rparr>\<rparr>))"
  using assms by (simp add: CreateTgVoip_def new_controller_def bindM_def thenM_def act_simps register_ports_eq Let_def)

lemma CreateTgVoip_eq:
  assumes "tc_state call = callStateReady servers key" and "256 \<le> length key" and "ctx_controller c = None"
    and "\<And>h op. ntg_outcome (e_ntg env) h op = None" and "\<And>h op. pj_error (e_pj env) h op = None"
  shows "CreateTgVoip env (EvUpdateCall call) (c, w) = (Inr (), (c\<lparr>ctx_controller := Some (nw_next (w_rt w))\<rparr>,
      w\<lparr>w_sip := (w_sip w)\<lparr>pj_ops := pj_ops (w_sip w) @ port_ops\<rparr>, w_rt := started (call_controller env c call servers key) (w_rt w)\<rparr>))"
proof -
  have "\<not> ct_mic_feeder_running (call_controller env c call servers key)"
    by (simp add: call_controller_def TgCallsController_def)
  note start = start_new [OF assms(4) this, of "w_rt w"]
  have "new_controller env (call_controller env c call servers key) (c, w) = rtM (make_controller (call_controller env c call servers key))
      (c, w\<lparr>w_sip := (w_sip w)\<lparr>pj_ops := pj_ops (w_sip w) @ port_ops\<rparr>\<rparr>)"
    unfolding call_controller_def new_controller_def thenM_def bindM_def register_ports_eq by (simp add: assms(5) Let_def)
  then show ?thesis
    using assms(1-3) start
    by (simp add: CreateTgVoip_def usable_servers call_controller_def [symmetric] bindM_def thenM_def act_simps returnM_def)
qed

lemma find_if_update: "find_if p xs = Some i \<Longrightarrow> p y \<Longrightarrow> find_if p (xs[i := y]) = Some i"
  by (induction xs arbitrary: i) (auto split: if_splits)

text \<open>The SIP side of connecting audio: the requests for the first usable audio stream \<open>j\<close>.\<close>

definition bridge_ops :: "int \<Rightarrow> nat \<Rightarrow> nat \<Rightarrow> pj_op list" where
  "bridge_ops sip j a =
     [pj_getInfo sip, pj_startTransmit (SipMedia sip j) (TgInput a), pj_startTransmit (TgOutput a) (SipMedia sip j)]"

lemma BridgeAudio_eq:
  assumes "\<And>h op. pj_error (e_pj env) h op = None" and "ctx_controller c = Some a" and "sip_calls (w_sip w) (sip_call_id c) \<noteq> None"
    and "first_audio (pj_media (e_pj env) (pj_ops (w_sip w) @ [pj_getInfo (sip_call_id c)]) (sip_call_id c))
      (ci_media (pj_call_info (e_pj env) (pj_ops (w_sip w)) (sip_call_id c))) j"
  shows "BridgeAudio env e (c, w) =
    (Inr (), (c, w\<lparr>w_sip := (w_sip w)\<lparr>pj_ops := pj_ops (w_sip w) @ bridge_ops (sip_call_id c) j a\<rparr>\<rparr>))"
  using assms
  by (auto simp: BridgeAudio_def bindM_def act_simps tryM_def SipBridgeAudio_eq thenM_pj pj_eq bridge_ops_def
      audio_media_loop_first [symmetric])

text \<open>
  C14. Connecting a call from Telegram. Once the SIP side has media, the Telegram call is
  accepted with the configured protocol; once Telegram reports it ready, the two audio ports are registered and
  a controller is created for the caller with the first 256 bytes of the key, the servers that are
  reflectors or support TURN or STUN, in their order and with their data, and the name of the context for
  its signaling data; it is started, and both directions of audio between it and the first audio stream
  of the SIP call are connected, exactly these.
\<close>

theorem tg_call_connects:
  assumes "find_if (\<lambda>b. sip_call_id (br_ctx b) = sip) (gw_bridges g) = Some i"
    and "find_if (\<lambda>b. tg_call_id (br_ctx b) = tc_id call) (gw_bridges g) = Some i"
    and "c = br_ctx (gw_bridges g ! i)" and "m = br_sm (gw_bridges g ! i)"
    and "sm_state m = S_from_tg" and "sm_subs m S_from_tg = sip_wait_media" and "ctx_controller c = None"
    and "can_ask 1 (w_tg (gw_world g))" and "w = gw_world g" and "s = w_sip w"
    and "\<forall>h. td_answer (e_td env) h (acceptCall (tc_id call) (protocol env)) = td_ok"
    and "tc_state call = callStateReady servers key" and "256 \<le> length key"
    and "\<forall>h op. ntg_outcome (e_ntg env) h op = None" and "\<forall>h op. pj_error (e_pj env) h op = None"
    and "sip_calls s sip \<noteq> None"
    and "first_audio (pj_media (e_pj env) (pj_ops s @ port_ops @ [pj_getInfo sip]) sip)
      (ci_media (pj_call_info (e_pj env) (pj_ops s @ port_ops) sip)) j"
  shows "thenM (process_sip_event env (CallMediaStateUpdate sip True)) (process_updateCall env call) g =
    (Inr (), g\<lparr>gw_bridges := (gw_bridges g)[i :=
        \<lparr>br_sm = m\<lparr>sm_subs := (sm_subs m)(S_from_tg := wait_dtmf)\<rparr>, br_ctx = c\<lparr>ctx_controller := Some (nw_next (w_rt w))\<rparr>\<rparr>],
      gw_world := w\<lparr>w_sip := s\<lparr>pj_ops := pj_ops s @ port_ops @ bridge_ops sip j (nw_next (w_rt w))\<rparr>,
        w_tg := after_query (e_td env) (acceptCall (tc_id call) (protocol env)) (w_tg w),
        w_rt := started (call_controller env c call servers key) (w_rt w)\<rparr>\<rparr>)"
proof -
  let ?b = "gw_bridges g ! i" and ?q = "acceptCall (tc_id call) (protocol env)"
  let ?m1 = "m\<lparr>sm_subs := (sm_subs m)(S_from_tg := wait_tg)\<rparr>"
  let ?b1 = "\<lparr>br_sm = ?m1, br_ctx = c\<rparr>" and ?w1 = "w\<lparr>w_tg := after_query (e_td env) ?q (w_tg w)\<rparr>"
  let ?g1 = "g\<lparr>gw_bridges := (gw_bridges g)[i := ?b1], gw_world := ?w1\<rparr>"
  have i: "i < length (gw_bridges g)" "sip_call_id c = sip" "tg_call_id c = tc_id call"
    using find_if_Some [OF assms(1)] find_if_Some [OF assms(2)] assms(3) by simp_all
  have ask1: "can_ask (Suc 0) (w_tg w)" using assms(8,9) by simp
  have "AnswerTg env (EvMediaState sip True) (c, w) = (Inr (), (c, ?w1))"
    using assms(11) i ask(1) [OF ask1] by (simp add: AnswerTg_def bindM_def act_simps returnM_def)
  then have one: "process_sip_event env (CallMediaStateUpdate sip True) g = (Inr (), ?g1)"
    using assms(1,3-6,9) i(1) search_dispatch_found [of "\<lambda>c. sip_call_id c = sip" g i env "EvMediaState sip True"]
      dispatch_sub [OF i(1) refl, of env "from_tg env" sip_wait_media "EvMediaState sip True"]
    by (simp add: process_sip_event_def comp_def sub_tables_def from_tg_def enabled_def row_def IsMediaReady_def)
  have found: "find_if ((\<lambda>c. tg_call_id c = tc_id call) \<circ> br_ctx) (gw_bridges ?g1) = Some i"
    using find_if_update [OF assms(2), of ?b1] i(3) by (simp add: comp_def)
  let ?c2 = "c\<lparr>ctx_controller := Some (nw_next (w_rt w))\<rparr>"
  let ?w2 = "?w1\<lparr>w_sip := s\<lparr>pj_ops := pj_ops s @ port_ops\<rparr>, w_rt := started (call_controller env c call servers key) (w_rt w)\<rparr>"
  have create: "CreateTgVoip env (EvUpdateCall call) (c, ?w1) = (Inr (), (?c2, ?w2))"
    using CreateTgVoip_eq [OF assms(12,13,7), of env ?w1] assms(10,14,15) by simp
  have bridge: "BridgeAudio env (EvUpdateCall call) (?c2, ?w2) = (Inr (), (?c2, ?w2\<lparr>w_sip := s
        \<lparr>pj_ops := pj_ops s @ port_ops @ bridge_ops sip j (nw_next (w_rt w))\<rparr>\<rparr>))"
    using BridgeAudio_eq [of env ?c2 "nw_next (w_rt w)" ?w2 j] assms(10,15-17) i(2) by simp
  have "i < length (gw_bridges ?g1)" using i(1) by simp
  note two = dispatch_sub [OF this refl, of env "from_tg env" sip_wait_media "EvUpdateCall call"]
  have act: "sml_seq (CreateTgVoip env) (BridgeAudio env) (EvUpdateCall call) (c, ?w1) =
      (Inr (), (?c2, ?w2\<lparr>w_sip := s\<lparr>pj_ops := pj_ops s @ port_ops @ bridge_ops sip j (nw_next (w_rt w))\<rparr>\<rparr>))"
    using create bridge by (simp add: sml_seq_def thenM_def bindM_def)
  have "process_updateCall env call ?g1 = (Inr (), ?g1\<lparr>gw_bridges := (gw_bridges g)[i :=
        \<lparr>br_sm = m\<lparr>sm_subs := (sm_subs m)(S_from_tg := wait_dtmf)\<rparr>, br_ctx = ?c2\<rparr>],
      gw_world := ?w2\<lparr>w_sip := s\<lparr>pj_ops := pj_ops s @ port_ops @ bridge_ops sip j (nw_next (w_rt w))\<rparr>\<rparr>\<rparr>)"
    unfolding process_updateCall_def search_dispatch_found [OF found]
    using two assms(5,12) i(1) act
    by (simp add: sub_tables_def from_tg_def enabled_def row_def IsInState_def)
  then show ?thesis using one by (cases g, cases w) (simp add: thenM_def bindM_def)
qed


text \<open>A gateway with one call that waits for the Telegram side to be connected.\<close>

definition one_bridge :: "(main_state, sub_state) sm \<Rightarrow> gateway" where
  "one_bridge m =
     \<lparr>gw_bridges = [\<lparr>br_sm = m, br_ctx = (new_Context (ctx_name demo_env 1))\<lparr>sip_call_id := 0, tg_call_id := 5, user_id := 42\<rparr>\<rparr>],
      gw_world = (gw_world demo0)\<lparr>w_sip := (new_sip_client demo_settings)
        \<lparr>sip_calls := [0 \<mapsto> \<lparr>so_serial = 0, so_local_user = []\<rparr>], sip_serial := 1\<rparr>\<rparr>,
      gw_ctx_counter = 1\<rparr>"

definition demo_servers :: "call_server list" where
  "demo_servers =
     [\<lparr>cs_id = 1, cs_ip_address = ''10.0.0.1'', cs_ipv6_address = [], cs_port = 598, cs_type = callServerTypeTelegramReflector [7]\<rparr>,
      \<lparr>cs_id = 2, cs_ip_address = ''10.0.0.2'', cs_ipv6_address = [], cs_port = 80, cs_type = callServerTypeWebrtc ''u'' ''p'' False False\<rparr>,
      \<lparr>cs_id = 3, cs_ip_address = ''10.0.0.3'', cs_ipv6_address = [], cs_port = 3478, cs_type = callServerTypeWebrtc ''u'' ''p'' True False\<rparr>]"

definition ready_call :: td_call where
  "ready_call = \<lparr>tc_id = 5, tc_user_id = 42, tc_is_outgoing = False, tc_state = callStateReady demo_servers (replicate 256 0)\<rparr>"

lemma one_bridge_facts:
  "find_if (\<lambda>b. sip_call_id (br_ctx b) = 0) (gw_bridges (one_bridge m)) = Some 0"
  "find_if (\<lambda>b. tg_call_id (br_ctx b) = tc_id ready_call) (gw_bridges (one_bridge m)) = Some 0"
  "sm_state (br_sm (gw_bridges (one_bridge m) ! 0)) = sm_state m"
  "sm_subs (br_sm (gw_bridges (one_bridge m) ! 0)) = sm_subs m"
  "ctx_controller (br_ctx (gw_bridges (one_bridge m) ! 0)) = None" "can_ask 1 (w_tg (gw_world (one_bridge m)))"
  "sip_calls (w_sip (gw_world (one_bridge m))) 0 \<noteq> None"
  by (simp_all add: one_bridge_def ready_call_def new_Context_def demo0_def new_Gateway_def can_ask_new demo_env_def quiet_pj_def)

lemma demo_first_audio: "first_audio (pj_media (e_pj demo_env) h 0) (ci_media (pj_call_info (e_pj demo_env) h' 0)) 0"
  by (simp add: first_audio_def demo_env_def quiet_pj_def)

lemma demo_accepts:
  "\<forall>h op. ntg_outcome (e_ntg demo_env) h op = None" "\<forall>h op. pj_error (e_pj demo_env) h op = None"
  "\<forall>h. td_answer (e_td demo_env) h (acceptCall (tc_id ready_call) (protocol demo_env)) = td_ok"
  by (simp_all add: demo_env_def obliging_def quiet_pj_def demo_td_def ntg_outcome_def)

lemma ready_call_state: "tc_state ready_call = callStateReady demo_servers (replicate 256 0)" "256 \<le> length (replicate 256 (0 :: byte))"
  by (simp_all add: ready_call_def)

theorem tg_call_connects_witness:
  "let r = thenM (process_sip_event demo_env (CallMediaStateUpdate 0 True)) (process_updateCall demo_env ready_call)
        (one_bridge (waiting_media demo_env))
   in fst r = Inr () \<and> nw_sinks (w_rt (gw_world (snd r))) = [42 \<mapsto> 0] \<and> pj_ops (w_sip (gw_world (snd r))) = port_ops @ bridge_ops 0 0 0
      \<and> map_option (\<lambda>k. map (\<lambda>s. (rs_id s, rs_turn s, rs_peer_tag s)) (ct_rtc_servers k)) (nw_heap (w_rt (gw_world (snd r))) 0) =
          Some [(1, False, [7]), (3, True, [])]"
proof -
  have m: "sm_state (waiting_media demo_env) = S_from_tg" "sm_subs (waiting_media demo_env) S_from_tg = sip_wait_media"
    by (simp_all add: waiting_media_def new_sm_def machine_def sub_tables_def)
  note b = one_bridge_facts [of "waiting_media demo_env"]
  have "thenM (process_sip_event demo_env (CallMediaStateUpdate 0 True)) (process_updateCall demo_env ready_call)
        (one_bridge (waiting_media demo_env)) = (Inr (), snd (thenM (process_sip_event demo_env (CallMediaStateUpdate 0 True))
          (process_updateCall demo_env ready_call) (one_bridge (waiting_media demo_env))))"
      and sinks: "nw_sinks (w_rt (gw_world (snd (thenM (process_sip_event demo_env (CallMediaStateUpdate 0 True))
          (process_updateCall demo_env ready_call) (one_bridge (waiting_media demo_env)))))) = [42 \<mapsto> 0]"
      and ops: "pj_ops (w_sip (gw_world (snd (thenM (process_sip_event demo_env (CallMediaStateUpdate 0 True))
          (process_updateCall demo_env ready_call) (one_bridge (waiting_media demo_env)))))) = port_ops @ bridge_ops 0 0 0"
      and servers: "map_option (\<lambda>k. map (\<lambda>s. (rs_id s, rs_turn s, rs_peer_tag s)) (ct_rtc_servers k))
          (nw_heap (w_rt (gw_world (snd (thenM (process_sip_event demo_env (CallMediaStateUpdate 0 True))
          (process_updateCall demo_env ready_call) (one_bridge (waiting_media demo_env)))))) 0) = Some [(1, False, [7]), (3, True, [])]"
    unfolding tg_call_connects [OF b(1,2) refl refl b(3)[unfolded m(1)] b(4)[THEN fun_cong, of S_from_tg, unfolded m(2)] b(5,6)
        refl refl demo_accepts(3) ready_call_state demo_accepts(1,2) b(7) demo_first_audio]
    by (simp_all add: started_def live_def call_controller_def TgCallsController_def one_bridge_def demo0_def new_Gateway_def
        empty_rt_def new_sip_client_def usable_servers_def server_entry_def demo_servers_def)
  then show ?thesis unfolding Let_def by (metis fst_conv)
qed

text \<open>
  C15. Connecting a call from SIP. Once Telegram reports the call ready, the user is stored, the
  audio ports are registered, the controller is created and started for it, and the SIP call is answered
  with 200; once the SIP side then has media, both directions of audio are connected, exactly these.
\<close>

theorem sip_call_connects:
  assumes "find_if (\<lambda>b. sip_call_id (br_ctx b) = sip) (gw_bridges g) = Some i"
    and "find_if (\<lambda>b. tg_call_id (br_ctx b) = tc_id call) (gw_bridges g) = Some i"
    and "c = (br_ctx (gw_bridges g ! i))\<lparr>user_id := tc_user_id call\<rparr>" and "m = br_sm (gw_bridges g ! i)"
    and "sm_state m = S_from_sip" and "sm_subs m S_from_sip = wait_tg" and "ctx_controller c = None"
    and "w = gw_world g" and "s = w_sip w"
    and "tc_state call = callStateReady servers key" and "256 \<le> length key"
    and "\<forall>h op. ntg_outcome (e_ntg env) h op = None" and "\<forall>h op. pj_error (e_pj env) h op = None"
    and "sip_calls s sip \<noteq> None" and "ok = pj_answer sip ((new_CallOpParam True)\<lparr>prm_statusCode := 200\<rparr>)"
    and "first_audio (pj_media (e_pj env) (pj_ops s @ port_ops @ [ok, pj_getInfo sip]) sip)
      (ci_media (pj_call_info (e_pj env) (pj_ops s @ port_ops @ [ok]) sip)) j"
  shows "thenM (process_updateCall env call) (process_sip_event env (CallMediaStateUpdate sip True)) g =
    (Inr (), g\<lparr>gw_bridges := (gw_bridges g)[i :=
        \<lparr>br_sm = m\<lparr>sm_subs := (sm_subs m)(S_from_sip := wait_dtmf)\<rparr>, br_ctx = c\<lparr>ctx_controller := Some (nw_next (w_rt w))\<rparr>\<rparr>],
      gw_world := w\<lparr>w_sip := s\<lparr>pj_ops := pj_ops s @ port_ops @ ok # bridge_ops sip j (nw_next (w_rt w))\<rparr>,
        w_rt := started (call_controller env c call servers key) (w_rt w)\<rparr>\<rparr>)"
proof -
  let ?b = "gw_bridges g ! i" and ?a = "nw_next (w_rt w)"
  let ?c1 = "c\<lparr>ctx_controller := Some ?a\<rparr>"
  let ?b1 = "\<lparr>br_sm = m\<lparr>sm_subs := (sm_subs m)(S_from_sip := sip_wait_media)\<rparr>, br_ctx = ?c1\<rparr>"
  let ?w0 = "w\<lparr>w_sip := s\<lparr>pj_ops := pj_ops s @ port_ops\<rparr>, w_rt := started (call_controller env c call servers key) (w_rt w)\<rparr>"
  let ?w1 = "?w0\<lparr>w_sip := s\<lparr>pj_ops := pj_ops s @ port_ops @ [ok]\<rparr>\<rparr>"
  let ?g1 = "g\<lparr>gw_bridges := (gw_bridges g)[i := ?b1], gw_world := ?w1\<rparr>"
  have i: "i < length (gw_bridges g)" "sip_call_id c = sip"
    using find_if_Some [OF assms(1)] assms(3) by simp_all
  have store: "StoreTgUserId (EvUpdateCall call) (br_ctx ?b, w) = (Inr (), (c, w))"
    using assms(3) by (simp add: StoreTgUserId_def act_simps)
  have create: "CreateTgVoip env (EvUpdateCall call) (c, w) = (Inr (), (?c1, ?w0))"
    using CreateTgVoip_eq [OF assms(10,11,7), of env w] assms(9,12,13) by simp
  have answer: "AnswerSip env (EvUpdateCall call) (?c1, ?w0) = (Inr (), (?c1, ?w1))"
    using assms(9,13,14,15) i(2) by (auto simp: AnswerSip_def bindM_def act_simps tryM_def Answer_eq PJSIP_SC_OK_def)
  have act: "sml_seq StoreTgUserId (sml_seq (CreateTgVoip env) (AnswerSip env)) (EvUpdateCall call) (br_ctx ?b, w) =
      (Inr (), (?c1, ?w1))"
    using store create answer by (simp add: sml_seq_def thenM_def bindM_def)
  have one: "process_updateCall env call g = (Inr (), ?g1)"
    using assms(2,4,5,6,8,10) act search_dispatch_found [of "\<lambda>c. tg_call_id c = tc_id call" g i env "EvUpdateCall call"]
      dispatch_sub [OF i(1) refl, of env "from_sip env" sip_wait_confirm "EvUpdateCall call"]
    by (simp add: process_updateCall_def comp_def sub_tables_def from_sip_def enabled_def row_def IsInState_def)
  have found: "find_if ((\<lambda>c. sip_call_id c = sip) \<circ> br_ctx) (gw_bridges ?g1) = Some i"
    using find_if_update [OF assms(1), of ?b1] i(2) by (simp add: comp_def)
  have bridge: "BridgeAudio env (EvMediaState sip True) (?c1, ?w1) = (Inr (), (?c1, ?w1\<lparr>w_sip := s
        \<lparr>pj_ops := pj_ops s @ port_ops @ ok # bridge_ops sip j ?a\<rparr>\<rparr>))"
    using BridgeAudio_eq [of env ?c1 ?a ?w1 j] assms(13,14,16) i(2) by simp
  have "i < length (gw_bridges ?g1)" using i(1) by simp
  note two = dispatch_sub [OF this refl, of env "from_sip env" sip_wait_confirm "EvMediaState sip True"]
  have "process_sip_event env (CallMediaStateUpdate sip True) ?g1 = (Inr (), ?g1\<lparr>gw_bridges := (gw_bridges g)[i :=
        \<lparr>br_sm = m\<lparr>sm_subs := (sm_subs m)(S_from_sip := wait_dtmf)\<rparr>, br_ctx = ?c1\<rparr>],
      gw_world := ?w1\<lparr>w_sip := s\<lparr>pj_ops := pj_ops s @ port_ops @ ok # bridge_ops sip j ?a\<rparr>\<rparr>\<rparr>)"
    using two assms(5) i(1) bridge search_dispatch_found [OF found, of env "EvMediaState sip True"]
    by (simp add: process_sip_event_def sub_tables_def from_sip_def enabled_def row_def IsMediaReady_def)
  then show ?thesis using one by (cases g, cases w) (simp add: thenM_def bindM_def)
qed

theorem sip_call_connects_witness:
  "let r = thenM (process_updateCall demo_env ready_call) (process_sip_event demo_env (CallMediaStateUpdate 0 True))
        (one_bridge (ringing demo_env\<lparr>sm_subs := (\<lambda>_. wait_tg)\<rparr>))
   in fst r = Inr () \<and> nw_sinks (w_rt (gw_world (snd r))) = [42 \<mapsto> 0]
      \<and> pj_ops (w_sip (gw_world (snd r))) = port_ops @ pj_answer 0 ((new_CallOpParam True)\<lparr>prm_statusCode := 200\<rparr>) # bridge_ops 0 0 0"
proof -
  let ?m = "ringing demo_env\<lparr>sm_subs := (\<lambda>_. wait_tg)\<rparr>"
  have m: "sm_state ?m = S_from_sip" "sm_subs ?m S_from_sip = wait_tg"
    by (simp_all add: ringing_def)
  note b = one_bridge_facts [of ?m]
  have ctl: "ctx_controller ((br_ctx (gw_bridges (one_bridge ?m) ! 0))\<lparr>user_id := tc_user_id ready_call\<rparr>) = None"
    using b(5) by simp
  define r where "r = thenM (process_updateCall demo_env ready_call) (process_sip_event demo_env (CallMediaStateUpdate 0 True)) (one_bridge ?m)"
  have "fst r = Inr ()" "nw_sinks (w_rt (gw_world (snd r))) = [42 \<mapsto> 0]"
      "pj_ops (w_sip (gw_world (snd r))) = port_ops @ pj_answer 0 ((new_CallOpParam True)\<lparr>prm_statusCode := 200\<rparr>) # bridge_ops 0 0 0"
    unfolding r_def sip_call_connects [OF b(1,2) refl refl b(3)[unfolded m(1)] b(4)[THEN fun_cong, of S_from_sip, unfolded m(2)] ctl
        refl refl ready_call_state demo_accepts(1,2) b(7) refl demo_first_audio]
    by (simp_all add: started_def call_controller_def TgCallsController_def one_bridge_def demo0_def new_Gateway_def
        empty_rt_def new_sip_client_def ready_call_def)
  then show ?thesis unfolding r_def Let_def by blast
qed

end
