(* ===== verification/Gateway_Events.thy ===== *)
theory Gateway_Events
  imports Gateway_Calls
begin

text \<open>
  Events that move data or messages rather than calls: text messages turned into DTMF, the signaling
  data of a call in both directions, events that belong to no call, and the contact cache.
\<close>

section \<open>Messages\<close>

lemma bridge_eta: "\<lparr>br_sm = br_sm b, br_ctx = c\<rparr> = b\<lparr>br_ctx := c\<rparr>" "b\<lparr>br_ctx := br_ctx b\<rparr> = b"
  for b :: bridge
  by simp_all

lemma bridge_event_ignored:
  assumes "i < length (gw_bridges g)" and "b = gw_bridges g ! i"
    and "case sub_tables env (sm_state (br_sm b)) of None \<Rightarrow> True
      | Some (table, init) \<Rightarrow> select table (sm_subs (br_sm b) (sm_state (br_sm b))) e = None"
    and "select (StateMachine env) (sm_state (br_sm b)) e = None"
  shows "bridge_event env i e g = (Inr (), g)"
proof -
  have "sm_process_event (machine env) (br_sm b) e (br_ctx b, gw_world g) = (Inr (br_sm b), (br_ctx b, gw_world g))"
    using assms(3,4)
    by (auto simp: sm_process_event_def main_process_def machine_def sub_process_def bindM_def returnM_def split: option.splits)
  then show ?thesis using assms(1,2) by (cases g) (simp add: bridge_event_def Let_def bridge_eta)
qed

text \<open>
  When a message dials, as a specification: it is a text of one to thirty-two of the characters 0-9, A-D,
  star and hash, its sender is a user, the call at place \<open>i\<close> is the only one with that user, and it is connected.
\<close>

definition connected :: "bridge \<Rightarrow> bool" where
  "connected b \<longleftrightarrow>
     sm_state (br_sm b) = S_from_tg \<and> sm_subs (br_sm b) S_from_tg = wait_dtmf
     \<or> sm_state (br_sm b) = S_from_sip \<and> sm_subs (br_sm b) S_from_sip = wait_dtmf"

definition dials :: "gateway \<Rightarrow> td_message \<Rightarrow> nat \<Rightarrow> string \<Rightarrow> bool" where
  "dials g m i t \<longleftrightarrow>
     tm_content m = messageText t \<and> t \<noteq> [] \<and> length t \<le> 32 \<and> set t \<subseteq> set ''0123456789ABCD*#''
     \<and> (\<exists>uid. tm_sender_id m = messageSenderUser uid \<and> i < length (gw_bridges g)
          \<and> (\<forall>j < length (gw_bridges g). user_id (br_ctx (gw_bridges g ! j)) = uid \<longleftrightarrow> j = i))
     \<and> connected (gw_bridges g ! i)"

lemma dtmf_match_iff: "dtmf_match t \<longleftrightarrow> t \<noteq> [] \<and> length t \<le> 32 \<and> set t \<subseteq> set ''0123456789ABCD*#''"
proof -
  have "dtmf_char c \<longleftrightarrow> c \<in> set ''0123456789ABCD*#''" for c
    unfolding dtmf_char_def isdigit_iff by auto
  then have "list_all dtmf_char t \<longleftrightarrow> set t \<subseteq> set ''0123456789ABCD*#''"
    unfolding list_all_iff by blast
  then show ?thesis by (auto simp: dtmf_match_def Suc_le_eq)
qed

lemma filter_one: "filter p [0..<n] = [i] \<longleftrightarrow> i < n \<and> (\<forall>j < n. p j \<longleftrightarrow> j = i)"
proof
  assume f: "filter p [0..<n] = [i]"
  have "j \<in> set (filter p [0..<n]) \<longleftrightarrow> j = i" for j unfolding f by simp
  then show "i < n \<and> (\<forall>j < n. p j \<longleftrightarrow> j = i)" by auto
next
  assume i: "i < n \<and> (\<forall>j < n. p j \<longleftrightarrow> j = i)"
  then have same: "filter p [0..<n] = filter (\<lambda>j. j = i) [0..<n]" by (intro filter_cong) auto
  have split: "[0..<n] = [0..<i] @ i # [Suc i..<n]" using i upt_add_eq_append [of 0 i "n - i"] by (simp add: upt_conv_Cons)
  show "filter p [0..<n] = [i]" unfolding same unfolding split by (simp add: filter_empty_conv)
qed

lemma dials_iff:
  "dials g m i t \<longleftrightarrow>
     tm_content m = messageText t \<and> dtmf_match t
     \<and> (\<exists>uid. tm_sender_id m = messageSenderUser uid \<and> message_matches uid (gw_bridges g) = [i]) \<and> connected (gw_bridges g ! i)"
  unfolding dials_def dtmf_match_iff message_matches_def filter_one by auto

lemma message_matches_less: "i \<in> set (message_matches uid bs) \<Longrightarrow> i < length bs \<and> user_id (br_ctx (bs ! i)) = uid"
  by (simp add: message_matches_def)

lemma SipDialDtmf_eq:
  "SipDialDtmf env i t s =
     (case sip_calls s i of
        None \<Rightarrow> (Inl (RuntimeError ''CALL_NOT_FOUND''), s)
      | Some call \<Rightarrow>
          ((case pj_error env (pj_ops s) (pj_dialDtmf i t) of Some r \<Rightarrow> Inl (PjError r) | None \<Rightarrow> Inr ()),
           s\<lparr>pj_ops := pj_ops s @ [pj_dialDtmf i t]\<rparr>))"
  by (simp add: SipDialDtmf_def pj_def prog_simps split: option.split)

lemma message_rows:
  "select (StateMachine env) q (EvNewMessage m) = None"
  "select (from_tg env) wait_dtmf (EvNewMessage m) =
     (if IsTextContent (EvNewMessage m) \<and> IsDtmfString (EvNewMessage m)
      then Some (row wait_dtmf is_updateNewMessage (sml_and IsTextContent IsDtmfString) (DialDtmf env) wait_dtmf) else None)"
  "select (from_sip env) wait_dtmf (EvNewMessage m) =
     (if IsTextContent (EvNewMessage m) \<and> IsDtmfString (EvNewMessage m)
      then Some (row wait_dtmf is_updateNewMessage (sml_and IsTextContent IsDtmfString) (DialDtmf env) wait_dtmf) else None)"
  "s \<noteq> wait_dtmf \<Longrightarrow> select (from_tg env) s (EvNewMessage m) = None"
  "s \<noteq> wait_dtmf \<Longrightarrow> select (from_sip env) s (EvNewMessage m) = None"
  by (auto simp: StateMachine_def from_tg_def from_sip_def enabled_def row_def sml_and_def)


lemma message_step:
  assumes "i < length (gw_bridges g)" and "b = gw_bridges g ! i"
  shows "bridge_event env i (EvNewMessage m) g =
    (if (sm_state (br_sm b) = S_from_tg \<or> sm_state (br_sm b) = S_from_sip)
        \<and> sm_subs (br_sm b) (sm_state (br_sm b)) = wait_dtmf
        \<and> IsTextContent (EvNewMessage m) \<and> IsDtmfString (EvNewMessage m)
     then (case DialDtmf env (EvNewMessage m) (br_ctx b, gw_world g) of
             (Inl x, (c, w)) \<Rightarrow> (Inl x, g\<lparr>gw_bridges := (gw_bridges g)[i := b\<lparr>br_ctx := c\<rparr>], gw_world := w\<rparr>)
           | (Inr _, (c, w)) \<Rightarrow> (Inr (), g\<lparr>gw_bridges := (gw_bridges g)[i := b\<lparr>br_ctx := c\<rparr>], gw_world := w\<rparr>))
     else (Inr (), g))" (is "_ = (if ?dials then ?run else _)")
proof (cases ?dials)
  case True
  then have "sm_process_event (machine env) (br_sm b) (EvNewMessage m) (br_ctx b, gw_world g) =
      (case DialDtmf env (EvNewMessage m) (br_ctx b, gw_world g) of
         (Inl x, cw) \<Rightarrow> (Inl x, cw) | (Inr _, cw) \<Rightarrow> (Inr (br_sm b), cw))"
    by (auto simp: sm_process_event_def machine_def sub_tables_def sub_process_def message_rows row_def
        thenM_def bindM_def returnM_def fun_upd_idem split: prod.splits sum.splits)
  then have "bridge_event env i (EvNewMessage m) g = ?run"
    using assms by (auto simp: bridge_event_def Let_def bridge_eta split: prod.splits sum.splits)
  then show ?thesis using True by simp
next
  case False
  then have "case sub_tables env (sm_state (br_sm b)) of None \<Rightarrow> True
      | Some (table, init) \<Rightarrow> select table (sm_subs (br_sm b) (sm_state (br_sm b))) (EvNewMessage m) = None"
    by (cases "sm_state (br_sm b)"; cases "sm_subs (br_sm b) (sm_state (br_sm b)) = wait_dtmf")
      (auto simp: sub_tables_def message_rows)
  then have "bridge_event env i (EvNewMessage m) g = (Inr (), g)"
    by (rule bridge_event_ignored [OF assms _ message_rows(1)])
  then show ?thesis unfolding if_not_P [OF False] .
qed

text \<open>
  C16. Text messages as DTMF, for every message and every state. A message dials exactly when it is
  a text of one to thirty-two of the characters 0-9, A-D, star and hash, sent by a user (not in the
  name of a chat) with whom exactly one call is in progress, and that call is connected; then its
  whole text is sent on the SIP side of that call, and a refusal of the SIP library is ignored.
  Every other message changes nothing. A connected call whose SIP side the client no longer knows
  is the one case that ends the process.
\<close>

theorem message_dtmf:
  "(\<forall>i t. dials g m i t \<longrightarrow> process_updateNewMessage env m g =
     (let sip = sip_call_id (br_ctx (gw_bridges g ! i)); w = gw_world g; s = w_sip w
      in case sip_calls s sip of
           None \<Rightarrow> (Inl (RuntimeError ''CALL_NOT_FOUND''), g)
         | Some call \<Rightarrow> (Inr (), g\<lparr>gw_world := w\<lparr>w_sip := s\<lparr>pj_ops := pj_ops s @ [pj_dialDtmf sip t]\<rparr>\<rparr>\<rparr>)))
   \<and> ((\<forall>i t. \<not> dials g m i t) \<longrightarrow> process_updateNewMessage env m g = (Inr (), g))"
proof (cases "\<exists>uid i. tm_sender_id m = messageSenderUser uid \<and> message_matches uid (gw_bridges g) = [i]")
  case False
  then have "\<not> dials g m i t" for i t by (auto simp: dials_iff)
  moreover have "process_updateNewMessage env m g = (Inr (), g)"
    using False
    by (cases "tm_sender_id m") (auto simp: process_updateNewMessage_def bindM_def getM_def returnM_def split: list.splits)
  ultimately show ?thesis by simp
next
  case True
  then obtain uid i where one: "tm_sender_id m = messageSenderUser uid" "message_matches uid (gw_bridges g) = [i]" by blast
  then have i: "i < length (gw_bridges g)" using message_matches_less [of i uid "gw_bridges g"] by simp
  have dials: "dials g m j t \<longleftrightarrow> j = i \<and> tm_content m = messageText t \<and> dtmf_match t \<and> connected (gw_bridges g ! i)" for j t
    using one by (auto simp: dials_iff)
  have proc: "process_updateNewMessage env m g = bridge_event env i (EvNewMessage m) g"
    using one by (simp add: process_updateNewMessage_def bindM_def getM_def)
  show ?thesis
  proof (cases "tm_content m")
    case (messageText t)
    have dial: "DialDtmf env (EvNewMessage m) (br_ctx (gw_bridges g ! i), gw_world g) =
        (let c = br_ctx (gw_bridges g ! i); sip = sip_call_id c; w = gw_world g; s = w_sip w
         in case sip_calls s sip of
              None \<Rightarrow> (Inl (RuntimeError ''CALL_NOT_FOUND''), (c, w))
            | Some call \<Rightarrow> (Inr (), (c, w\<lparr>w_sip := s\<lparr>pj_ops := pj_ops s @ [pj_dialDtmf sip t]\<rparr>\<rparr>)))"
      using messageText
      by (simp add: DialDtmf_def message_text_def bindM_def act_simps tryM_def SipDialDtmf_eq returnM_def Let_def
          split: option.split)
    show ?thesis
      unfolding proc message_step [OF i refl] dial dials
      using messageText i
      by (cases g) (auto simp: connected_def IsTextContent_def IsDtmfString_def message_text_def Let_def bridge_eta split: option.split)
  next
    case messageOther
    then show ?thesis
      unfolding proc message_step [OF i refl] dials by (simp add: IsTextContent_def message_text_def)
  qed
qed

text \<open>A connected call with user 42, and messages of 32 and of 33 digits from that user.\<close>

definition dtmf_gw :: gateway where
  "dtmf_gw = one_bridge ((waiting_media demo_env)\<lparr>sm_subs := (\<lambda>_. wait_dtmf)\<rparr>)"

definition digits_message :: "nat \<Rightarrow> td_message" where
  "digits_message n = \<lparr>tm_sender_id = messageSenderUser 42, tm_content = messageText (replicate n (CHR ''7''))\<rparr>"

theorem message_dtmf_witness:
  "pj_ops (w_sip (gw_world (snd (process_updateNewMessage demo_env (digits_message 32) dtmf_gw)))) =
     [pj_dialDtmf 0 (replicate 32 (CHR ''7''))]
   \<and> process_updateNewMessage demo_env (digits_message 33) dtmf_gw = (Inr (), dtmf_gw)"
proof -
  have g: "length (gw_bridges dtmf_gw) = 1" "sip_call_id (br_ctx (gw_bridges dtmf_gw ! 0)) = 0"
      "connected (gw_bridges dtmf_gw ! 0)" "user_id (br_ctx (gw_bridges dtmf_gw ! 0)) = 42"
      "sip_calls (w_sip (gw_world dtmf_gw)) 0 = Some \<lparr>so_serial = 0, so_local_user = []\<rparr>" "pj_ops (w_sip (gw_world dtmf_gw)) = []"
    by (simp_all add: dtmf_gw_def one_bridge_def waiting_media_def connected_def new_sip_client_def)
  have "dials dtmf_gw (digits_message 32) 0 (replicate 32 (CHR ''7''))"
    using g by (auto simp: dials_def digits_message_def)
  moreover have "\<not> dials dtmf_gw (digits_message 33) i t" for i t
    by (auto simp: dials_def digits_message_def)
  ultimately show ?thesis
    using message_dtmf [of dtmf_gw "digits_message 32" demo_env] message_dtmf [of dtmf_gw "digits_message 33" demo_env] g
    by (simp add: Let_def)
qed

section \<open>Signaling data\<close>

lemma send_async_query:
  assumes "can_ask 1 t"
  shows "\<exists>p t'. send_query_async False f t = (Inr p, t') \<and> queries t' = queries t @ [Some f]"
proof -
  have "tg_inv t" "ids_left t" using assms by (simp_all add: can_ask_def ids_left_def)
  then show ?thesis by (simp add: send_query_async_eq)
qed

text \<open>
  C17. Signaling data reaches the peer unchanged, in both directions. What the calling library
  emits for the user of a call goes through the queue of internal events and is sent to Telegram
  with the id of that call, the same bytes; what Telegram delivers for a call is handed to the
  calling library for the user of that call, the same bytes.
\<close>

theorem signaling_relay:
  assumes "w = gw_world g" and "r = w_rt w" and "nw_sinks r uid = Some a" and "nw_heap r a = Some k"
    and "ct_on_signaling_data k = Some cid" and "w_internal w = queue_empty"
    and "find_if (\<lambda>b. ctx_id (br_ctx b) = cid) (gw_bridges g) = Some i"
    and "find_if (\<lambda>b. tg_call_id (br_ctx b) = tg) (gw_bridges g) = Some i"
    and "ctx_controller (br_ctx (gw_bridges g ! i)) = Some a" and "ct_created k" and "can_ask 1 (w_tg w)"
  shows "(\<exists>g' raw. thenM (signaling_callback uid data)
          (bindM pop_internal (\<lambda>e. case e of Some x \<Rightarrow> process_internal env x | None \<Rightarrow> returnM ())) g = (Inr (), g')
        \<and> queries (w_tg (gw_world g')) = queries (w_tg w) @ [Some (sendCallSignalingData tg raw)]
        \<and> bytes_of_string raw = data
        \<and> gw_bridges g' = gw_bridges g \<and> w_rt (gw_world g') = r \<and> w_sip (gw_world g') = w_sip w
        \<and> w_internal (gw_world g') = queue_empty)
    \<and> process_updateNewCallSignalingData env tg (string_of_bytes data) g =
        (Inr (), g\<lparr>gw_world := w\<lparr>w_rt := r\<lparr>nw_ops := nw_ops r @ [ntg_send_signaling_data (ct_user_id k) data]\<rparr>\<rparr>\<rparr>)"
proof
  have tg: "tg_call_id (br_ctx (gw_bridges g ! i)) = tg" using find_if_Some [OF assms(8)] by simp
  obtain p t where send: "send_query_async False (sendCallSignalingData tg (string_of_bytes data)) (w_tg w) = (Inr p, t)"
      "queries t = queries (w_tg w) @ [Some (sendCallSignalingData tg (string_of_bytes data))]"
    using send_async_query [OF assms(11)] by blast
  have cb: "signaling_callback uid data g = (Inr (), g\<lparr>gw_world := w\<lparr>w_internal := emplace (Some (SignalingDataEmitted cid data)) queue_empty\<rparr>\<rparr>)"
    using assms(1-6) by (cases g, cases w)
      (simp add: signaling_callback_def gw_rt_def SignalingTrampoline_def OnSignalingData_def deref_eq prog_simps)
  have "thenM (signaling_callback uid data)
          (bindM pop_internal (\<lambda>e. case e of Some x \<Rightarrow> process_internal env x | None \<Rightarrow> returnM ())) g
      = (Inr (), g\<lparr>gw_world := w\<lparr>w_tg := t\<rparr>\<rparr>)"
    using cb send(1) tg assms(1,6,7,9)
    by (cases g, cases w) (simp add: thenM_def pop_internal_def queue_pop_def emplace_def queue_empty_def process_internal_def
        process_SignalingDataEmitted_def gw_tg_def prog_simps)
  then show "\<exists>g' raw. thenM (signaling_callback uid data)
          (bindM pop_internal (\<lambda>e. case e of Some x \<Rightarrow> process_internal env x | None \<Rightarrow> returnM ())) g = (Inr (), g')
        \<and> queries (w_tg (gw_world g')) = queries (w_tg w) @ [Some (sendCallSignalingData tg raw)]
        \<and> bytes_of_string raw = data
        \<and> gw_bridges g' = gw_bridges g \<and> w_rt (gw_world g') = r \<and> w_sip (gw_world g') = w_sip w
        \<and> w_internal (gw_world g') = queue_empty"
    using send(2) assms(2,6) by (intro exI [of _ "g\<lparr>gw_world := w\<lparr>w_tg := t\<rparr>\<rparr>"] exI [of _ "string_of_bytes data"]) simp
  show "process_updateNewCallSignalingData env tg (string_of_bytes data) g =
        (Inr (), g\<lparr>gw_world := w\<lparr>w_rt := r\<lparr>nw_ops := nw_ops r @ [ntg_send_signaling_data (ct_user_id k) data]\<rparr>\<rparr>\<rparr>)"
    using assms(1,2,4,8,9,10)
    by (simp add: process_updateNewCallSignalingData_def gw_rt_def UpdateSignaling_def deref_eq whenM_def prog_simps)
qed


text \<open>The gateway with one connected call.\<close>

definition connected_gw :: gateway where
  "connected_gw =
     \<lparr>gw_bridges = [\<lparr>br_sm = (waiting_media demo_env)\<lparr>sm_subs := (\<lambda>_. wait_dtmf)\<rparr>,
        br_ctx = (new_Context ''7-1'')\<lparr>sip_call_id := 0, tg_call_id := 5, user_id := 42, ctx_controller := Some 0\<rparr>\<rparr>],
      gw_world = (gw_world demo0)\<lparr>w_rt := started sample_controller empty_rt\<rparr>,
      gw_ctx_counter = 1\<rparr>"

theorem signaling_relay_witness:
  "w_rt (gw_world (snd (process_updateNewCallSignalingData demo_env 5 (string_of_bytes [1, 255]) connected_gw))) =
     (started sample_controller empty_rt)\<lparr>nw_ops := nw_ops (started sample_controller empty_rt) @ [ntg_send_signaling_data 42 [1, 255]]\<rparr>"
proof -
  let ?r = "w_rt (gw_world connected_gw)"
  have k: "ct_user_id (live sample_controller) = 42" "ct_on_signaling_data (live sample_controller) = Some ''7-1''"
      "ct_created (live sample_controller)"
    by (simp_all add: live_def sample_controller_def TgCallsController_def)
  have r: "?r = started sample_controller empty_rt" by (simp add: connected_gw_def)
  have h: "nw_sinks ?r 42 = Some 0" "nw_heap ?r 0 = Some (live sample_controller)"
    unfolding r by (simp_all add: started_def empty_rt_def sample_controller_def TgCallsController_def)
  have g: "w_internal (gw_world connected_gw) = queue_empty"
      "find_if (\<lambda>b. ctx_id (br_ctx b) = ''7-1'') (gw_bridges connected_gw) = Some 0"
      "find_if (\<lambda>b. tg_call_id (br_ctx b) = 5) (gw_bridges connected_gw) = Some 0"
      "ctx_controller (br_ctx (gw_bridges connected_gw ! 0)) = Some 0"
      "can_ask 1 (w_tg (gw_world connected_gw))"
    by (simp_all add: connected_gw_def new_Context_def demo0_def new_Gateway_def can_ask_new)
  show ?thesis
    unfolding signaling_relay [OF refl refl h k(2) g(1-4) k(3) g(5), of "[1, 255]" demo_env, THEN conjunct2]
    by (simp add: r k(1))
qed

section \<open>Events without a call\<close>

lemma CleanUp_new: "CleanUp env (new_Context n, w) = (Inr (), (new_Context n, w))"
  by (simp add: CleanUp_def new_Context_def thenM_def bindM_def whenM_def act_simps returnM_def)

lemma initial_to_X:
  assumes "select (StateMachine env) S_init e = Some t" and "t_dst t = S_X"
    and "t_action t e (new_Context n, w) = (Inr (), (c, w))"
  shows "main_process (machine env) (new_sm (machine env)) e (new_Context n, w) =
    (case CleanUp env (c, w) of (Inl x, cw) \<Rightarrow> (Inl x, cw)
     | (Inr _, cw) \<Rightarrow> (Inr ((new_sm (machine env))\<lparr>sm_state := S_X\<rparr>), cw))"
proof -
  have "sm_state (new_sm (machine env)) = S_init" by (simp add: new_sm_def machine_def)
  then show ?thesis
    using assms by (auto simp: main_process_def machine_def thenM_def bindM_def returnM_def enter_def sub_tables_def
        split: prod.splits sum.splits)
qed

text \<open>A new bridge whose machine ends at once leaves nothing behind but what its clean-up did.\<close>

lemma dispatch_new_X:
  assumes "select (StateMachine env) S_init e = Some t" and "t_dst t = S_X"
    and "t_action t e (new_Context (ctx_name env (gw_ctx_counter g + 1)), gw_world g) = (Inr (), (c, gw_world g))"
    and "CleanUp env (c, gw_world g) = (Inr (), (c', w'))" and "ctx_controller c' = None"
    and "\<forall>b \<in> set (gw_bridges g). \<not> p (br_ctx b)"
  shows "bindM (search_call env p) (\<lambda>i. dispatch env i e) g =
    (Inr (), g\<lparr>gw_world := w', gw_ctx_counter := gw_ctx_counter g + 1\<rparr>)"
  using assms(4,5) unfolding search_dispatch_new [OF assms(6)] dispatch_new initial_to_X [OF assms(1-3)]
  by (cases g) (simp add: whenM_def sm_is_def delete_bridge_def erase_at_append prog_simps)

lemma dispatch_unknown:
  assumes "select (StateMachine env) S_init e = Some (row S_init ev sml_always sml_none S_X)"
    and "\<forall>b \<in> set (gw_bridges g). \<not> p (br_ctx b)"
  shows "bindM (search_call env p) (\<lambda>i. dispatch env i e) g = (Inr (), g\<lparr>gw_ctx_counter := gw_ctx_counter g + 1\<rparr>)"
proof -
  have none: "t_action (row S_init ev sml_always sml_none S_X) e (cw :: ctx \<times> world) = (Inr (), cw)" for cw
    by (simp add: row_def sml_none_def returnM_def)
  have "bindM (search_call env p) (\<lambda>i. dispatch env i e) g =
      (Inr (), g\<lparr>gw_world := gw_world g, gw_ctx_counter := gw_ctx_counter g + 1\<rparr>)"
    by (rule dispatch_new_X [OF assms(1) _ none CleanUp_new _ assms(2)]) (simp_all add: row_def new_Context_def)
  then show ?thesis by simp
qed

text \<open>
  C18. Events for calls that are gone, or never were, start nothing: an update of an unknown
  Telegram call that is not a new incoming one, and a state or media update of an unknown SIP
  call, use up one context name and change nothing else; an error or signaling data for an unknown
  call changes nothing at all. No request is made to Telegram, to SIP or to the calling library.
\<close>

theorem unknown_calls_ignored:
  "((\<forall>b \<in> set (gw_bridges g). tg_call_id (br_ctx b) \<noteq> tc_id call) \<and> (tc_is_outgoing call \<or> tc_state call \<noteq> callStatePending) \<longrightarrow>
      process_updateCall env call g = (Inr (), g\<lparr>gw_ctx_counter := gw_ctx_counter g + 1\<rparr>))
   \<and> ((\<forall>b \<in> set (gw_bridges g). sip_call_id (br_ctx b) \<noteq> j) \<longrightarrow>
      process_sip_event env (CallStateUpdate j st) g = (Inr (), g\<lparr>gw_ctx_counter := gw_ctx_counter g + 1\<rparr>)
      \<and> process_sip_event env (CallMediaStateUpdate j has_media) g = (Inr (), g\<lparr>gw_ctx_counter := gw_ctx_counter g + 1\<rparr>))
   \<and> ((\<forall>b \<in> set (gw_bridges g). ctx_id (br_ctx b) \<noteq> cid) \<longrightarrow>
      process_InternalError env cid prm g = (Inr (), g) \<and> process_SignalingDataEmitted env cid data g = (Inr (), g))
   \<and> ((\<forall>b \<in> set (gw_bridges g). tg_call_id (br_ctx b) \<noteq> tg) \<longrightarrow>
      process_updateNewCallSignalingData env tg raw g = (Inr (), g))"
proof (intro conjI impI)
  {
    assume h: "(\<forall>b \<in> set (gw_bridges g). tg_call_id (br_ctx b) \<noteq> tc_id call) \<and> (tc_is_outgoing call \<or> tc_state call \<noteq> callStatePending)"
    have "call_state_get_id (tc_state call) = callStatePending_ID \<longleftrightarrow> tc_state call = callStatePending"
      by (cases "tc_state call") simp_all
    then have "select (StateMachine env) S_init (EvUpdateCall call) = Some (row S_init is_updateCall sml_always sml_none S_X)"
      using h by (auto simp: StateMachine_def enabled_def row_def sml_and_def sml_always_def IsIncoming_def IsInState_def)
    then show "process_updateCall env call g = (Inr (), g\<lparr>gw_ctx_counter := gw_ctx_counter g + 1\<rparr>)"
      unfolding process_updateCall_def by (rule dispatch_unknown) (use h in blast)
  next
    assume h: "\<forall>b \<in> set (gw_bridges g). sip_call_id (br_ctx b) \<noteq> j"
    have "select (StateMachine env) S_init (EvCallState j st) = Some (row S_init is_CallStateUpdate sml_always sml_none S_X)"
        "select (StateMachine env) S_init (EvMediaState j has_media) = Some (row S_init is_CallMediaStateUpdate sml_always sml_none S_X)"
      by (simp_all add: StateMachine_def enabled_def row_def sml_always_def)
    note rows = this
    show "process_sip_event env (CallStateUpdate j st) g = (Inr (), g\<lparr>gw_ctx_counter := gw_ctx_counter g + 1\<rparr>)"
      unfolding process_sip_event_def sip_event_id.simps gw_event_of_sip.simps by (rule dispatch_unknown [OF rows(1) h])
    show "process_sip_event env (CallMediaStateUpdate j has_media) g = (Inr (), g\<lparr>gw_ctx_counter := gw_ctx_counter g + 1\<rparr>)"
      unfolding process_sip_event_def sip_event_id.simps gw_event_of_sip.simps by (rule dispatch_unknown [OF rows(2) h])
  next
    assume "\<forall>b \<in> set (gw_bridges g). ctx_id (br_ctx b) \<noteq> cid"
    then have "find_if (\<lambda>b. ctx_id (br_ctx b) = cid) (gw_bridges g) = None" by (simp add: find_if_None)
    then show "process_InternalError env cid prm g = (Inr (), g)" "process_SignalingDataEmitted env cid data g = (Inr (), g)"
      by (simp_all add: process_InternalError_def process_SignalingDataEmitted_def bindM_def getM_def returnM_def)
  next
    assume "\<forall>b \<in> set (gw_bridges g). tg_call_id (br_ctx b) \<noteq> tg"
    then have "find_if (\<lambda>b. tg_call_id (br_ctx b) = tg) (gw_bridges g) = None" by (simp add: find_if_None)
    then show "process_updateNewCallSignalingData env tg raw g = (Inr (), g)"
      by (simp add: process_updateNewCallSignalingData_def bindM_def getM_def returnM_def)
  }
qed

theorem unknown_calls_ignored_witness:
  "process_updateCall demo_env ready_call demo0 = (Inr (), demo0\<lparr>gw_ctx_counter := 1\<rparr>)
   \<and> process_sip_event demo_env (CallStateUpdate 3 PJSIP_INV_STATE_DISCONNECTED) demo0 = (Inr (), demo0\<lparr>gw_ctx_counter := 1\<rparr>)"
proof -
  have "gw_bridges demo0 = []" "gw_ctx_counter demo0 = 0" "tc_state ready_call \<noteq> callStatePending"
    by (simp_all add: demo0_def new_Gateway_def ready_call_def)
  then show ?thesis
    using unknown_calls_ignored [of demo0 ready_call demo_env 3 PJSIP_INV_STATE_DISCONNECTED] by simp
qed

section \<open>A call from Telegram without a callback address\<close>

lemma pending_unset_row:
  assumes "\<not> tc_is_outgoing call" and "tc_state call = callStatePending" and "callback_uri (e_settings env) = []"
  shows "\<exists>t. select (StateMachine env) S_init (EvUpdateCall call) = Some t \<and> t_dst t = S_X \<and> t_action t = StoreTgId"
  using assms by (simp add: StateMachine_def enabled_def row_def sml_and_def sml_not_def IsIncoming_def IsInState_def CallbackUriIsSet_def)

text \<open>
  Without a callback address an incoming Telegram call is rejected at once: it is discarded
  with one query, whatever the answer, no bridge stays, and the SIP side is not involved.
\<close>

lemma no_callback_discards:
  assumes "\<forall>b \<in> set (gw_bridges g). tg_call_id (br_ctx b) \<noteq> tc_id call" and "tc_id call \<noteq> 0"
    and "\<not> tc_is_outgoing call" and "tc_state call = callStatePending" and "callback_uri (e_settings env) = []"
    and "w = gw_world g" and "can_ask 1 (w_tg w)"
  shows "process_updateCall env call g = (Inr (), g\<lparr>gw_world := w\<lparr>w_tg :=
      after_query (e_td env) (discardCall (tc_id call) False [] 0 False (tc_id call)) (w_tg w)\<rparr>,
    gw_ctx_counter := gw_ctx_counter g + 1\<rparr>)"
proof -
  let ?n = "ctx_name env (gw_ctx_counter g + 1)" and ?f = "discardCall (tc_id call) False [] 0 False (tc_id call)"
  obtain t where t: "select (StateMachine env) S_init (EvUpdateCall call) = Some t" "t_dst t = S_X" "t_action t = StoreTgId"
    using pending_unset_row [OF assms(3-5)] by blast
  have store: "t_action t (EvUpdateCall call) (new_Context ?n, gw_world g) =
      (Inr (), ((new_Context ?n)\<lparr>tg_call_id := tc_id call\<rparr>, gw_world g))"
    by (simp add: t(3) StoreTgId_def act_simps)
  have "td_get (e_td env) ?f (w_tg w) = (Inr (td_answer (e_td env) (tg_sent (w_tg w)) ?f), after_query (e_td env) ?f (w_tg w))"
    using ask(1) [of 0] assms(7) by simp
  then have clean: "CleanUp env ((new_Context ?n)\<lparr>tg_call_id := tc_id call\<rparr>, gw_world g) =
      (Inr (), (new_Context ?n, w\<lparr>w_tg := after_query (e_td env) ?f (w_tg w)\<rparr>))"
    using assms(2,6) by (simp add: CleanUp_def new_Context_def thenM_def bindM_def whenM_def act_simps returnM_def)
  show ?thesis
    unfolding process_updateCall_def by (rule dispatch_new_X [OF t(1,2) store clean _ assms(1)]) (simp add: new_Context_def)
qed

definition mute_env :: env where
  "mute_env = demo_env\<lparr>e_settings := demo_settings\<lparr>callback_uri := []\<rparr>\<rparr>"

lemma no_callback_discards_witness:
  "fst (process_updateCall mute_env pending_call demo0) = Inr ()
   \<and> gw_bridges (snd (process_updateCall mute_env pending_call demo0)) = []
   \<and> queries (w_tg (gw_world (snd (process_updateCall mute_env pending_call demo0)))) = [Some (discardCall 5 False [] 0 False 5)]"
proof -
  have w: "w_tg (gw_world demo0) = new_tg_client demo_settings" "gw_bridges demo0 = []"
    by (simp_all add: demo0_def new_Gateway_def)
  have h: "\<forall>b \<in> set (gw_bridges demo0). tg_call_id (br_ctx b) \<noteq> tc_id pending_call" "tc_id pending_call \<noteq> 0"
      "\<not> tc_is_outgoing pending_call" "tc_state pending_call = callStatePending" "callback_uri (e_settings mute_env) = []"
    by (simp_all add: w pending_call_def mute_env_def)
  have ask1: "can_ask 1 (w_tg (gw_world demo0))" by (simp add: w can_ask_new)
  have sent: "queries (after_query env f (w_tg (gw_world demo0))) = [Some f]" for env f
    using ask(3) [of 0 "w_tg (gw_world demo0)"] ask1 w by (simp add: new_tg_client_def)
  show ?thesis
    unfolding no_callback_discards [OF h refl ask1] by (simp add: w(2) sent) (simp add: pending_call_def)
qed

end
