(* ===== verification/Gateway_Cache.thy ===== *)
theory Gateway_Cache
  imports Gateway_Dialing
begin

text \<open>
  The contact cache that the gateway loads before its loop: which users it ends up with, and that
  they are dialed without a lookup.
\<close>

section \<open>Queries for all contacts\<close>

lemma ask_async:
  assumes "can_ask (Suc n) t"
  shows "\<exists>t'. send_query_async False f t = (Inr (length (tg_promises t)), t') \<and> can_ask n t' \<and> queries t' = queries t @ [Some f]"
proof -
  have t: "tg_inv t" "ids_left t" using assms by (simp_all add: can_ask_def ids_left_def)
  have "can_ask n (snd (send_query_async False f t))"
    using tg_inv_send_async [OF t] assms unat_next_id [OF t(2)] by (simp add: can_ask_def send_query_async_eq [OF t])
  then show ?thesis by (simp add: send_query_async_eq [OF t])
qed

lemma send_all_queries:
  assumes "can_ask (length ids) (w_tg (gw_world g))"
  shows "\<exists>ps t. send_all ids g = (Inr ps, g\<lparr>gw_world := (gw_world g)\<lparr>w_tg := t\<rparr>\<rparr>)
    \<and> length ps = length ids \<and> queries t = queries (w_tg (gw_world g)) @ map (Some \<circ> getUser) ids"
  using assms
proof (induction ids arbitrary: g)
  case Nil
  then show ?case by (intro exI [of _ "[]"] exI [of _ "w_tg (gw_world g)"]) (simp add: returnM_def)
next
  case (Cons i ids)
  let ?w = "gw_world g"
  obtain t where t: "send_query_async False (getUser i) (w_tg ?w) = (Inr (length (tg_promises (w_tg ?w))), t)"
      "can_ask (length ids) t" "queries t = queries (w_tg ?w) @ [Some (getUser i)]"
    using ask_async [of "length ids" "w_tg ?w"] Cons.prems by auto
  obtain ps t' where "send_all ids (g\<lparr>gw_world := ?w\<lparr>w_tg := t\<rparr>\<rparr>) = (Inr ps, g\<lparr>gw_world := ?w\<lparr>w_tg := t'\<rparr>\<rparr>)"
      "length ps = length ids" "queries t' = queries t @ map (Some \<circ> getUser) ids"
    using Cons.IH [of "g\<lparr>gw_world := ?w\<lparr>w_tg := t\<rparr>\<rparr>"] t(2) by auto
  then show ?case
    using t by (intro exI [of _ "length (tg_promises (w_tg ?w)) # ps"] exI [of _ t'])
      (simp add: gw_tg_def prog_simps)
qed

section \<open>Reading the answers\<close>

fun usable :: "td_object list \<Rightarrow> td_user list" where
  "usable [] = []"
| "usable (td_user_object u # as) = (if tu_have_access u then u # usable as else [])"
| "usable (_ # as) = usable as"

definition user_answer :: "td_object \<Rightarrow> bool" where
  "user_answer a = (case a of td_user_object u \<Rightarrow> True | td_error c m \<Rightarrow> True | _ \<Rightarrow> False)"

definition settled :: "tg_client \<Rightarrow> nat \<Rightarrow> td_object \<Rightarrow> bool" where
  "settled t p a \<longleftrightarrow> p < length (tg_promises t) \<and> tg_promises t ! p = Some a"

lemma future_get_settled: "settled t p a \<Longrightarrow> future_get p t = (Inr a, t)"
  by (simp add: settled_def future_get_def prog_simps)

lemma read_all_eq:
  assumes "list_all2 (settled t) ps as" and "list_all user_answer as" and "w_tg (gw_world g) = t"
  shows "read_all ps g = (Inr (), g\<lparr>gw_world := (gw_world g)
    \<lparr>w_cache := fold cache_user (usable as) (w_cache (gw_world g))\<rparr>\<rparr>)"
  using assms
proof (induction ps as arbitrary: g rule: list_all2_induct)
  case Nil
  then show ?case by (simp add: returnM_def)
next
  case (Cons p ps a as)
  have get: "gw_tg (future_get p) g = (Inr a, g)"
    using future_get_settled [OF Cons.hyps(1)] Cons.prems(2) by (cases g, cases "gw_world g") (simp add: gw_tg_def liftM_def)
  consider u where "a = td_user_object u" | c m where "a = td_error c m"
    using Cons.prems by (auto simp: user_answer_def split: td_object.splits)
  then show ?case
  proof cases
    case (1 u)
    show ?thesis
    proof (cases "tu_have_access u")
      case True
      have "read_all ps (g\<lparr>gw_world := (gw_world g)\<lparr>w_cache := cache_user u (w_cache (gw_world g))\<rparr>\<rparr>) =
          (Inr (), g\<lparr>gw_world := (gw_world g)\<lparr>w_cache := fold cache_user (usable as) (cache_user u (w_cache (gw_world g)))\<rparr>\<rparr>)"
        using Cons.IH [of "g\<lparr>gw_world := (gw_world g)\<lparr>w_cache := cache_user u (w_cache (gw_world g))\<rparr>\<rparr>"] Cons.prems by simp
      then show ?thesis using 1 True get by (simp add: thenM_def bindM_def modifyM_def)
    next
      case False
      then show ?thesis using 1 get by (simp add: bindM_def returnM_def)
    qed
  next
    case (2 c m)
    then show ?thesis using get Cons.IH [of g] Cons.prems by (simp add: bindM_def)
  qed
qed

lemma usable_stops: "\<not> tu_have_access u \<Longrightarrow> usable (as @ td_user_object u # bs) = usable as"
  by (induction as rule: usable.induct) simp_all

section \<open>What the cache knows\<close>

lemma cache_user_grows:
  "username_cache ca \<subseteq>\<^sub>m username_cache (cache_user u ca)" "phone_cache ca \<subseteq>\<^sub>m phone_cache (cache_user u ca)"
  by (simp_all add: cache_user_def Let_def map_emplace_le split: option.split)

lemma fold_cache_grows:
  "username_cache ca \<subseteq>\<^sub>m username_cache (fold cache_user us ca)" "phone_cache ca \<subseteq>\<^sub>m phone_cache (fold cache_user us ca)"
proof (induction us arbitrary: ca)
  case (Cons u us)
  {
    case 1
    show ?case using map_le_trans [OF cache_user_grows(1) Cons.IH(1)] by simp
  next
    case 2
    show ?case using map_le_trans [OF cache_user_grows(2) Cons.IH(2)] by simp
  }
qed simp_all

lemma cache_user_knows:
  "tu_phone_number u \<noteq> [] \<Longrightarrow> known (Phone (tu_phone_number u)) (cache_user u ca) \<noteq> None"
  "tu_usernames u = Some n \<Longrightarrow> n \<noteq> [] \<Longrightarrow> known (Username n) (cache_user u ca) \<noteq> None"
  by (auto simp: cache_user_def Let_def split: option.splits)

lemma map_le_known: "m \<subseteq>\<^sub>m m' \<Longrightarrow> m k \<noteq> None \<Longrightarrow> m' k \<noteq> None"
  by (metis domIff map_le_def)

lemma fold_cache_knows:
  assumes "u \<in> set us"
  shows "tu_phone_number u \<noteq> [] \<Longrightarrow> known (Phone (tu_phone_number u)) (fold cache_user us ca) \<noteq> None"
    and "tu_usernames u = Some n \<Longrightarrow> n \<noteq> [] \<Longrightarrow> known (Username n) (fold cache_user us ca) \<noteq> None"
  using assms
proof (induction us arbitrary: ca)
  case (Cons v us)
  {
    case 1
    show ?case
    proof (cases "u \<in> set us")
      case True
      then show ?thesis using Cons.IH(1) 1 by simp
    next
      case False
      then have "phone_cache (cache_user v ca) (tu_phone_number u) \<noteq> None" using 1 cache_user_knows(1) by simp
      then show ?thesis using map_le_known [OF fold_cache_grows(2)] by simp
    qed
  next
    case 2
    show ?case
    proof (cases "u \<in> set us")
      case True
      then show ?thesis using Cons.IH(2) 2 by simp
    next
      case False
      then have "username_cache (cache_user v ca) n \<noteq> None" using 2 cache_user_knows(2) by fastforce
      then show ?thesis using map_le_known [OF fold_cache_grows(1)] by simp
    qed
  }
qed simp_all


text \<open>
  C26. Loading the contacts. One query asks for the contacts and one more for each of them, in the
  order of the list. When the client thread has answered these, the cache holds the users that were
  found and are accessible, in that order and without overwriting, but only up to the first user
  that is not accessible: all after that one are missing, although they were answered. Every user
  in the cache is found there by phone number and by user name, so that dialing it needs no lookup.
\<close>

theorem contact_cache:
  assumes "w = gw_world g" and "can_ask (Suc (length ids)) (w_tg w)"
    and "td_answer (e_td env) (tg_sent (w_tg w)) (searchContacts [] INT_MAX) = td_users ids"
    and "t = after_query (e_td env) (searchContacts [] INT_MAX) (w_tg w)"
    and "send_all ids (g\<lparr>gw_world := w\<lparr>w_tg := t\<rparr>\<rparr>) = (Inr ps, g1)"
    and "tg_loop rs (w_tg (gw_world g1)) = (Inr (), t2)" and "list_all2 (settled t2) ps as" and "list_all user_answer as"
  shows "load_cache env rs g = (Inr (), g\<lparr>gw_world := w\<lparr>w_tg := t2, w_cache := fold cache_user (usable as) (w_cache w)\<rparr>\<rparr>)
    \<and> queries (w_tg (gw_world g1)) = queries (w_tg w) @ Some (searchContacts [] INT_MAX) # map (Some \<circ> getUser) ids
    \<and> (as = xs @ td_user_object u # ys \<and> \<not> tu_have_access u \<longrightarrow> usable as = usable xs)
    \<and> (v \<in> set (usable as) \<longrightarrow>
        (tu_phone_number v \<noteq> [] \<longrightarrow> known (Phone (tu_phone_number v)) (fold cache_user (usable as) (w_cache w)) \<noteq> None)
        \<and> (\<forall>n. tu_usernames v = Some n \<and> n \<noteq> [] \<longrightarrow> known (Username n) (fold cache_user (usable as) (w_cache w)) \<noteq> None))"
proof -
  let ?f = "searchContacts [] INT_MAX"
  note q = ask [OF assms(2), of "e_td env" ?f]
  let ?g = "g\<lparr>gw_world := w\<lparr>w_tg := t\<rparr>\<rparr>"
  have "can_ask (length ids) (w_tg (gw_world ?g))" using q(2) assms(4) by simp
  then obtain ps' t1 where all: "send_all ids ?g = (Inr ps', ?g\<lparr>gw_world := (gw_world ?g)\<lparr>w_tg := t1\<rparr>\<rparr>)"
      "queries t1 = queries t @ map (Some \<circ> getUser) ids"
    using send_all_queries by fastforce
  have g1: "g1 = g\<lparr>gw_world := w\<lparr>w_tg := t1\<rparr>\<rparr>" using all(1) assms(5) by simp
  have first: "gw_tg (td_get (e_td env) ?f) g = (Inr (td_users ids), ?g)"
    using q(1) assms(1,3,4) by (simp add: gw_tg_def liftM_def)
  have loop: "gw_tg (tg_loop rs) g1 = (Inr (), g\<lparr>gw_world := w\<lparr>w_tg := t2\<rparr>\<rparr>)"
    using assms(6) by (simp add: gw_tg_def liftM_def g1)
  have read: "read_all ps (g\<lparr>gw_world := w\<lparr>w_tg := t2\<rparr>\<rparr>) =
      (Inr (), g\<lparr>gw_world := w\<lparr>w_tg := t2, w_cache := fold cache_user (usable as) (w_cache w)\<rparr>\<rparr>)"
    using read_all_eq [OF assms(7,8), of "g\<lparr>gw_world := w\<lparr>w_tg := t2\<rparr>\<rparr>"] by simp
  have "load_cache env rs g = (Inr (), g\<lparr>gw_world := w\<lparr>w_tg := t2, w_cache := fold cache_user (usable as) (w_cache w)\<rparr>\<rparr>)"
    using first assms(5) loop read by (simp add: load_cache_def thenM_def bindM_def)
  moreover have "queries (w_tg (gw_world g1)) = queries (w_tg w) @ Some ?f # map (Some \<circ> getUser) ids"
    using all(2) q(3) assms(4) by (simp add: g1)
  ultimately show ?thesis using usable_stops [of u xs ys] fold_cache_knows by blast
qed

text \<open>Three contacts, the second of which is not accessible.\<close>

definition cache_env :: env where
  "cache_env = demo_env\<lparr>e_td := \<lparr>td_answer = (\<lambda>h f. td_users [42, 43, 44])\<rparr>\<rparr>"

definition closed_user :: td_user where
  "closed_user = demo_user\<lparr>tu_id := 43, tu_have_access := False\<rparr>"

definition cache_answers :: "td_object list" where
  "cache_answers = [td_user_object demo_user, td_user_object closed_user, td_user_object (demo_user\<lparr>tu_id := 44, tu_phone_number := ''200''\<rparr>)]"

definition cache_responses :: "(64 word \<times> td_object option) list" where
  "cache_responses = zip [2, 3, 4] (map Some cache_answers)"

theorem contact_cache_witness:
  "fst (load_cache cache_env cache_responses demo0) = Inr ()
   \<and> known (Phone ''100'') (w_cache (gw_world (snd (load_cache cache_env cache_responses demo0)))) = Some 42
   \<and> known (Phone ''200'') (w_cache (gw_world (snd (load_cache cache_env cache_responses demo0)))) = None"
proof -
  let ?w = "gw_world demo0"
  have w: "w_tg ?w = new_tg_client demo_settings" "w_cache ?w = \<lparr>username_cache = Map.empty, phone_cache = Map.empty\<rparr>"
    by (simp_all add: demo0_def new_Gateway_def)
  have ask3: "can_ask (Suc (length [42 :: int, 43, 44])) (w_tg ?w)" unfolding w by (rule can_ask_new) simp
  have ans: "td_answer (e_td cache_env) (tg_sent (w_tg ?w)) (searchContacts [] INT_MAX) = td_users [42, 43, 44]"
    by (simp add: cache_env_def)
  define s where "s = send_all [42, 43, 44] (demo0\<lparr>gw_world := ?w\<lparr>w_tg := after_query (e_td cache_env) (searchContacts [] INT_MAX) (w_tg ?w)\<rparr>\<rparr>)"
  have ps: "fst s = Inr [1, 2, 3]" unfolding s_def by code_simp
  have lp: "fst (tg_loop cache_responses (w_tg (gw_world (snd s)))) = Inr ()" unfolding s_def by code_simp
  have "tg_promises (snd (tg_loop cache_responses (w_tg (gw_world (snd s))))) = Some (td_users [42, 43, 44]) # map Some cache_answers"
    unfolding s_def by code_simp
  then have st: "list_all2 (settled (snd (tg_loop cache_responses (w_tg (gw_world (snd s)))))) [1, 2, 3] cache_answers"
    by (simp add: settled_def cache_answers_def)
  have ua: "list_all user_answer cache_answers" by (simp add: cache_answers_def user_answer_def)
  have send: "s = (Inr [1, 2, 3], snd s)" by (metis ps prod.collapse)
  have loop: "tg_loop cache_responses (w_tg (gw_world (snd s))) = (Inr (), snd (tg_loop cache_responses (w_tg (gw_world (snd s)))))"
    by (metis lp prod.collapse)
  obtain t where run: "load_cache cache_env cache_responses demo0 =
      (Inr (), demo0\<lparr>gw_world := ?w\<lparr>w_tg := t, w_cache := fold cache_user (usable cache_answers) (w_cache ?w)\<rparr>\<rparr>)"
    using contact_cache [OF refl ask3 ans refl send [unfolded s_def] loop [unfolded s_def] st [unfolded s_def] ua] by blast
  have us: "usable cache_answers = [demo_user]" by (simp add: cache_answers_def closed_user_def demo_user_def)
  show ?thesis
    unfolding run by (simp add: us w(2) cache_user_def demo_user_def Let_def)
qed

end
