(* ===== verification/Gateway_Frame.thy ===== *)
theory Gateway_Frame
  imports Gateway
begin

text \<open>
  Properties of the shared world that every handler keeps. A property that survives the requests to
  the SIP and the Telegram client, any change of the calling runtime, new internal events and
  changes of the bookkeeping survives every action, hence every step of a bridge's machine and
  every handler, whatever the outcome.
\<close>

named_theorems world_intros \<open>programs that keep a property of the world\<close>

locale world_property =
  fixes env :: env and W :: "world \<Rightarrow> bool"
  assumes Dial_ok: "W w \<Longrightarrow> W (w\<lparr>w_sip := snd (Dial (e_pj env) uri prm (w_sip w))\<rparr>)"
    and Hangup_ok: "W w \<Longrightarrow> W (w\<lparr>w_sip := snd (Hangup (e_pj env) i prm (w_sip w))\<rparr>)"
    and Answer_ok: "W w \<Longrightarrow> W (w\<lparr>w_sip := snd (Answer (e_pj env) i prm (w_sip w))\<rparr>)"
    and SipDialDtmf_ok: "W w \<Longrightarrow> W (w\<lparr>w_sip := snd (SipDialDtmf (e_pj env) i t (w_sip w))\<rparr>)"
    and SipBridgeAudio_ok: "W w \<Longrightarrow> W (w\<lparr>w_sip := snd (SipBridgeAudio (e_pj env) i x y (w_sip w))\<rparr>)"
    and register_ok: "W w \<Longrightarrow> W (w\<lparr>w_sip := snd (pj (e_pj env) (pj_registerMediaPort name) (w_sip w))\<rparr>)"
    and td_get_ok: "W w \<Longrightarrow> W (w\<lparr>w_tg := snd (td_get (e_td env) f (w_tg w))\<rparr>)"
    and send_ok: "W w \<Longrightarrow> W (w\<lparr>w_tg := snd (send_query_async False f (w_tg w))\<rparr>)"
    and rt_ok: "W w \<Longrightarrow> W (w\<lparr>w_rt := r\<rparr>)"
    and internal_ok: "W w \<Longrightarrow> W (w\<lparr>w_internal := emplace v (w_internal w)\<rparr>)"
    and cache_ok: "W w \<Longrightarrow> W (w\<lparr>w_cache := c\<rparr>)"
    and block_ok: "W w \<Longrightarrow> W (w\<lparr>w_block_until := b\<rparr>)"
    and clock_ok: "W w \<Longrightarrow> W (w\<lparr>w_readings := n\<rparr>)"
begin

abbreviation act_keeps :: "'a act \<Rightarrow> bool" where
  "act_keeps m \<equiv> keeps (\<lambda>(c, w). W w) m"

abbreviation gw_keeps :: "'a gwp \<Rightarrow> bool" where
  "gw_keeps m \<equiv> keeps (\<lambda>g. W (gw_world g)) m"

lemma act_basic [world_intros]:
  "act_keeps (sipM (Dial (e_pj env) uri prm))" "act_keeps (sipM (Hangup (e_pj env) i prm))"
  "act_keeps (sipM (Answer (e_pj env) i prm))" "act_keeps (sipM (SipDialDtmf (e_pj env) i t))"
  "act_keeps (sipM (SipBridgeAudio (e_pj env) i x y))" "act_keeps (tgM (td_get (e_td env) f))"
  "act_keeps (sipM (pj (e_pj env) (pj_registerMediaPort name)))"
  "act_keeps (rtM k)" "act_keeps (get_ctx f1)" "act_keeps (put_ctx f2)" "act_keeps (get_world f3)"
  "act_keeps (internal_error prm)" "act_keeps (now env)"
  by (auto simp: keeps_def act_simps internal_error_eq now_eq Dial_ok Hangup_ok Answer_ok SipDialDtmf_ok SipBridgeAudio_ok
      register_ok td_get_ok rt_ok internal_ok clock_ok case_prod_beta)

lemma act_put_world: "(\<And>w. W w \<Longrightarrow> W (f w)) \<Longrightarrow> act_keeps (put_world f)"
  by (auto simp: keeps_def act_simps)

lemma act_try [world_intros]:
  "act_keeps m \<Longrightarrow> act_keeps (tryM m catch_pj)" "act_keeps m \<Longrightarrow> act_keeps (tryM m catch_pj_runtime)"
  "act_keeps m \<Longrightarrow> act_keeps (tryM m (\<lambda>e. case e of PjError reason \<Rightarrow> Some (returnM ()) | _ \<Rightarrow> None))"
  by (auto intro!: keeps_try inv_intros world_intros simp: catch_pj_def catch_pj_runtime_def split: exn.splits)

lemma act_simple [world_intros]:
  "act_keeps (StoreSipId e)" "act_keeps (StoreTgId e)" "act_keeps (StoreTgUserId e)" "act_keeps (CleanTgId e)"
  "act_keeps (CleanSipId e)" "act_keeps (SetHangupPrm e)" "act_keeps (sml_none e)"
  unfolding StoreSipId_def StoreTgId_def StoreTgUserId_def CleanTgId_def CleanSipId_def SetHangupPrm_def sml_none_def
  by (auto intro!: inv_intros world_intros split: gw_event.splits)

lemma act_new_controller [world_intros]: "act_keeps (new_controller env k)"
  unfolding new_controller_def register_ports_def by (intro inv_intros world_intros)

lemma act_calls [world_intros]:
  "act_keeps (CleanUp env)" "act_keeps (DialSip env e)" "act_keeps (AnswerTg env e)" "act_keeps (AcceptIncomingSip env e)"
  "act_keeps (AnswerSip env e)" "act_keeps (CreateTgVoip env e)" "act_keeps (BridgeAudio env e)" "act_keeps (DialDtmf env e)"
  unfolding CleanUp_def DialSip_def AnswerTg_def AcceptIncomingSip_def AnswerSip_def CreateTgVoip_def BridgeAudio_def DialDtmf_def
  by (auto intro!: inv_intros world_intros split: gw_event.splits option.splits td_object.splits call_state.splits)

lemma act_dial [world_intros]: "act_keeps (parse_error env m)" "act_keeps (dial_failed env k m)" "act_keeps (dial_by_id env i)"
  unfolding parse_error_def dial_failed_def dial_by_id_def
  by (auto intro!: inv_intros world_intros act_put_world block_ok split: option.splits sum.splits td_object.splits)

lemma act_DialTg [world_intros]: "act_keeps (DialTg env e)"
  unfolding DialTg_def dial_by_phone_def dial_by_username_def
  by (auto intro!: inv_intros world_intros act_put_world cache_ok
      split: option.splits td_object.splits list.splits chat_type.splits)

lemma act_seq [world_intros]: "act_keeps (a e) \<Longrightarrow> act_keeps (b e) \<Longrightarrow> act_keeps (sml_seq a b e)"
  by (simp add: sml_seq_def keeps_then)

lemma act_machine: "act_keeps (sm_process_event (machine env) s e)"
proof (rule keeps_sm_process_event)
  show "act_keeps (t_action t e)" if "t \<in> set (mc_table (machine env))" for t e
    using that by (auto simp: machine_def StateMachine_def row_def intro!: world_intros)
  show "act_keeps (mc_entry (machine env) m)" for m
    by (simp add: machine_def world_intros keeps_return)
  show "act_keeps (t_action t e)" if "mc_sub (machine env) m = Some (table, i)" "t \<in> set table" for m table i t e
    using that by (auto simp: machine_def sub_tables_def from_tg_def from_sip_def row_def intro!: world_intros split: main_state.splits)
qed

lemma gw_bridge_event [world_intros]: "gw_keeps (bridge_event env i e)"
proof (rule keepsI)
  fix g :: gateway
  assume "W (gw_world g)"
  then show "W (gw_world (snd (bridge_event env i e g)))"
    using keepsD [OF act_machine, of "(br_ctx (gw_bridges g ! i), gw_world g)" "br_sm (gw_bridges g ! i)" e]
    by (auto simp: bridge_event_def Let_def split: prod.splits sum.splits)
qed

lemma gw_basic [world_intros]:
  "gw_keeps (search_call env p)" "gw_keeps (gw_rt m)" "gw_keeps (gw_tg (td_get (e_td env) f))"
  "gw_keeps (gw_tg (send_query_async False f))"
  by (simp_all add: keeps_def search_call_eq gw_rt_def gw_tg_def liftM_def case_prod_beta rt_ok td_get_ok send_ok split: option.split)

lemma gw_delete [world_intros]: "gw_keeps (delete_bridge env i)"
proof -
  have "gw_keeps (liftM (\<lambda>g. w_rt (gw_world g)) (\<lambda>r g. g\<lparr>gw_world := (gw_world g)\<lparr>w_rt := r\<rparr>\<rparr>) m)" for m :: "(rt_world, 'a) prog"
    using gw_basic(2) [of m] by (simp add: gw_rt_def)
  then show ?thesis
    unfolding delete_bridge_def by (auto intro!: inv_intros keeps_modify split: option.splits)
qed

lemma gw_dispatch [world_intros]: "gw_keeps (dispatch env i e)"
  unfolding dispatch_def by (auto intro!: inv_intros world_intros)

lemma gw_handlers [world_intros]:
  "gw_keeps (process_internal env x)" "gw_keeps (process_tg env obj)" "gw_keeps (process_sip_event env se)"
  unfolding process_internal_def process_InternalError_def process_SignalingDataEmitted_def process_tg_def process_updateCall_def
    process_updateNewMessage_def process_updateNewCallSignalingData_def process_sip_event_def
  by (auto intro!: inv_intros world_intros
      split: internal_event.splits option.splits td_object.splits message_sender.splits list.splits)

end

end
