(* ===== verification/Gateway_Progress.thy ===== *)
theory Gateway_Progress
  imports Gateway_Demo Gateway_Frame "HOL-Library.Sublist"
begin

text \<open>
  Progress of the main loop: no handler takes an event out of a queue or puts one in front, so the
  event at position \<open>k\<close> of a queue is handled in round \<open>k\<close>, whatever the handlers and the other
  threads add behind it.
\<close>

section \<open>Programs that only add to the queues\<close>

named_theorems q_intros \<open>programs that only add events at the ends of the queues\<close>

lemma keeps_prefix_sip [q_intros]:
  "keeps (\<lambda>s. prefix S (sip_events s)) (Dial env uri prm)" "keeps (\<lambda>s. prefix S (sip_events s)) (Hangup env i prm)"
  "keeps (\<lambda>s. prefix S (sip_events s)) (Answer env i prm)" "keeps (\<lambda>s. prefix S (sip_events s)) (SipDialDtmf env i t)"
  "keeps (\<lambda>s. prefix S (sip_events s)) (SipBridgeAudio env i x y)"
proof -
  have pj: "keeps (\<lambda>s. prefix S (sip_events s)) (pj env op)" for op
    by (simp add: keeps_def pj_eq split: option.splits)
  have new: "keeps (\<lambda>s. prefix S (sip_events s)) new_call"
    by (auto simp: new_call_def intro!: inv_intros keeps_modify)
  show "keeps (\<lambda>s. prefix S (sip_events s)) (Dial env uri prm)"
    unfolding Dial_def Let_def by (auto intro!: inv_intros keeps_modify pj new simp: store_call_def)
  show "keeps (\<lambda>s. prefix S (sip_events s)) (Hangup env i prm)"
    unfolding Hangup_def by (auto intro!: inv_intros keeps_modify pj split: option.splits)
  show "keeps (\<lambda>s. prefix S (sip_events s)) (Answer env i prm)" "keeps (\<lambda>s. prefix S (sip_events s)) (SipDialDtmf env i t)"
    unfolding Answer_def SipDialDtmf_def by (auto intro!: inv_intros pj split: option.splits)
  show "keeps (\<lambda>s. prefix S (sip_events s)) (SipBridgeAudio env i x y)"
    unfolding SipBridgeAudio_def call_audio_media_def getInfo_def
    by (auto intro!: inv_intros pj split: option.splits)
qed

lemma prefix_emplace: "prefix xs ys \<Longrightarrow> prefix xs (emplace v ys)"
  by (simp add: emplace_def)

lemma keeps_prefix_tg_send [q_intros]:
  "keeps (\<lambda>t. prefix T (tg_events t)) (tg_say m)" "keeps (\<lambda>t. prefix T (tg_events t)) (send_query f h)"
  "keeps (\<lambda>t. prefix T (tg_events t)) (send_query_async b g)" "keeps (\<lambda>t. prefix T (tg_events t)) (future_get p)"
proof -
  show say: "keeps (\<lambda>t. prefix T (tg_events t)) (tg_say m)" for m
    unfolding tg_say_def by (auto intro!: keeps_modify)
  show send: "keeps (\<lambda>t. prefix T (tg_events t)) (send_query f h)" for f h
    unfolding send_query_def next_query_id_def by (auto intro!: inv_intros keeps_modify split: option.splits)
  show "keeps (\<lambda>t. prefix T (tg_events t)) (send_query_async b g)"
    unfolding send_query_async_def by (auto intro!: inv_intros keeps_modify say send)
  show "keeps (\<lambda>t. prefix T (tg_events t)) (future_get p)"
    unfolding future_get_def by (auto intro!: inv_intros split: option.splits)
qed

lemma keeps_prefix_tg_response [q_intros]:
  "keeps (\<lambda>t. prefix T (tg_events t)) (process_response r)"
proof -
  have set: "keeps (\<lambda>t. prefix T (tg_events t)) (set_promise p obj)" "keeps (\<lambda>t. prefix T (tg_events t)) (set_is_ready v)" for p obj v
    unfolding set_promise_def set_is_ready_def by (auto intro!: inv_intros keeps_modify)
  have handler: "keeps (\<lambda>t. prefix T (tg_events t)) (run_handler h obj)" for h obj
    unfolding run_handler_def check_authentication_error_def
    by (auto intro!: inv_intros q_intros keeps_try set split: handler.splits td_object.splits exn.splits)
  have update: "keeps (\<lambda>t. prefix T (tg_events t)) (process_update obj)" for obj
    unfolding process_update_def on_authorization_state_update_def
    by (auto intro!: inv_intros q_intros keeps_modify set prefix_emplace split: td_object.splits authorization_state.splits)
  show ?thesis
    unfolding process_response_def
    by (auto intro!: inv_intros keeps_modify handler update split: prod.splits option.splits)
qed

lemma keeps_prefix_td_get [q_intros]: "keeps (\<lambda>t. prefix T (tg_events t)) (td_get env f)"
  unfolding td_get_def by (auto intro!: inv_intros q_intros)

lemma keeps_prefix_tg_loop [q_intros]: "keeps (\<lambda>t. prefix T (tg_events t)) (tg_loop rs)"
  by (induction rs) (auto intro!: inv_intros q_intros)

section \<open>Handlers\<close>

definition queued :: "internal_event option list \<Rightarrow> td_object option list \<Rightarrow> sip_event option list \<Rightarrow> world \<Rightarrow> bool" where
  "queued I T S w \<longleftrightarrow> prefix I (w_internal w) \<and> prefix T (tg_events (w_tg w)) \<and> prefix S (sip_events (w_sip w))"

lemma keeps_snd: "keeps P m \<Longrightarrow> P w \<Longrightarrow> P (snd (m w))"
  by (simp add: keeps_def)

interpretation queues: world_property env "queued I T S" for env I T S
  by unfold_locales (auto simp: queued_def prefix_emplace pj_eq intro: q_intros [THEN keeps_snd])

abbreviation gw_adds :: "internal_event option list \<Rightarrow> td_object option list \<Rightarrow> sip_event option list \<Rightarrow> 'a gwp \<Rightarrow> bool" where
  "gw_adds I T S m \<equiv> keeps (\<lambda>g. queued I T S (gw_world g)) m"

lemma gw_adds_tg: "keeps (\<lambda>t. prefix T (tg_events t)) n \<Longrightarrow> gw_adds I T S (gw_tg n)"
  by (auto simp: keeps_def gw_tg_def liftM_def queued_def split: prod.split)

section \<open>Rounds\<close>

text \<open>A round that also returns the events it took.\<close>

type_synonym taken = "internal_event option \<times> td_object option \<times> sip_event option"

definition opt_run :: "('a \<Rightarrow> unit gwp) \<Rightarrow> 'a option \<Rightarrow> unit gwp" where
  "opt_run f e = (case e of Some x \<Rightarrow> f x | None \<Rightarrow> returnM ())"

definition handled_round :: "env \<Rightarrow> taken gwp" where
  "handled_round env =
     bindM pop_internal (\<lambda>i. thenM (opt_run (process_internal env) i)
     (bindM pop_tg (\<lambda>t. thenM (opt_run (process_tg env) t)
     (bindM pop_sip (\<lambda>s. thenM (opt_run (process_sip_event env) s) (returnM (i, t, s)))))))"

fun handled_rounds :: "env \<Rightarrow> unit gwp list \<Rightarrow> taken list gwp" where
  "handled_rounds env [] = returnM []"
| "handled_rounds env (a # as) =
     thenM a (bindM (handled_round env) (\<lambda>e. bindM (handled_rounds env as) (\<lambda>es. returnM (e # es))))"

lemma tick_handled: "tick env = thenM (handled_round env) (returnM ())"
proof -
  have "thenM m (returnM ()) = m" for m :: "unit gwp"
    by (rule ext) (auto simp: thenM_def bindM_def returnM_def split: prod.splits sum.splits)
  then show ?thesis
    by (simp add: tick_def handled_round_def opt_run_def thenM_def bindM_assoc)
qed

lemma gw_loop_handled: "gw_loop env as = thenM (handled_rounds env as) (returnM ())"
  by (induction as) (simp_all add: thenM_def bindM_assoc tick_handled)

lemma opt_run_adds: "(\<And>x. gw_adds I T S (f x)) \<Longrightarrow> gw_adds I T S (opt_run f e)"
  by (auto simp: opt_run_def intro: keeps_return split: option.split)

lemma prefix_pop:
  assumes "prefix xs ys" and "queue_pop ys = (v, zs)"
  shows "prefix (tl xs) zs" and "xs \<noteq> [] \<Longrightarrow> v = hd xs"
  using assms by (cases xs; cases ys; simp add: queue_pop_def)+


lemma handled_round_takes:
  assumes "queued I T S (gw_world g)" and "handled_round env g = (Inr e, g')"
  shows "queued (tl I) (tl T) (tl S) (gw_world g') \<and> (I \<noteq> [] \<longrightarrow> fst e = hd I)
    \<and> (T \<noteq> [] \<longrightarrow> fst (snd e) = hd T) \<and> (S \<noteq> [] \<longrightarrow> snd (snd e) = hd S)"
proof -
  obtain i g1 g2 t g3 g4 s g5 where run: "pop_internal g = (Inr i, g1)" "opt_run (process_internal env) i g1 = (Inr (), g2)"
      "pop_tg g2 = (Inr t, g3)" "opt_run (process_tg env) t g3 = (Inr (), g4)"
      "pop_sip g4 = (Inr s, g5)" "opt_run (process_sip_event env) s g5 = (Inr (), g')" "e = (i, t, s)"
    using assms(2) by (auto simp: handled_round_def thenM_def bindM_Inr_iff returnM_def)
  have q1: "queued (tl I) T S (gw_world g1)" "I \<noteq> [] \<longrightarrow> i = hd I"
    using run(1) assms(1) prefix_pop [of I "w_internal (gw_world g)"]
    by (auto simp: pop_internal_def prog_simps queued_def split: prod.splits)
  then have "queued (tl I) T S (gw_world g2)"
    using keepsD [OF opt_run_adds [OF queues.gw_handlers(1)] _ run(2)] by blast
  then have q3: "queued (tl I) (tl T) S (gw_world g3)" "T \<noteq> [] \<longrightarrow> t = hd T"
    using run(3) prefix_pop [of T "tg_events (w_tg (gw_world g2))"]
    by (auto simp: pop_tg_def prog_simps queued_def split: prod.splits)
  then have "queued (tl I) (tl T) S (gw_world g4)"
    using keepsD [OF opt_run_adds [OF queues.gw_handlers(2)] _ run(4)] by blast
  then have q5: "queued (tl I) (tl T) (tl S) (gw_world g5)" "S \<noteq> [] \<longrightarrow> s = hd S"
    using run(5) prefix_pop [of S "sip_events (w_sip (gw_world g4))"]
    by (auto simp: pop_sip_def prog_simps queued_def split: prod.splits)
  then have "queued (tl I) (tl T) (tl S) (gw_world g')"
    using keepsD [OF opt_run_adds [OF queues.gw_handlers(3)] _ run(6)] by blast
  then show ?thesis using q1(2) q3(2) q5(2) run(7) by simp
qed

definition only_adds :: "unit gwp \<Rightarrow> bool" where
  "only_adds a \<longleftrightarrow> (\<forall>I T S. gw_adds I T S a)"

lemma handled_rounds_take:
  assumes "queued I T S (gw_world g)" and "handled_rounds env as g = (Inr es, g')" and "list_all only_adds as"
  shows "length es = length as
    \<and> (\<forall>k < length as. (k < length I \<longrightarrow> fst (es ! k) = I ! k) \<and> (k < length T \<longrightarrow> fst (snd (es ! k)) = T ! k)
        \<and> (k < length S \<longrightarrow> snd (snd (es ! k)) = S ! k))"
  using assms
proof (induction as arbitrary: g es I T S)
  case Nil
  then show ?case by (simp add: returnM_def)
next
  case (Cons a as)
  obtain g1 e g2 es' where run: "a g = (Inr (), g1)" "handled_round env g1 = (Inr e, g2)"
      "handled_rounds env as g2 = (Inr es', g')" "es = e # es'"
    using Cons.prems(2) by (auto simp: thenM_def bindM_Inr_iff returnM_def)
  have "gw_adds I T S a" using Cons.prems(3) by (simp add: only_adds_def)
  then have "queued I T S (gw_world g1)" using keepsD [of "\<lambda>g. queued I T S (gw_world g)" a, OF _ Cons.prems(1) run(1)] by blast
  note one = handled_round_takes [OF this run(2)]
  then have ih: "length es' = length as" "\<And>k. k < length as \<Longrightarrow> (k < length (tl I) \<longrightarrow> fst (es' ! k) = tl I ! k)
      \<and> (k < length (tl T) \<longrightarrow> fst (snd (es' ! k)) = tl T ! k) \<and> (k < length (tl S) \<longrightarrow> snd (snd (es' ! k)) = tl S ! k)"
    using Cons.IH [OF _ run(3)] Cons.prems(3) by auto
  have "(k < length I \<longrightarrow> fst (es ! k) = I ! k) \<and> (k < length T \<longrightarrow> fst (snd (es ! k)) = T ! k)
      \<and> (k < length S \<longrightarrow> snd (snd (es ! k)) = S ! k)" if "k < length (a # as)" for k
  proof (cases k)
    case 0
    then show ?thesis using one run(4) by (auto simp: hd_conv_nth)
  next
    case (Suc j)
    then show ?thesis using ih(2) [of j] that run(4) by (auto simp: nth_tl)
  qed
  then show ?case using ih(1) run(4) by simp
qed

text \<open>What the other threads do between the rounds only adds to the queues.\<close>

lemma queued_emplace:
  "queued I T S w \<Longrightarrow> queued I T S (w\<lparr>w_internal := emplace v (w_internal w)\<rparr>)"
  by (simp add: queued_def prefix_emplace)

lemma gw_adds_sip: "keeps (\<lambda>s. prefix S (sip_events s)) m \<Longrightarrow> gw_adds I T S (gw_sip m)"
  by (auto simp: keeps_def gw_sip_def liftM_def queued_def split: prod.split)

lemma keeps_prefix_callbacks:
  "keeps (\<lambda>s. prefix S (sip_events s)) (onIncomingCall env i)" "keeps (\<lambda>s. prefix S (sip_events s)) (onCallState env n i)"
  "keeps (\<lambda>s. prefix S (sip_events s)) (onCallMediaState env n i)"
proof -
  have emit: "keeps (\<lambda>s. prefix S (sip_events s)) (sip_emit e)" for e
    unfolding sip_emit_def by (auto intro!: keeps_modify prefix_emplace)
  have info: "keeps (\<lambda>s. prefix S (sip_events s)) (getInfo env i)" for i
    by (simp add: keeps_def getInfo_eq split: option.split)
  have new: "keeps (\<lambda>s. prefix S (sip_events s)) new_call"
    by (auto simp: new_call_def intro!: inv_intros keeps_modify)
  show "keeps (\<lambda>s. prefix S (sip_events s)) (onIncomingCall env i)"
    unfolding onIncomingCall_def Let_def by (auto intro!: inv_intros keeps_modify emit info new simp: store_call_def)
  show "keeps (\<lambda>s. prefix S (sip_events s)) (onCallState env n i)" "keeps (\<lambda>s. prefix S (sip_events s)) (onCallMediaState env n i)"
    unfolding onCallState_def onCallMediaState_def by (auto intro!: inv_intros emit info)
qed

lemma callbacks_only_add:
  "only_adds (returnM ())" "only_adds (gw_tg (process_response r))" "only_adds (signaling_callback uid data)"
  "only_adds (gw_rt m)" "only_adds (gw_sip (onIncomingCall env i))" "only_adds (gw_sip (onCallState env n i))"
  "only_adds (gw_sip (onCallMediaState env n i))"
proof -
  show "only_adds (returnM ())" by (simp add: only_adds_def keeps_return)
  show "only_adds (gw_tg (process_response r))" "only_adds (gw_rt m)"
    unfolding only_adds_def by (auto intro!: gw_adds_tg q_intros queues.gw_basic)
  show "only_adds (gw_sip (onIncomingCall env i))" "only_adds (gw_sip (onCallState env n i))"
      "only_adds (gw_sip (onCallMediaState env n i))"
    unfolding only_adds_def by (auto intro!: gw_adds_sip keeps_prefix_callbacks)
  show "only_adds (signaling_callback uid data)"
    unfolding only_adds_def signaling_callback_def
    by (auto intro!: inv_intros queues.gw_basic keeps_modify queued_emplace split: option.splits prod.splits)
qed

text \<open>
  C19. No event is lost or starved. If the loop runs its rounds without ending the process, then in
  round \<open>k\<close> (counting from 0) it takes and handles the event that was at position \<open>k\<close> of each of the
  three queues at the start, whatever handlers and other threads queue meanwhile: a queued event is
  handled after at most as many rounds as its position, once, and in order.
\<close>

theorem every_event_handled:
  assumes "gw_loop env as g = (Inr (), g')" and "list_all only_adds as"
  shows "\<exists>es. handled_rounds env as g = (Inr es, g') \<and> length es = length as
    \<and> (\<forall>k < length as.
         (k < length (w_internal (gw_world g)) \<longrightarrow> fst (es ! k) = w_internal (gw_world g) ! k)
       \<and> (k < length (tg_events (w_tg (gw_world g))) \<longrightarrow> fst (snd (es ! k)) = tg_events (w_tg (gw_world g)) ! k)
       \<and> (k < length (sip_events (w_sip (gw_world g))) \<longrightarrow> snd (snd (es ! k)) = sip_events (w_sip (gw_world g)) ! k))"
proof -
  obtain es where "handled_rounds env as g = (Inr es, g')"
    using assms(1) by (auto simp: gw_loop_handled thenM_def bindM_Inr_iff returnM_def)
  moreover have "queued (w_internal (gw_world g)) (tg_events (w_tg (gw_world g))) (sip_events (w_sip (gw_world g))) (gw_world g)"
    by (simp add: queued_def)
  ultimately show ?thesis using handled_rounds_take assms(2) by blast
qed

definition two_queued :: gateway where
  "two_queued = demo0\<lparr>gw_world := (gw_world demo0)\<lparr>w_sip := (new_sip_client demo_settings)
     \<lparr>sip_events := [Some (CallStateUpdate 3 PJSIP_INV_STATE_EARLY), Some (IncomingCall 0 ''+1'')]\<rparr>\<rparr>\<rparr>"

theorem every_event_handled_witness:
  "\<exists>es. fst (handled_rounds demo_env [returnM (), gw_sip (onIncomingCall quiet_pj 5)] two_queued) = Inr es
     \<and> snd (snd (es ! 0)) = Some (CallStateUpdate 3 PJSIP_INV_STATE_EARLY) \<and> snd (snd (es ! 1)) = Some (IncomingCall 0 ''+1'')"
proof -
  let ?as = "[returnM (), gw_sip (onIncomingCall quiet_pj 5)] :: unit gwp list"
  have "fst (gw_loop demo_env ?as two_queued) = Inr ()" by code_simp
  then obtain g' where run: "gw_loop demo_env ?as two_queued = (Inr (), g')" by (metis prod.collapse)
  have q: "sip_events (w_sip (gw_world two_queued)) = [Some (CallStateUpdate 3 PJSIP_INV_STATE_EARLY), Some (IncomingCall 0 ''+1'')]"
    by (simp add: two_queued_def)
  have "list_all only_adds ?as" by (simp add: callbacks_only_add)
  note every_event_handled [OF run this, unfolded q]
  then obtain es where "handled_rounds demo_env ?as two_queued = (Inr es, g')"
      "\<forall>k < 2. k < 2 \<longrightarrow> snd (snd (es ! k)) = [Some (CallStateUpdate 3 PJSIP_INV_STATE_EARLY), Some (IncomingCall 0 ''+1'')] ! k"
    by auto
  then show ?thesis by (intro exI [of _ es]) (auto simp: numeral_2_eq_2)
qed

end
