(* ===== verification/Gateway_Lifecycle.thy ===== *)
theory Gateway_Lifecycle
  imports Gateway_Demo "HOL-Library.Sublist"
begin

text \<open>
  The life of a call as an automaton with nine phases, and the proof that the gateway's nested
  transition tables implement it: what matters of an event is its kind, and the sequence of kinds
  alone decides the phase.
\<close>

section \<open>Abstract specification\<close>

datatype kind =
    tg_new | tg_ready | tg_end | tg_other
  | sip_new | sip_early | sip_end | sip_other
  | media_up | media_down | failure | message

datatype phase =
    Idle
  | Tg_waits_media | Tg_accepting | Tg_talks
  | Sip_rings | Sip_dialing | Sip_answered | Sip_talks
  | Ended

text \<open>A call in progress ends with the first end on either side and the first failure.\<close>

definition ending_kind :: "kind \<Rightarrow> bool" where
  "ending_kind k \<longleftrightarrow> k = tg_end \<or> k = sip_end \<or> k = failure"

fun advance :: "phase \<Rightarrow> kind \<Rightarrow> phase" where
  "advance Tg_waits_media media_up = Tg_accepting"
| "advance Tg_accepting tg_ready = Tg_talks"
| "advance Sip_rings sip_early = Sip_dialing"
| "advance Sip_dialing tg_ready = Sip_answered"
| "advance Sip_answered media_up = Sip_talks"
| "advance p _ = p"

definition next_phase :: "phase \<Rightarrow> kind \<Rightarrow> phase" where
  "next_phase p k = (case p of
     Idle \<Rightarrow>
       if k = tg_new then Tg_waits_media else if k = sip_new then Sip_rings
       else if k = failure \<or> k = message then Idle else Ended
   | Ended \<Rightarrow> Ended
   | _ \<Rightarrow> if ending_kind k then Ended else advance p k)"

definition lifecycle :: "phase \<Rightarrow> kind list \<Rightarrow> phase" where
  "lifecycle p ks = foldl next_phase p ks"

text \<open>The kinds that a phase needs before it, in this order.\<close>

fun milestones :: "phase \<Rightarrow> kind list" where
  "milestones Tg_waits_media = [tg_new]"
| "milestones Tg_accepting = [tg_new, media_up]"
| "milestones Tg_talks = [tg_new, media_up, tg_ready]"
| "milestones Sip_rings = [sip_new]"
| "milestones Sip_dialing = [sip_new, sip_early]"
| "milestones Sip_answered = [sip_new, sip_early, tg_ready]"
| "milestones Sip_talks = [sip_new, sip_early, tg_ready, media_up]"
| "milestones _ = []"

lemma milestones_step:
  "milestones (next_phase p k) = milestones p \<or> milestones (next_phase p k) = milestones p @ [k] \<or> next_phase p k = Ended"
  by (cases p; cases k) (simp_all add: next_phase_def ending_kind_def)

lemma lifecycle_milestones:
  "lifecycle Idle ks = p \<Longrightarrow> p \<noteq> Ended \<Longrightarrow> subseq (milestones p) ks"
proof (induction ks arbitrary: p rule: rev_induct)
  case Nil
  then show ?case by (simp add: lifecycle_def)
next
  case (snoc k ks)
  let ?q = "lifecycle Idle ks"
  have p: "p = next_phase ?q k" using snoc.prems(1) by (simp add: lifecycle_def)
  then have "?q \<noteq> Ended" using snoc.prems(2) by (auto simp: next_phase_def)
  then have q: "subseq (milestones ?q) ks" using snoc.IH by simp
  moreover have "milestones p = milestones ?q \<or> milestones p = milestones ?q @ [k]"
    using milestones_step [of ?q k] snoc.prems(2) p by simp
  moreover have "subseq (milestones ?q @ [k]) (ks @ [k])" using q by (simp add: list_emb_append_mono)
  ultimately show ?case by (auto intro: subseq_rev_drop_many)
qed

text \<open>Phases are ordered by how far the call has come; it never goes back.\<close>

fun rank :: "phase \<Rightarrow> nat" where
  "rank Idle = 0"
| "rank Tg_waits_media = 1" | "rank Tg_accepting = 2" | "rank Tg_talks = 3"
| "rank Sip_rings = 1" | "rank Sip_dialing = 2" | "rank Sip_answered = 3" | "rank Sip_talks = 4"
| "rank Ended = 5"

instantiation phase :: order
begin

definition less_eq_phase :: "phase \<Rightarrow> phase \<Rightarrow> bool" where
  "less_eq_phase p q \<longleftrightarrow> p = q \<or> rank p < rank q"

definition less_phase :: "phase \<Rightarrow> phase \<Rightarrow> bool" where
  "less_phase p q \<longleftrightarrow> rank p < rank q"

instance
  by standard (auto simp: less_eq_phase_def less_phase_def)

end

lemma next_phase_mono: "p \<le> next_phase p k"
  by (cases p; cases k) (simp_all add: next_phase_def ending_kind_def less_eq_phase_def)

lemma lifecycle_append: "lifecycle p (ks @ ls) = lifecycle (lifecycle p ks) ls"
  by (simp add: lifecycle_def)

lemma lifecycle_mono: "p \<le> lifecycle p ks"
proof (induction ks rule: rev_induct)
  case (snoc k ks)
  then show ?case using next_phase_mono [of "lifecycle p ks" k] by (auto simp: lifecycle_def)
qed (simp add: lifecycle_def)

lemma lifecycle_Ended: "lifecycle Ended ks = Ended"
  by (induction ks) (simp_all add: lifecycle_def next_phase_def)

section \<open>Kinds of the gateway's events\<close>

definition kind_of :: "env \<Rightarrow> gw_event \<Rightarrow> kind" where
  "kind_of env e = (case e of
     EvUpdateCall call \<Rightarrow>
       (case tc_state call of
          callStatePending \<Rightarrow> if \<not> tc_is_outgoing call \<and> callback_uri (e_settings env) \<noteq> [] then tg_new else tg_other
        | callStateReady _ _ \<Rightarrow> tg_ready
        | callStateDiscarded _ \<Rightarrow> tg_end
        | callStateError _ _ \<Rightarrow> tg_end
        | _ \<Rightarrow> tg_other)
   | EvNewMessage _ \<Rightarrow> message
   | EvIncomingCall _ _ \<Rightarrow> sip_new
   | EvCallState _ st \<Rightarrow>
       if st = PJSIP_INV_STATE_EARLY then sip_early else if st = PJSIP_INV_STATE_DISCONNECTED then sip_end else sip_other
   | EvMediaState _ b \<Rightarrow> if b then media_up else media_down
   | EvInternalError _ _ \<Rightarrow> failure)"

fun phase_of_tg :: "sub_state \<Rightarrow> phase option" where
  "phase_of_tg sip_wait_media = Some Tg_waits_media"
| "phase_of_tg wait_tg = Some Tg_accepting"
| "phase_of_tg wait_dtmf = Some Tg_talks"
| "phase_of_tg sip_wait_confirm = None"

fun phase_of_sip :: "sub_state \<Rightarrow> phase" where
  "phase_of_sip sip_wait_confirm = Sip_rings"
| "phase_of_sip wait_tg = Sip_dialing"
| "phase_of_sip sip_wait_media = Sip_answered"
| "phase_of_sip wait_dtmf = Sip_talks"

text \<open>\<open>None\<close> for the one combination of states that the tables never reach.\<close>

definition phase_of :: "(main_state, sub_state) sm \<Rightarrow> phase option" where
  "phase_of s = (case sm_state s of
     S_init \<Rightarrow> Some Idle
   | S_from_tg \<Rightarrow> phase_of_tg (sm_subs s S_from_tg)
   | S_from_sip \<Rightarrow> Some (phase_of_sip (sm_subs s S_from_sip))
   | S_X \<Rightarrow> Some Ended)"

section \<open>Simulation\<close>

lemmas guard_defs = IsIncoming_def IsInState_def IsSipInState_def CallbackUriIsSet_def IsMediaReady_def
  sml_and_def sml_or_def sml_not_def sml_always_def enabled_def row_def

lemma machine_sub: "mc_sub (machine env) = sub_tables env"
  by (simp add: machine_def)

lemma main_process_state:
  assumes "main_process (machine env) s e cw = (Inr s', cw')"
  shows "s' = (case select (StateMachine env) (sm_state s) e of None \<Rightarrow> s | Some t \<Rightarrow> enter (machine env) (t_dst t) s)"
  using assms by (auto simp: main_process_def machine_def returnM_def thenM_def bindM_Inr_iff split: option.splits)

lemma sub_process_state:
  assumes "sub_process table a e cw = (Inr h, cw')"
  shows "h = map_option t_dst (select table a e)"
  using assms by (auto simp: sub_process_def returnM_def thenM_def bindM_Inr_iff split: option.splits)

text \<open>The state after an event, as the tables alone determine it.\<close>

definition table_step :: "env \<Rightarrow> (main_state, sub_state) sm \<Rightarrow> gw_event \<Rightarrow> (main_state, sub_state) sm" where
  "table_step env s e =
     (case (case sub_tables env (sm_state s) of None \<Rightarrow> None
            | Some (table, _) \<Rightarrow> select table (sm_subs s (sm_state s)) e) of
        Some t \<Rightarrow> s\<lparr>sm_subs := (sm_subs s)(sm_state s := t_dst t)\<rparr>
      | None \<Rightarrow> (case select (StateMachine env) (sm_state s) e of None \<Rightarrow> s | Some t \<Rightarrow> enter (machine env) (t_dst t) s))"

lemma sm_process_event_state:
  assumes "sm_process_event (machine env) s e cw = (Inr s', cw')"
  shows "s' = table_step env s e"
proof (cases "sub_tables env (sm_state s)")
  case None
  then show ?thesis
    using assms main_process_state [of env s e cw s' cw'] by (simp add: sm_process_event_def table_step_def machine_sub)
next
  case (Some ti)
  obtain table i where ti: "ti = (table, i)" by (cases ti)
  obtain h cw1 where h: "sub_process table (sm_subs s (sm_state s)) e cw = (Inr h, cw1)"
      "(case h of Some a \<Rightarrow> returnM (s\<lparr>sm_subs := (sm_subs s)(sm_state s := a)\<rparr>)
        | None \<Rightarrow> main_process (machine env) s e) cw1 = (Inr s', cw')"
    using assms Some ti by (auto simp: sm_process_event_def machine_sub bindM_Inr_iff)
  then show ?thesis
    using sub_process_state [OF h(1)] main_process_state [of env s e cw1 s' cw'] Some ti
    by (cases "select table (sm_subs s (sm_state s)) e") (auto simp: table_step_def returnM_def)
qed


lemma table_step_init:
  "sm_state s = S_init \<Longrightarrow> phase_of (table_step env s e) = Some (next_phase Idle (kind_of env e))"
  by (cases e) (simp_all add: table_step_def sub_tables_def StateMachine_def guard_defs kind_of_def phase_of_def
      enter_def machine_sub next_phase_def split: call_state.split)

lemma table_step_tg:
  assumes "sm_state s = S_from_tg" and "phase_of_tg (sm_subs s S_from_tg) = Some p"
  shows "phase_of (table_step env s e) = Some (next_phase p (kind_of env e))"
  using assms
  by (cases "sm_subs s S_from_tg"; cases e)
    (auto simp: table_step_def sub_tables_def StateMachine_def from_tg_def guard_defs kind_of_def phase_of_def
      enter_def machine_sub next_phase_def ending_kind_def split: call_state.split)

lemma table_step_sip:
  assumes "sm_state s = S_from_sip"
  shows "phase_of (table_step env s e) = Some (next_phase (phase_of_sip (sm_subs s S_from_sip)) (kind_of env e))"
  using assms
  by (cases "sm_subs s S_from_sip"; cases e)
    (auto simp: table_step_def sub_tables_def StateMachine_def from_sip_def guard_defs kind_of_def phase_of_def
      enter_def machine_sub next_phase_def ending_kind_def split: call_state.split)

lemma table_step_ended: "sm_state s = S_X \<Longrightarrow> table_step env s e = s"
  by (simp add: table_step_def sub_tables_def StateMachine_def guard_defs)

lemma table_step_phase:
  assumes "phase_of s = Some p"
  shows "phase_of (table_step env s e) = Some (next_phase p (kind_of env e))"
proof (cases "sm_state s")
  case S_X
  then show ?thesis using assms by (simp add: table_step_ended) (auto simp: phase_of_def next_phase_def)
qed (use assms table_step_init table_step_tg table_step_sip in \<open>auto simp: phase_of_def\<close>)

interpretation tables: stepwise_simulation "table_step env" next_phase "kind_of env" "\<lambda>s p. phase_of s = Some p" for env
  by unfold_locales (rule table_step_phase)

text \<open>Several events, one after the other.\<close>

fun run_events :: "env \<Rightarrow> gw_event list \<Rightarrow> (main_state, sub_state) sm \<Rightarrow> (ctx \<times> world, (main_state, sub_state) sm) prog" where
  "run_events env [] s = returnM s"
| "run_events env (e # es) s = bindM (sm_process_event (machine env) s e) (run_events env es)"

lemma run_events_state: "run_events env es s cw = (Inr s', cw') \<Longrightarrow> s' = foldl (table_step env) s es"
  by (induction es arbitrary: s cw) (auto simp: returnM_def bindM_Inr_iff dest: sm_process_event_state)

section \<open>Property\<close>

text \<open>
  C5. The life of a call. Whatever sequence of events a bridge receives, the nested transition
  tables lead to the phase that the nine-phase automaton reaches on the kinds of these events,
  independently of what the actions do as long as they return. So a call from Telegram carries
  audio only after a new call, SIP media and a ready call were reported in this order, one from SIP only after the new call,
  its early state, a ready call and SIP media; further events never take a call back to an earlier
  phase, and one that has ended stays ended.
\<close>

theorem call_lifecycle:
  assumes "run_events env es (new_sm (machine env)) cw = (Inr s, cw')"
  shows "phase_of s = Some (lifecycle Idle (map (kind_of env) es))
    \<and> (\<forall>p. phase_of s = Some p \<and> p \<noteq> Ended \<longrightarrow> subseq (milestones p) (map (kind_of env) es))
    \<and> (\<forall>p ds. phase_of s = Some p \<longrightarrow> p \<le> lifecycle Idle (map (kind_of env) (es @ ds)))
    \<and> (\<forall>ds. phase_of s = Some Ended \<longrightarrow> lifecycle Idle (map (kind_of env) (es @ ds)) = Ended)"
proof -
  have "phase_of (new_sm (machine env)) = Some Idle"
    by (simp add: phase_of_def new_sm_def machine_def)
  from tables.run [OF this]
  have "phase_of s = Some (lifecycle Idle (map (kind_of env) es))"
    unfolding run_events_state [OF assms] lifecycle_def .
  then show ?thesis
    using lifecycle_milestones lifecycle_mono by (auto simp: lifecycle_append lifecycle_Ended)
qed

definition sip_call_events :: "gw_event list" where
  "sip_call_events = [EvIncomingCall 0 ''+1'', EvCallState 0 PJSIP_INV_STATE_EARLY, EvCallState 0 PJSIP_INV_STATE_DISCONNECTED]"

theorem call_lifecycle_witness:
  "\<exists>s. fst (run_events demo_env sip_call_events (new_sm (machine demo_env)) (new_Context ''7-1'', gw_world demo0)) = Inr s
     \<and> phase_of s = Some Ended"
proof -
  have "(case fst (run_events demo_env sip_call_events (new_sm (machine demo_env)) (new_Context ''7-1'', gw_world demo0))
      of Inr _ \<Rightarrow> True | Inl _ \<Rightarrow> False)" by code_simp
  then obtain s cw where run: "run_events demo_env sip_call_events (new_sm (machine demo_env)) (new_Context ''7-1'', gw_world demo0) = (Inr s, cw)"
    by (auto split: sum.splits elim: prod.exhaust) (metis prod.collapse)
  moreover have "lifecycle Idle (map (kind_of demo_env) sip_call_events) = Ended" by code_simp
  ultimately show ?thesis using call_lifecycle [OF run] by simp
qed

end
