(* ===== verification/Tg_Sane.thy ===== *)
theory Tg_Sane
  imports Tg_Client
begin

text \<open>
  The Telegram client over its whole life, counted by the queries it has sent: the identifiers do
  not repeat before \<open>2 ^ 64\<close> queries, and as long as fewer were sent the invariant of the client
  holds, whatever was sent and whatever responses came. Then the types of TDLib's answers, as its
  interface documents them.
\<close>

section \<open>Counting queries\<close>

definition sent_bound :: nat where "sent_bound = 18446744073709551616"

definition tg_sane :: "tg_client \<Rightarrow> bool" where
  "tg_sane c \<longleftrightarrow>
     (length (tg_sent c) < sent_bound \<longrightarrow> tg_inv c \<and> unat (tg_current_query_id c) = length (tg_sent c))"

named_theorems sent_intros \<open>programs that only add to the queries sent\<close>

abbreviation only_sends :: "nat \<Rightarrow> (tg_client, 'a) prog \<Rightarrow> bool" where
  "only_sends n m \<equiv> keeps (\<lambda>c. n \<le> length (tg_sent c)) m"

lemma only_sends_basic [sent_intros]:
  "only_sends n (tg_say msg)" "only_sends n (send_query f h)" "only_sends n (set_promise p obj)" "only_sends n (set_is_ready v)"
  "only_sends n (future_get p)"
  unfolding tg_say_def send_query_def next_query_id_def set_promise_def set_is_ready_def future_get_def
  by (auto intro!: inv_intros keeps_modify split: option.splits)

lemma only_sends_response [sent_intros]: "only_sends n (process_response r)"
proof -
  have handler: "only_sends n (run_handler h obj)" for h obj
    unfolding run_handler_def check_authentication_error_def
    by (auto intro!: inv_intros sent_intros keeps_try split: handler.splits td_object.splits exn.splits)
  have "only_sends n (process_update obj)" for obj
    unfolding process_update_def on_authorization_state_update_def
    by (auto intro!: inv_intros sent_intros keeps_modify split: td_object.splits authorization_state.splits)
  then show ?thesis
    unfolding process_response_def
    by (auto intro!: inv_intros keeps_modify handler split: prod.splits option.splits)
qed

lemma sent_send_async: "length (tg_sent (snd (send_query_async False f c))) = Suc (length (tg_sent c))"
  by (simp add: send_query_async_def send_query_def next_query_id_def prog_simps)

lemma sent_td_get: "Suc (length (tg_sent c)) \<le> length (tg_sent (snd (td_get env f c)))"
proof -
  let ?d = "snd (send_query_async False f c)"
  have rest: "only_sends n (thenM (process_response r) (future_get p))" for n r p
    by (auto intro!: inv_intros sent_intros)
  obtain p d where p: "send_query_async False f c = (Inr p, d)"
    by (simp add: send_query_async_def send_query_def next_query_id_def prog_simps)
  then have eq: "td_get env f c = thenM (process_response (tg_current_query_id ?d, Some (td_answer env (tg_sent c) f))) (future_get p) ?d"
    unfolding td_get_def by (simp add: bindM_def getM_def)
  have "Suc (length (tg_sent c)) \<le> length (tg_sent ?d)"
    by (simp add: sent_send_async)
  then show ?thesis
    unfolding eq by (rule rest [unfolded keeps_def, rule_format])
qed

lemma tg_sane_new: "tg_sane (new_tg_client s)"
  using tg_inv_new [of s] by (simp add: tg_sane_def new_tg_client_def)

lemma tg_saneD:
  assumes "tg_sane c" and "Suc (length (tg_sent c)) < sent_bound"
  shows "tg_inv c" and "ids_left c"
  using assms by (auto simp: tg_sane_def ids_left_def sent_bound_def)

lemma tg_sane_send: "tg_sane c \<Longrightarrow> tg_sane (snd (send_query_async False f c))"
proof -
  assume c: "tg_sane c"
  have "tg_inv (snd (send_query_async False f c))
      \<and> unat (tg_current_query_id (snd (send_query_async False f c))) = length (tg_sent (snd (send_query_async False f c)))"
    if "length (tg_sent (snd (send_query_async False f c))) < sent_bound"
  proof -
    have ok: "tg_inv c" "ids_left c" using tg_saneD [OF c] that by (simp_all add: sent_send_async)
    moreover have "unat (tg_current_query_id c) = length (tg_sent c)"
      using c that by (simp add: tg_sane_def sent_send_async)
    ultimately show ?thesis
      using tg_inv_send_async [OF ok, of f] unat_next_id [OF ok(2)] by (simp add: send_query_async_eq [OF ok])
  qed
  then show ?thesis by (simp add: tg_sane_def)
qed

lemma tg_sane_td_get: "tg_sane c \<Longrightarrow> tg_sane (snd (td_get env f c))"
proof -
  assume c: "tg_sane c"
  have "tg_inv (snd (td_get env f c)) \<and> unat (tg_current_query_id (snd (td_get env f c))) = length (tg_sent (snd (td_get env f c)))"
    if "length (tg_sent (snd (td_get env f c))) < sent_bound"
  proof -
    have "Suc (length (tg_sent c)) < sent_bound" using sent_td_get [of c env f] that by simp
    then have ok: "tg_inv c" "ids_left c" and n: "unat (tg_current_query_id c) = length (tg_sent c)"
      using tg_saneD [OF c] c by (auto simp: tg_sane_def)
    have le: "unat q \<le> Suc (unat (tg_current_query_id c))" if "tg_handlers c q = Some h" for q h
      using ok(1) that by (fastforce simp: tg_inv_def)
    show ?thesis
      using ok n unat_next_id [OF ok(2)] le
      by (auto simp: td_get_eq [OF ok] tg_inv_def nth_append less_SucI)
  qed
  then show ?thesis by (simp add: tg_sane_def)
qed

text \<open>Only the request for parameters makes the client send queries of its own.\<close>

abbreviation handshake :: "64 word \<times> td_object option" where
  "handshake \<equiv> (0, Some (updateAuthorizationState authorizationStateWaitTdlibParameters))"

lemma sent_handshake:
  "length (tg_sent (snd (process_response handshake c))) = length (tg_sent c) + 2"
  by (simp add: process_response_def process_update_def on_authorization_state_update_def send_query_def next_query_id_def prog_simps)

lemma silent_response:
  assumes "r \<noteq> handshake"
  shows "keeps (\<lambda>c. tg_sent c = l \<and> tg_current_query_id c = q) (process_response r)"
proof -
  let ?keeps = "keeps (\<lambda>c. tg_sent c = l \<and> tg_current_query_id c = q)"
  have basic: "?keeps (tg_say m)" "?keeps (set_promise p obj)" "?keeps (set_is_ready v)" for m p obj v
    unfolding tg_say_def set_promise_def set_is_ready_def by (auto intro!: inv_intros keeps_modify)
  have handler: "?keeps (run_handler h obj)" for h obj
    unfolding run_handler_def check_authentication_error_def
    by (auto intro!: inv_intros basic keeps_try split: handler.splits td_object.splits exn.splits)
  have update: "?keeps (process_update obj)" if "obj \<noteq> updateAuthorizationState authorizationStateWaitTdlibParameters" for obj
    using that unfolding process_update_def on_authorization_state_update_def
    by (auto intro!: inv_intros basic keeps_modify split: td_object.splits authorization_state.splits)
  show ?thesis
    using assms unfolding process_response_def
    by (auto intro!: inv_intros keeps_modify handler update split: prod.splits option.splits)
qed

lemma tg_sane_process_response:
  assumes "tg_sane c"
  shows "tg_sane (snd (process_response r c))"
proof (cases "r = handshake")
  case True
  show ?thesis
  proof (cases "length (tg_sent c) + 2 < sent_bound")
    case False
    then show ?thesis using True sent_handshake [of c] by (simp add: tg_sane_def)
  next
    case room: True
    then have n: "tg_inv c" "unat (tg_current_query_id c) = length (tg_sent c)" using assms by (auto simp: tg_sane_def)
    then have b: "Suc (unat (tg_current_query_id c)) < 18446744073709551615" using room by (simp add: sent_bound_def)
    have "unat (tg_current_query_id c + 1) = Suc (unat (tg_current_query_id c))"
      by (rule unat_next_id) (use b in \<open>simp add: ids_left_def\<close>)
    moreover have "unat (tg_current_query_id c + 1 + 1) = Suc (unat (tg_current_query_id c + 1))"
      using unat_next_id [of "c\<lparr>tg_current_query_id := tg_current_query_id c + 1\<rparr>"] b calculation by (simp add: ids_left_def)
    ultimately have "unat (tg_current_query_id c + 1 + 1) = length (tg_sent c) + 2" using n(2) by simp
    then show ?thesis
      using tg_handshake_eq [OF n(1) b] True by (auto simp: process_response_def process_update_def tg_sane_def)
  qed
next
  case False
  have "tg_sent (snd (process_response r c)) = tg_sent c"
    "tg_current_query_id (snd (process_response r c)) = tg_current_query_id c"
    using silent_response [OF False, of "tg_sent c" "tg_current_query_id c"] by (simp_all add: keeps_def)
  then show ?thesis
    using assms tg_inv_process_response [of c r] False by (auto simp: tg_sane_def)
qed

lemma tg_sane_events [simp]: "tg_sane (c\<lparr>tg_events := e\<rparr>) = tg_sane c"
  by (simp add: tg_sane_def)

lemma keeps_sane_response: "keeps tg_sane (process_response r)"
  by (rule keepsI) (rule tg_sane_process_response)

lemma keeps_sane_loop: "keeps tg_sane (tg_loop rs)"
  by (induction rs) (auto intro!: inv_intros keeps_sane_response)

section \<open>Types of answers\<close>

text \<open>
  What TDLib documents as the result of each function that the gateway calls: an error, or an object
  of the function's result type; an import of contacts answers with one identifier per contact.
\<close>

definition answer_ok :: "td_function \<Rightarrow> td_object \<Rightarrow> bool" where
  "answer_ok f obj = (case obj of
     td_error _ _ \<Rightarrow> True
   | _ \<Rightarrow> (case f of
       getUser _ \<Rightarrow> (case obj of td_user_object _ \<Rightarrow> True | _ \<Rightarrow> False)
     | createCall _ _ _ \<Rightarrow> (case obj of td_callId _ \<Rightarrow> True | _ \<Rightarrow> False)
     | importContacts cs \<Rightarrow> (case obj of td_importedContacts ids \<Rightarrow> length ids = length cs | _ \<Rightarrow> False)
     | searchPublicChat _ \<Rightarrow> (case obj of td_chat _ _ \<Rightarrow> True | _ \<Rightarrow> False)
     | searchContacts _ _ \<Rightarrow> (case obj of td_users _ \<Rightarrow> True | _ \<Rightarrow> False)
     | _ \<Rightarrow> True))"

definition well_typed :: "td_env \<Rightarrow> bool" where
  "well_typed env \<longleftrightarrow> (\<forall>h f. answer_ok f (td_answer env h f))"

end
