(* ===== verification/Gateway_Safety.thy ===== *)
theory Gateway_Safety
  imports Gateway_Inv Gateway_Frame Gateway_Demo Tg_Sane
begin

text \<open>
  The rounds of the gateway stay defined: as long as TDLib answers with the types it documents, the
  keys of ready calls are complete and the query identifiers have not been used up, no handler
  reads a freed or missing controller, casts an answer to a wrong type, reads past the end of a
  list or waits for an answer that cannot come, and only three kinds of exception can leave a
  handler. The steps of the other threads are atomic here, so that races on the data that the
  threads share without a lock are outside these results.
\<close>

section \<open>Programs that stay defined\<close>

text \<open>
  The exceptions that may leave a handler: of the errors of the SIP library only the refusal of an
  audio port.
\<close>

definition tame :: "pj_env \<Rightarrow> exn \<Rightarrow> bool" where
  "tame N e = (case e of
     RuntimeError _ \<Rightarrow> True
   | OutOfRange \<Rightarrow> True
   | PjError reason \<Rightarrow> \<exists>h name. pj_error N h (pj_registerMediaPort name) = Some reason
   | _ \<Rightarrow> False)"

definition safe :: "pj_env \<Rightarrow> ('w \<Rightarrow> bool) \<Rightarrow> ('w, 'a) prog \<Rightarrow> ('a \<Rightarrow> 'w \<Rightarrow> bool) \<Rightarrow> bool" where
  "safe N P m Q \<longleftrightarrow> (\<forall>w. P w \<longrightarrow> (case m w of (Inr x, w') \<Rightarrow> Q x w' | (Inl e, w') \<Rightarrow> tame N e))"

named_theorems safe_intros \<open>programs that stay defined\<close>

lemma safeI: "(\<And>w. P w \<Longrightarrow> case m w of (Inr x, w') \<Rightarrow> Q x w' | (Inl e, w') \<Rightarrow> tame N e) \<Longrightarrow> safe N P m Q"
  by (simp add: safe_def)

lemma safeD: "safe N P m Q \<Longrightarrow> P w \<Longrightarrow> case m w of (Inr x, w') \<Rightarrow> Q x w' | (Inl e, w') \<Rightarrow> tame N e"
  by (simp add: safe_def)

lemma safe_cons: "safe N P m Q \<Longrightarrow> (\<And>w. P' w \<Longrightarrow> P w) \<Longrightarrow> (\<And>x w. Q x w \<Longrightarrow> Q' x w) \<Longrightarrow> safe N P' m Q'"
  by (fastforce simp: safe_def split: prod.splits sum.splits)

lemma safe_post: "safe N P m Q \<Longrightarrow> (\<And>x w. Q x w \<Longrightarrow> Q' x w) \<Longrightarrow> safe N P m Q'"
  by (rule safe_cons)

lemma safe_bind: "safe N P m Q \<Longrightarrow> (\<And>x. safe N (Q x) (f x) R) \<Longrightarrow> safe N P (bindM m f) R"
  by (fastforce simp: safe_def bindM_def split: prod.splits sum.splits)

lemma safe_then: "safe N P m (\<lambda>_. Q) \<Longrightarrow> safe N Q n R \<Longrightarrow> safe N P (thenM m n) R"
  unfolding thenM_def by (rule safe_bind)

lemma safe_return [safe_intros]: "safe N P (returnM x) (\<lambda>y w. y = x \<and> P w)"
  by (simp add: safe_def returnM_def)

lemma safe_skip: "(\<And>w. P w \<Longrightarrow> Q w) \<Longrightarrow> safe N P (returnM x) (\<lambda>_. Q)"
  by (simp add: safe_def returnM_def)

lemma safe_get [safe_intros]: "safe N P (getM f) (\<lambda>x w. x = f w \<and> P w)"
  by (simp add: safe_def getM_def)

lemma safe_when: "safe N P m (\<lambda>_. P) \<Longrightarrow> safe N P (whenM b m) (\<lambda>_. P)"
  by (simp add: whenM_def safe_def returnM_def)

lemma safe_pure: "(b \<Longrightarrow> safe N P m Q) \<Longrightarrow> safe N (\<lambda>w. b \<and> P w) m Q"
  by (auto simp: safe_def)

text \<open>Programs that throw at most what the SIP client throws.\<close>

definition sip_exn :: "exn \<Rightarrow> bool" where
  "sip_exn e = (case e of PjError _ \<Rightarrow> True | RuntimeError _ \<Rightarrow> True | _ \<Rightarrow> False)"

definition throws_sip :: "('w, 'a) prog \<Rightarrow> bool" where
  "throws_sip m \<longleftrightarrow> (\<forall>w e w'. m w = (Inl e, w') \<longrightarrow> sip_exn e)"

lemma sip_exn_iff: "sip_exn e \<longleftrightarrow> (\<exists>r. e = PjError r) \<or> (\<exists>r. e = RuntimeError r)"
  by (cases e) (simp_all add: sip_exn_def)

lemma throws_sipD: "throws_sip m \<Longrightarrow> m w = (Inl e, w') \<Longrightarrow> (\<exists>r. e = PjError r) \<or> (\<exists>r. e = RuntimeError r)"
  unfolding throws_sip_def sip_exn_iff by blast

lemma throws_sip_bind: "throws_sip m \<Longrightarrow> (\<And>x. throws_sip (f x)) \<Longrightarrow> throws_sip (bindM m f)"
  unfolding throws_sip_def bindM_Inl_iff by blast

lemma throws_sip_basic:
  "throws_sip (returnM x)" "throws_sip (getM f)" "throws_sip (modifyM g)" "throws_sip (pj env op)"
  "throws_sip (throwM (RuntimeError s))" "throws_sip (getInfo env i)" "throws_sip new_call"
  by (auto simp: throws_sip_def returnM_def getM_def modifyM_def throwM_def sip_exn_def pj_eq getInfo_eq new_call_def prog_simps
      split: option.splits)

lemma throws_sip_client:
  "throws_sip (Dial env uri prm)" "throws_sip (Hangup env i prm)" "throws_sip (Answer env i prm)"
  "throws_sip (SipDialDtmf env i t)" "throws_sip (SipBridgeAudio env i x y)"
  unfolding Dial_def Hangup_def Answer_def SipDialDtmf_def SipBridgeAudio_def call_audio_media_def thenM_def Let_def
  by (auto intro!: throws_sip_bind throws_sip_basic split: option.splits)

lemma throws_sip_lift: "throws_sip m \<Longrightarrow> throws_sip (sipM m)"
  by (auto simp: throws_sip_def sipM_def liftM_def split: prod.splits)

lemma throws_sip_put_ctx: "throws_sip (put_ctx f)"
  by (simp add: put_ctx_def throws_sip_basic)

section \<open>Actions\<close>

text \<open>
  The key of a ready call has the 256 bytes that the gateway copies. The client is sane, can still
  send \<open>k\<close> queries, and every update it holds for the gateway is complete.
\<close>

definition full_key :: "td_call \<Rightarrow> bool" where
  "full_key call = (case tc_state call of callStateReady _ key \<Rightarrow> 256 \<le> length key | _ \<Rightarrow> True)"

definition complete_update :: "td_object option \<Rightarrow> bool" where
  "complete_update x = (case x of Some (updateCall call) \<Rightarrow> full_key call | _ \<Rightarrow> True)"

definition roomy :: "nat \<Rightarrow> world \<Rightarrow> bool" where
  "roomy k w \<longleftrightarrow> tg_sane (w_tg w) \<and> length (tg_sent (w_tg w)) + k < sent_bound
     \<and> list_all complete_update (tg_events (w_tg w))"

definition ok :: "nat \<Rightarrow> string \<Rightarrow> nat option \<Rightarrow> nat set \<Rightarrow> ctx \<times> world \<Rightarrow> bool" where
  "ok k i ctl D cw \<longleftrightarrow> frame i ctl D cw \<and> roomy k (snd cw)"

lemma roomy_mono: "roomy k w \<Longrightarrow> j \<le> k \<Longrightarrow> roomy j w"
  by (simp add: roomy_def)

lemma ok_mono: "ok k i ctl D cw \<Longrightarrow> j \<le> k \<Longrightarrow> ok j i ctl D cw"
  by (auto simp: ok_def intro: roomy_mono)

lemma roomy_fields [simp]:
  "roomy k (w\<lparr>w_sip := s\<rparr>) = roomy k w" "roomy k (w\<lparr>w_rt := r\<rparr>) = roomy k w"
  "roomy k (w\<lparr>w_internal := q\<rparr>) = roomy k w" "roomy k (w\<lparr>w_cache := c\<rparr>) = roomy k w"
  "roomy k (w\<lparr>w_block_until := b\<rparr>) = roomy k w" "roomy k (w\<lparr>w_readings := n\<rparr>) = roomy k w"
  by (simp_all add: roomy_def)

lemma ok_fields [simp]:
  "ok k i ctl D (c, w\<lparr>w_sip := s\<rparr>) = ok k i ctl D (c, w)" "ok k i ctl D (c, w\<lparr>w_internal := q\<rparr>) = ok k i ctl D (c, w)"
  "ok k i ctl D (c, w\<lparr>w_cache := ca\<rparr>) = ok k i ctl D (c, w)" "ok k i ctl D (c, w\<lparr>w_block_until := b\<rparr>) = ok k i ctl D (c, w)"
  "ok k i ctl D (c, w\<lparr>w_readings := n\<rparr>) = ok k i ctl D (c, w)"
  by (simp_all add: ok_def frame_def)

lemma ok_ctx: "ctx_id c' = ctx_id c \<Longrightarrow> ctx_controller c' = ctx_controller c \<Longrightarrow> ok k i ctl D (c', w) = ok k i ctl D (c, w)"
  by (simp add: ok_def frame_def)

lemma safe_basic [safe_intros]:
  "safe N (ok k i ctl D) (get_ctx f) (\<lambda>x. ok k i ctl D)"
  "safe N (ok k i ctl D) (get_world h) (\<lambda>x. ok k i ctl D)"
  "safe N (ok k i ctl D) (now env) (\<lambda>x. ok k i ctl D)"
  "safe N (ok k i ctl D) (internal_error prm) (\<lambda>x. ok k i ctl D)"
  by (auto simp: safe_def act_simps now_eq internal_error_eq)

lemma safe_controller: "safe N (ok k i ctl D) (get_ctx ctx_controller) (\<lambda>x cw. x = ctl \<and> ok k i ctl D cw)"
  by (auto simp: safe_def act_simps ok_def frame_def)

lemma safe_put_ctx:
  "(\<And>c. ctx_id (f c) = ctx_id c \<and> ctx_controller (f c) = ctx_controller c) \<Longrightarrow> safe N (ok k i ctl D) (put_ctx f) (\<lambda>_. ok k i ctl D)"
  by (auto simp: safe_def act_simps ok_def frame_def)

lemma safe_put_world:
  "(\<And>c w. ok k i ctl D (c, w) \<Longrightarrow> ok k i ctl D (c, f w)) \<Longrightarrow> safe N (ok k i ctl D) (put_world f) (\<lambda>_. ok k i ctl D)"
  by (auto simp: safe_def act_simps)

lemma keeps_ok_put_ctx:
  "(\<And>c. ctx_id (f c) = ctx_id c \<and> ctx_controller (f c) = ctx_controller c) \<Longrightarrow> keeps (ok k i ctl D) (put_ctx f)"
  by (rule keepsI) (auto simp: act_simps ok_def frame_def)

lemma keeps_ok_sip: "keeps (ok k i ctl D) (sipM m)"
  by (rule keepsI) (auto simp: act_simps split: prod.splits)

text \<open>A query in time is answered, with an answer of the right type.\<close>

lemma safe_td_get:
  assumes "well_typed env"
  shows "safe N (ok (Suc k) i ctl D) (tgM (td_get env f)) (\<lambda>x cw. answer_ok f x \<and> ok k i ctl D cw)"
proof (rule safeI)
  fix cw assume P: "ok (Suc k) i ctl D cw"
  obtain c w where cw: "cw = (c, w)" by (cases cw)
  have r: "tg_sane (w_tg w)" "length (tg_sent (w_tg w)) + Suc k < sent_bound"
    using P by (auto simp: cw ok_def roomy_def)
  then have inv: "tg_inv (w_tg w)" "ids_left (w_tg w)" using tg_saneD [OF r(1)] by simp_all
  have "tg_sane (snd (td_get env f (w_tg w)))" using r(1) by (rule tg_sane_td_get)
  then show "case tgM (td_get env f) cw of (Inr x, w') \<Rightarrow> answer_ok f x \<and> ok k i ctl D w' | (Inl e, w') \<Rightarrow> tame N e"
    using P r(2) assms
    by (simp add: cw act_simps td_get_eq [OF inv] ok_def frame_def roomy_def well_typed_def)
qed

text \<open>A block that may throw what the SIP client throws, with any of the three ways to catch it.\<close>

lemma safe_try [safe_intros]:
  assumes "keeps (ok k i ctl D) m" and "throws_sip m"
  shows "safe N (ok k i ctl D) (tryM m catch_pj) (\<lambda>_. ok k i ctl D)"
    and "safe N (ok k i ctl D) (tryM m catch_pj_runtime) (\<lambda>_. ok k i ctl D)"
    and "safe N (ok k i ctl D) (tryM m (\<lambda>e. case e of PjError reason \<Rightarrow> Some (returnM ()) | _ \<Rightarrow> None)) (\<lambda>_. ok k i ctl D)"
proof -
  have cases: "\<exists>x. m cw = (Inr x, cw') \<and> ok k i ctl D cw' \<or> (\<exists>r. m cw = (Inl (PjError r), cw') \<and> ok k i ctl D cw')
      \<or> (\<exists>r. m cw = (Inl (RuntimeError r), cw') \<and> ok k i ctl D cw')"
    if "ok k i ctl D cw" "m cw = (out, cw')" for cw cw' out
    using keepsD [OF assms(1) that] throws_sipD [OF assms(2)] that(2) by (cases out) auto
  show "safe N (ok k i ctl D) (tryM m catch_pj) (\<lambda>_. ok k i ctl D)"
    "safe N (ok k i ctl D) (tryM m catch_pj_runtime) (\<lambda>_. ok k i ctl D)"
    "safe N (ok k i ctl D) (tryM m (\<lambda>e. case e of PjError reason \<Rightarrow> Some (returnM ()) | _ \<Rightarrow> None)) (\<lambda>_. ok k i ctl D)"
    unfolding safe_def
    by (intro allI impI; case_tac "m w"; drule (1) cases;
        auto simp: tryM_def catch_pj_def catch_pj_runtime_def tame_def returnM_def internal_error_eq split: prod.splits)+
qed

lemma safe_stores [safe_intros]:
  "safe N (ok k i ctl D) (StoreSipId e) (\<lambda>_. ok k i ctl D)" "safe N (ok k i ctl D) (StoreTgId e) (\<lambda>_. ok k i ctl D)"
  "safe N (ok k i ctl D) (StoreTgUserId e) (\<lambda>_. ok k i ctl D)" "safe N (ok k i ctl D) (CleanTgId e) (\<lambda>_. ok k i ctl D)"
  "safe N (ok k i ctl D) (CleanSipId e) (\<lambda>_. ok k i ctl D)" "safe N (ok k i ctl D) (SetHangupPrm e) (\<lambda>_. ok k i ctl D)"
  "safe N (ok k i ctl D) (sml_none e) (\<lambda>_. ok k i ctl D)"
  unfolding StoreSipId_def StoreTgId_def StoreTgUserId_def CleanTgId_def CleanSipId_def SetHangupPrm_def sml_none_def
  by (auto intro!: safe_put_ctx safe_return [THEN safe_post] split: gw_event.splits)

lemma safe_AnswerSip [safe_intros]: "safe N (ok k i ctl D) (AnswerSip env e) (\<lambda>_. ok k i ctl D)"
  unfolding AnswerSip_def
  by (rule safe_bind [OF safe_basic(1)])
    (auto intro!: safe_try(2) keeps_ok_sip throws_sip_lift throws_sip_client)

lemma safe_AcceptIncomingSip [safe_intros]: "safe N (ok k i ctl D) (AcceptIncomingSip env e) (\<lambda>_. ok k i ctl D)"
proof -
  have answer: "safe N (ok k i ctl D) (bindM (get_ctx sip_call_id) (\<lambda>i. tryM (sipM (Answer (e_pj env) i prm)) catch_pj_runtime)) (\<lambda>_. ok k i ctl D)" for prm
    by (rule safe_bind [OF safe_basic(1)])
      (auto intro!: safe_try(2) keeps_ok_sip throws_sip_lift throws_sip_client)
  show ?thesis
    unfolding AcceptIncomingSip_def
    by (auto intro!: safe_then [OF safe_put_ctx answer] safe_basic safe_return [THEN safe_post]
        dest: ext_target_keeps split: gw_event.splits option.splits)
qed

lemma safe_BridgeAudio:
  assumes "ctl \<noteq> None"
  shows "safe N (ok k i ctl D) (BridgeAudio env e) (\<lambda>_. ok k i ctl D)"
proof -
  have bridge: "safe N (ok k i ctl D) (bindM (get_ctx sip_call_id) (\<lambda>i. tryM (sipM (SipBridgeAudio (e_pj env) i x y)) catch_pj_runtime)) (\<lambda>_. ok k i ctl D)" for x y
    by (rule safe_bind [OF safe_basic(1)])
      (auto intro!: safe_try(2) keeps_ok_sip throws_sip_lift throws_sip_client)
  show ?thesis
    unfolding BridgeAudio_def
    by (rule safe_bind [OF safe_controller], rule safe_pure) (use assms bridge in \<open>auto split: option.split\<close>)
qed

lemma safe_DialDtmf:
  assumes "message_text e \<noteq> None"
  shows "safe N (ok k i ctl D) (DialDtmf env e) (\<lambda>_. ok k i ctl D)"
proof -
  have "safe N (ok k i ctl D) (bindM (get_ctx sip_call_id) (\<lambda>i. tryM (sipM (SipDialDtmf (e_pj env) i t))
      (\<lambda>e. case e of PjError reason \<Rightarrow> Some (returnM ()) | _ \<Rightarrow> None))) (\<lambda>_. ok k i ctl D)" for t
    by (rule safe_bind [OF safe_basic(1)])
      (auto intro!: safe_try(3) keeps_ok_sip throws_sip_lift throws_sip_client)
  then show ?thesis unfolding DialDtmf_def using assms by (auto split: option.split)
qed

text \<open>The actions that ask Telegram.\<close>

lemma safe_AnswerTg:
  assumes "well_typed (e_td env)"
  shows "safe N (ok (Suc k) i ctl D) (AnswerTg env e) (\<lambda>_. ok k i ctl D)"
  unfolding AnswerTg_def
  by (rule safe_bind [OF safe_basic(1)], rule safe_bind [OF safe_td_get [OF assms]], rule safe_pure)
    (auto intro!: safe_basic safe_return [THEN safe_post] split: td_object.split)

lemma safe_DialSip:
  assumes "well_typed (e_td env)"
  shows "safe N (ok (Suc k) i ctl D) (DialSip env e) (\<lambda>_. ok k i ctl D)"
proof -
  have dial: "safe N (ok k i ctl D) (bindM (get_ctx ctx_id) (\<lambda>cid. tryM (bindM (sipM (Dial (e_pj env) uri (prm cid)))
      (\<lambda>i. put_ctx (\<lambda>c. c\<lparr>sip_call_id := i\<rparr>))) catch_pj)) (\<lambda>_. ok k i ctl D)" for uri prm
  proof (rule safe_bind [OF safe_basic(1)])
    show "safe N (ok k i ctl D) (tryM (bindM (sipM (Dial (e_pj env) uri (prm cid))) (\<lambda>i. put_ctx (\<lambda>c. c\<lparr>sip_call_id := i\<rparr>))) catch_pj)
        (\<lambda>_. ok k i ctl D)" for cid
      by (rule safe_try(1))
        (auto intro!: inv_intros keeps_ok_sip keeps_ok_put_ctx throws_sip_bind throws_sip_lift throws_sip_client
          throws_sip_put_ctx)
  qed
  show ?thesis
  proof (cases e)
    case (EvUpdateCall call)
    show ?thesis
      unfolding DialSip_def EvUpdateCall gw_event.case
      by (rule safe_bind [OF safe_td_get [OF assms]], rule safe_pure)
        (auto simp: answer_ok_def throwM_def safe_def [of _ _ "throwM e" for e] tame_def intro!: dial split: td_object.splits)
  qed (auto simp: DialSip_def intro!: safe_skip elim: ok_mono)
qed


text \<open>The number that a refusal names consists of digits, so it can only be too large.\<close>

lemma retry_after_Some: "retry_after m = Some ds \<Longrightarrow> is_digits ds \<and> ds \<noteq> []"
  by (induction m rule: retry_after.induct)
    (auto simp: Let_def is_digits_def list_all_iff dest: set_takeWhileD split: if_splits)

lemma stoi_digits: "is_digits ds \<Longrightarrow> ds \<noteq> [] \<Longrightarrow> stoi ds = Inl e \<Longrightarrow> e = OutOfRange"
  by (auto simp: stoi_def stol_digits split: if_splits)

lemma safe_parse_error [safe_intros]: "safe N (ok k i ctl D) (parse_error env m) (\<lambda>_. ok k i ctl D)"
proof -
  have block: "safe N (ok k i ctl D) (bindM (now env) (\<lambda>t. put_world (\<lambda>w. w\<lparr>w_block_until := t + s\<rparr>))) (\<lambda>_. ok k i ctl D)" for s
    by (rule safe_bind [OF safe_basic(3)]) (auto intro: safe_put_world)
  have "safe N (ok k i ctl D) (throwM e) (\<lambda>_. ok k i ctl D)" if "retry_after m = Some ds" "stoi ds = Inl e" for ds e
    using stoi_digits [OF _ _ that(2)] retry_after_Some [OF that(1)] by (auto simp: safe_def throwM_def tame_def)
  then show ?thesis
    unfolding parse_error_def by (auto intro!: block safe_when split: option.split sum.split)
qed

lemma safe_dial_failed [safe_intros]: "safe N (ok k i ctl D) (dial_failed env n m) (\<lambda>_. ok k i ctl D)"
  unfolding dial_failed_def by (rule safe_then [OF safe_basic(4) safe_parse_error])

lemma safe_dial_by_id:
  assumes "well_typed (e_td env)"
  shows "safe N (ok (Suc k) i ctl D) (dial_by_id env u) (\<lambda>_. ok k i ctl D)"
  unfolding dial_by_id_def
  by (rule safe_then [OF safe_put_ctx], simp, rule safe_bind [OF safe_td_get [OF assms]], rule safe_pure)
    (auto simp: answer_ok_def intro!: safe_intros safe_put_ctx split: td_object.splits)

lemma safe_less: "safe N (ok k i ctl D) m Q \<Longrightarrow> j \<ge> k \<Longrightarrow> safe N (ok j i ctl D) m Q"
  by (erule safe_cons) (auto intro: ok_mono)

lemma safe_more: "safe N P m (\<lambda>_. ok j i ctl D) \<Longrightarrow> j \<ge> k \<Longrightarrow> safe N P m (\<lambda>_. ok k i ctl D)"
  by (erule safe_post) (rule ok_mono)

lemma safe_dial_by_phone:
  assumes "well_typed (e_td env)"
  shows "safe N (ok (Suc (Suc k)) i ctl D) (dial_by_phone env) (\<lambda>_. ok k i ctl D)"
proof -
  have cache: "safe N (ok (Suc k) i ctl D) (thenM (put_world (\<lambda>w. w\<lparr>w_cache := f w\<rparr>)) (dial_by_id env u)) (\<lambda>_. ok k i ctl D)" for f u
    by (rule safe_then [OF safe_put_world safe_dial_by_id [OF assms]]) simp
  show ?thesis
    unfolding dial_by_phone_def
    by (rule safe_bind [OF safe_basic(1)], rule safe_bind [OF safe_basic(2)], split option.split, intro conjI allI impI,
        rule safe_bind [OF safe_td_get [OF assms]], rule safe_pure)
      (auto simp: answer_ok_def intro!: cache safe_more [OF safe_dial_failed] safe_more [OF safe_basic(4)]
        safe_less [OF safe_dial_by_id [OF assms]] split: td_object.splits list.splits)
qed

lemma safe_dial_by_username:
  assumes "well_typed (e_td env)"
  shows "safe N (ok (Suc (Suc k)) i ctl D) (dial_by_username env) (\<lambda>_. ok k i ctl D)"
proof -
  have cache: "safe N (ok (Suc k) i ctl D) (thenM (put_world (\<lambda>w. w\<lparr>w_cache := f w\<rparr>)) (dial_by_id env u)) (\<lambda>_. ok k i ctl D)" for f u
    by (rule safe_then [OF safe_put_world safe_dial_by_id [OF assms]]) simp
  show ?thesis
    unfolding dial_by_username_def
    by (rule safe_bind [OF safe_basic(1)], rule safe_bind [OF safe_basic(2)], split option.split, intro conjI allI impI,
        rule safe_bind [OF safe_td_get [OF assms]], rule safe_pure)
      (auto simp: answer_ok_def intro!: cache safe_more [OF safe_dial_failed] safe_more [OF safe_basic(4)]
        safe_less [OF safe_dial_by_id [OF assms]] split: td_object.splits chat_type.splits)
qed

lemma safe_DialTg:
  assumes "well_typed (e_td env)"
  shows "safe N (ok (Suc (Suc k)) i ctl D) (DialTg env e) (\<lambda>_. ok k i ctl D)"
proof -
  have wait: "safe N (ok (Suc (Suc k)) i ctl D) (bindM (now env) (\<lambda>t. internal_error (prm t))) (\<lambda>_. ok k i ctl D)" for prm
    by (rule safe_bind [OF safe_basic(3)], rule safe_more [OF safe_basic(4)]) simp
  show ?thesis
    unfolding DialTg_def
    by (rule safe_bind [OF safe_basic(3)], rule safe_bind [OF safe_basic(2)])
      (auto intro!: wait safe_bind [OF safe_basic(1)] safe_dial_by_username safe_dial_by_phone
        safe_less [OF safe_dial_by_id] assms)
qed

section \<open>Controllers\<close>

lemma safe_keeps: "keeps P m \<Longrightarrow> (\<And>w e w'. P w \<Longrightarrow> m w = (Inl e, w') \<Longrightarrow> tame N e) \<Longrightarrow> safe N P m (\<lambda>_. P)"
  by (auto simp: safe_def dest: keepsD split: prod.split sum.split)

lemma safe_rtM:
  "safe N (rt_frame D) m (\<lambda>_. rt_frame D') \<Longrightarrow> safe N (ok k i ctl D) (rtM m) (\<lambda>_. ok k i ctl D')"
  by (fastforce simp: safe_def act_simps ok_def frame_def split: prod.splits sum.splits)

lemma tame_ntg: "ntg_outcome env h op = Some e \<Longrightarrow> tame N e"
  by (auto simp: ntg_outcome_def tame_def split: if_splits)

lemma tame_run_ops: "run_ops env ops h = (Some e, h') \<Longrightarrow> tame N e"
  by (induction ops arbitrary: h) (auto dest: tame_ntg split: option.splits)

lemma rt_frame_heap: "rt_frame D r \<Longrightarrow> a \<in> D \<Longrightarrow> \<exists>c. nw_heap r a = Some c"
  by (auto simp: rt_frame_def)

lemma safe_Stop: "a \<in> D \<Longrightarrow> safe N (rt_frame D) (Stop env a) (\<lambda>_. rt_frame D)"
  by (rule safe_keeps [OF keeps_rt_frame_Stop])
    (auto dest!: rt_frame_heap dest: tame_ntg simp: Stop_eq Let_def split: if_splits option.splits)

lemma safe_destroy: "a \<in> D \<Longrightarrow> safe N (rt_frame D) (destroy_controller env a) (\<lambda>_. rt_frame (D - {a}))"
proof (rule safeI)
  fix r
  assume r: "rt_frame D r" and a: "a \<in> D"
  obtain c where c: "nw_heap r a = Some c" using rt_frame_heap [OF r a] by blast
  have "tame N e" if "destroy_controller env a r = (Inl e, r')" for e r'
    using that safe_Stop [OF a, of N env] r unfolding destroy_eq [OF c]
    by (auto simp: safe_def split: prod.splits sum.splits if_splits)
  then show "case destroy_controller env a r of (Inr x, w') \<Rightarrow> rt_frame (D - {a}) w' | (Inl e, w') \<Rightarrow> tame N e"
    using destroy_frame [OF r a, of env] by (auto split: prod.split sum.split)
qed


lemma safe_CleanUp:
  assumes "well_typed (e_td env)" and "\<And>a. ctl = Some a \<Longrightarrow> a \<in> D"
  shows "safe N (ok (Suc k) i ctl D) (CleanUp env) (\<lambda>_. ok k i ctl D)"
proof -
  have stop: "safe N (ok (Suc k) i ctl D) (case ctl of Some a \<Rightarrow> rtM (Stop (e_ntg env) a) | None \<Rightarrow> returnM ()) (\<lambda>_. ok (Suc k) i ctl D)"
    using assms(2) by (auto intro!: safe_rtM safe_Stop safe_skip split: option.split)
  have discard: "safe N (ok (Suc k) i ctl D)
      (whenM b (thenM (bindM (tgM (td_get (e_td env) f)) (\<lambda>result. returnM ())) (put_ctx (\<lambda>c. c\<lparr>tg_call_id := 0\<rparr>)))) (\<lambda>_. ok k i ctl D)" for b f
  proof (cases b)
    case True
    have "safe N (ok (Suc k) i ctl D) (bindM (tgM (td_get (e_td env) f)) (\<lambda>result. returnM ())) (\<lambda>_. ok k i ctl D)"
      by (rule safe_bind [OF safe_td_get [OF assms(1)]]) (auto intro: safe_skip)
    then show ?thesis using True by (auto simp: whenM_def intro!: safe_then [OF _ safe_put_ctx])
  qed (auto simp: whenM_def intro!: safe_skip elim: ok_mono)
  have hangup: "safe N (ok k i ctl D) (whenM b (thenM (tryM (sipM (Hangup (e_pj env) sip prm))
      (\<lambda>e. case e of PjError reason \<Rightarrow> Some (returnM ()) | _ \<Rightarrow> None)) (put_ctx (\<lambda>c. c\<lparr>sip_call_id := PJSUA_INVALID_ID\<rparr>)))) (\<lambda>_. ok k i ctl D)" for b sip prm
    by (rule safe_when, rule safe_then [OF safe_try(3) safe_put_ctx])
      (auto intro: keeps_ok_sip throws_sip_lift throws_sip_client)
  show ?thesis
    unfolding CleanUp_def
    by (rule safe_bind [OF safe_controller], rule safe_pure, simp only:,
        rule safe_then [OF stop], rule safe_bind [OF safe_basic(1)], rule safe_then [OF discard],
        rule safe_bind [OF safe_basic(1)], rule safe_bind [OF safe_basic(1)], rule hangup)
qed

lemma Start_new_tame:
  assumes "nw_heap w a = Some c" and "rt_inv w" and "\<not> ct_mic_feeder_running c" and "\<not> ct_registered c"
    and "Start env a w = (Inl e, w')"
  shows "tame N e"
proof (cases "ntg_outcome env (nw_ops w) (ntg_create_p2p (ct_user_id c))")
  case None
  obtain f h where ops: "run_ops env (setup_ops c) (nw_ops w @ [ntg_create_p2p (ct_user_id c)]) = (f, h)" by fastforce
  let ?v = "w\<lparr>nw_heap := (nw_heap w)(a \<mapsto> c\<lparr>ct_created := True\<rparr>), nw_ops := h\<rparr>"
  have "rt_inv (w\<lparr>nw_heap := (nw_heap w)(a \<mapsto> c\<lparr>ct_created := True\<rparr>)\<rparr>)"
    using rt_inv_assign [OF assms(2,1), of "\<lambda>c. c\<lparr>ct_created := True\<rparr>"] by (simp add: ctl_inv_def)
  then have "rt_inv ?v" by (simp add: rt_inv_def)
  then have "go_live a ?v = (Inr (), snd (go_live a ?v))"
    using rt_inv_go_live(1) [of ?v a "c\<lparr>ct_created := True\<rparr>"] assms(3) by simp
  then show ?thesis
    using assms(5) None tame_run_ops ops by (cases f) (auto simp: Start_eq [OF assms(1)])
qed (use assms(5) tame_ntg in \<open>auto simp: Start_eq [OF assms(1)]\<close>)

lemma safe_CreateTgVoip:
  assumes "full_key call" and "tc_state call = callStateReady servers key"
  shows "safe (e_pj env) (ok k i None D) (CreateTgVoip env (EvUpdateCall call)) (\<lambda>_ cw. \<exists>a. ok k i (Some a) (insert a D) cw)"
proof (rule safeI)
  fix cw
  assume P: "ok k i None D cw"
  obtain c w where cw: "cw = (c, w)" by (cases cw)
  have fr: "frame i None D (c, w)" and c: "ctx_controller c = None" "rt_frame D (w_rt w)" using P by (simp_all add: cw ok_def frame_def)
  have len: "\<not> length key < 256" using assms by (simp add: full_key_def)
  let ?ctl = "TgCallsController (user_id c) (take 256 key) (tc_is_outgoing call)
      (List.map_filter rtc_server servers) (udp_p2p (e_settings env)) (Some (ctx_id c))"
  obtain a r where mk: "make_controller ?ctl (w_rt w) = (Inr a, r)" by (auto simp: make_controller_def prog_simps)
  have r: "rt_inv r" "nw_heap r a = Some ?ctl"
    using make_controller_frame [OF c(2) ctl_inv_new mk] mk by (auto simp: rt_frame_def make_controller_def prog_simps)
  obtain out r' where start: "Start (e_ntg env) a r = (out, r')" by fastforce
  obtain p h where ports: "register_ports env ?ctl (c, w) = (p, (c, w\<lparr>w_sip := (w_sip w)\<lparr>pj_ops := h\<rparr>\<rparr>))"
    using register_ports_world by blast
  have run: "CreateTgVoip env (EvUpdateCall call) cw = (case p of
      Inl e \<Rightarrow> (Inl e, (c, w\<lparr>w_sip := (w_sip w)\<lparr>pj_ops := h\<rparr>\<rparr>))
    | Inr _ \<Rightarrow> (case out of
        Inl e \<Rightarrow> (Inl e, (c, w\<lparr>w_sip := (w_sip w)\<lparr>pj_ops := h\<rparr>, w_rt := r'\<rparr>))
      | Inr _ \<Rightarrow> (Inr (), (c\<lparr>ctx_controller := Some a\<rparr>, w\<lparr>w_sip := (w_sip w)\<lparr>pj_ops := h\<rparr>, w_rt := r'\<rparr>))))"
    using c(1) len mk start ports
    by (simp add: CreateTgVoip_def new_controller_def assms(2) cw bindM_def thenM_def act_simps returnM_def split: sum.split)
  have refused: "tame (e_pj env) e" if "p = Inl e" for e
    using ports that by (auto simp: register_ports_eq Let_def tame_def split: option.splits; blast)
  have "tame (e_pj env) e" if "out = Inl e" for e
    using Start_new_tame [OF r(2,1)] start that by (simp add: TgCallsController_def)
  moreover have "\<exists>b. ok k i (Some b) (insert b D) (c\<lparr>ctx_controller := Some a\<rparr>, w\<lparr>w_sip := (w_sip w)\<lparr>pj_ops := h\<rparr>, w_rt := r'\<rparr>)"
    if "p = Inr y" "out = Inr x" for x y
    using CreateTgVoip_frame [OF fr, of env "EvUpdateCall call"] run that P by (fastforce simp: cw ok_def frame_def)
  ultimately show "case CreateTgVoip env (EvUpdateCall call) cw of
      (Inr x, w') \<Rightarrow> \<exists>a. ok k i (Some a) (insert a D) w' | (Inl e, w') \<Rightarrow> tame (e_pj env) e"
    using refused by (auto simp: run split: sum.split)
qed


section \<open>Machines\<close>

definition complete_event :: "gw_event \<Rightarrow> bool" where
  "complete_event e = (case e of EvUpdateCall call \<Rightarrow> full_key call | _ \<Rightarrow> True)"

abbreviation room :: "nat \<Rightarrow> 'a \<Rightarrow> ctx \<times> world \<Rightarrow> bool" where
  "room k x cw \<equiv> roomy k (snd cw)"

lemma safe_ex: "(\<And>a. safe N (P a) m Q) \<Longrightarrow> safe N (\<lambda>w. \<exists>a. P a w) m Q"
  by (rule safeI, elim exE) (rule safeD)

lemma ok_room: "ok k i ctl D cw \<Longrightarrow> roomy k (snd cw)"
  by (simp add: ok_def)

lemma room_post: "safe N P m (\<lambda>_. ok k i ctl D) \<Longrightarrow> safe N P m (room k)"
  by (erule safe_post) (rule ok_room)

lemma room_more: "safe N P m (room j) \<Longrightarrow> k \<le> j \<Longrightarrow> safe N P m (room k)"
  by (erule safe_post) (rule roomy_mono)

lemma safe_seq: "safe N P (a e) (\<lambda>_. Q) \<Longrightarrow> safe N Q (b e) R \<Longrightarrow> safe N P (sml_seq a b e) R"
  unfolding sml_seq_def by (rule safe_then)

text \<open>The set-up of a ready call, and what follows it.\<close>

lemma safe_ready:
  assumes "complete_event e" and "IsInState callStateReady_ID e"
    and "\<And>a. safe (e_pj env) (ok k i (Some a) (insert a D)) (b e) (\<lambda>_. ok k i (Some a) (insert a D))"
  shows "safe (e_pj env) (ok k i None D) (sml_seq (CreateTgVoip env) b e) (room k)"
proof -
  obtain call servers key where e: "e = EvUpdateCall call" "tc_state call = callStateReady servers key"
    using assms(2) by (cases e) (auto simp: IsInState_def elim: call_state_get_id.elims)
  have "full_key call" using assms(1) e(1) by (simp add: complete_event_def)
  from safe_CreateTgVoip [OF this e(2)] show ?thesis
    unfolding sml_seq_def e(1) by (rule safe_then, intro safe_ex) (rule room_post, rule assms(3) [unfolded e(1)])
qed

lemma safe_from_tg:
  assumes "well_typed (e_td env)" and "complete_event e" and "ctl \<noteq> None \<longleftrightarrow> s = wait_dtmf"
    and "select (from_tg env) s e = Some t"
  shows "safe (e_pj env) (ok (Suc (Suc k)) i ctl D) (t_action t e) (room k)"
proof -
  consider "t_action t = AnswerTg env"
    | "ctl = None" "t_action t = sml_seq (CreateTgVoip env) (BridgeAudio env)" "IsInState callStateReady_ID e"
    | "t_action t = DialDtmf env" "message_text e \<noteq> None"
    using assms(3,4) by (auto simp: from_tg_def enabled_def row_def sml_and_def IsTextContent_def split: if_splits)
  then show ?thesis
  proof cases
    case 1
    then show ?thesis using room_more [OF room_post [OF safe_AnswerTg [OF assms(1)]]] by simp
  next
    case 2
    then show ?thesis
      using room_more [OF safe_ready [OF assms(2) 2(3), of env "Suc (Suc k)" i D "BridgeAudio env"]] by (simp add: safe_BridgeAudio)
  next
    case 3
    then show ?thesis using room_more [OF room_post [OF safe_DialDtmf [OF 3(2)]]] by simp
  qed
qed

lemma safe_from_sip:
  assumes "well_typed (e_td env)" and "complete_event e" and "ctl \<noteq> None \<longleftrightarrow> s = sip_wait_media \<or> s = wait_dtmf"
    and "select (from_sip env) s e = Some t"
  shows "safe (e_pj env) (ok (Suc (Suc k)) i ctl D) (t_action t e) (room k)"
proof -
  consider "t_action t = DialTg env"
    | "ctl = None" "t_action t = sml_seq StoreTgUserId (sml_seq (CreateTgVoip env) (AnswerSip env))" "IsInState callStateReady_ID e"
    | "ctl \<noteq> None" "t_action t = BridgeAudio env"
    | "t_action t = DialDtmf env" "message_text e \<noteq> None"
    using assms(3,4) by (auto simp: from_sip_def enabled_def row_def sml_and_def IsTextContent_def split: if_splits)
  then show ?thesis
  proof cases
    case 1
    then show ?thesis using room_post [OF safe_DialTg [OF assms(1)]] by simp
  next
    case 2
    have "safe (e_pj env) (ok (Suc (Suc k)) i None D) (sml_seq (CreateTgVoip env) (AnswerSip env) e) (room (Suc (Suc k)))"
      using safe_ready [OF assms(2) 2(3)] by (simp add: safe_AnswerSip)
    then have "safe (e_pj env) (ok (Suc (Suc k)) i None D) (sml_seq StoreTgUserId (sml_seq (CreateTgVoip env) (AnswerSip env)) e) (room (Suc (Suc k)))"
      by (rule safe_seq [OF safe_stores(3)])
    then show ?thesis using room_more [of _ _ _ "Suc (Suc k)" k] 2(1,2) by simp
  next
    case 3
    then show ?thesis using room_more [OF room_post [OF safe_BridgeAudio]] by simp
  next
    case 4
    then show ?thesis using room_more [OF room_post [OF safe_DialDtmf [OF 4(2)]]] by simp
  qed
qed

lemma safe_main:
  assumes "well_typed (e_td env)" and "\<And>a. ctl = Some a \<Longrightarrow> a \<in> D"
  shows "safe (e_pj env) (ok (Suc (Suc k)) i ctl D) (main_process (machine env) s e) (room k)"
proof (cases "select (StateMachine env) (sm_state s) e")
  case None
  then show ?thesis
    by (auto simp: main_process_def machine_def intro!: room_more [OF room_post [OF safe_skip]])
next
  case (Some t)
  have row: "t \<in> set (StateMachine env)" using select_Some [OF Some] by simp
  have act: "safe (e_pj env) (ok (Suc (Suc k)) i ctl D) (t_action t e) (\<lambda>_. ok (Suc k) i ctl D)"
    using row unfolding StateMachine_def row_def
    by (auto intro!: safe_seq [OF safe_stores(2)] safe_seq [OF safe_stores(3)] safe_seq [OF safe_stores(1)] safe_DialSip assms(1)
        safe_more [OF safe_AcceptIncomingSip] safe_stores [THEN safe_more])
  have entry: "safe (e_pj env) (ok (Suc k) i ctl D) (if t_dst t = S_X then CleanUp env else returnM ()) (\<lambda>_. ok k i ctl D)"
    by (auto intro!: safe_CleanUp assms safe_skip elim: ok_mono)
  have "safe (e_pj env) (ok (Suc (Suc k)) i ctl D)
      (thenM (t_action t e) (thenM (if t_dst t = S_X then CleanUp env else returnM ()) (returnM s'))) (\<lambda>_. ok k i ctl D)" for s' :: "(main_state, sub_state) sm"
    by (rule safe_then [OF act safe_then [OF entry safe_skip]])
  then have "safe (e_pj env) (ok (Suc (Suc k)) i ctl D)
      (thenM (t_action t e) (thenM (mc_entry (machine env) (t_dst t)) (returnM (enter (machine env) (t_dst t) s)))) (room k)"
    unfolding machine_def machine.select_convs by (rule room_post)
  moreover have "mc_table (machine env) = StateMachine env" by (simp add: machine_def)
  ultimately show ?thesis
    using Some by (simp add: main_process_def)
qed

lemma safe_machine:
  assumes "well_typed (e_td env)" and "complete_event e" and "sm_ok s ctl" and "\<And>a. ctl = Some a \<Longrightarrow> a \<in> D"
  shows "safe (e_pj env) (ok (Suc (Suc k)) i ctl D) (sm_process_event (machine env) s e) (room k)"
proof (cases "sub_tables env (sm_state s)")
  case None
  then show ?thesis
    using safe_main [OF assms(1,4)] by (simp add: sm_process_event_def machine_def)
next
  case (Some ti)
  obtain table init where ti: "ti = (table, init)" by (cases ti)
  let ?s = "sm_subs s (sm_state s)"
  have act: "safe (e_pj env) (ok (Suc (Suc k)) i ctl D) (t_action t e) (room k)" if "select table ?s e = Some t" for t
    using Some ti that assms(3) safe_from_tg [OF assms(1,2)] safe_from_sip [OF assms(1,2)]
    by (auto simp: sub_tables_def sm_ok_def split: main_state.splits)
  show ?thesis
  proof (cases "select table ?s e")
    case None
    then show ?thesis
      using Some ti safe_main [OF assms(1,4)] by (simp add: sm_process_event_def machine_def sub_process_def)
  next
    case (Some t)
    have "safe (e_pj env) (ok (Suc (Suc k)) i ctl D) (thenM (t_action t e) (returnM (Some (t_dst t)))) (\<lambda>h cw. h = Some (t_dst t) \<and> roomy k (snd cw))"
      by (rule safe_then [OF act [OF Some]]) (rule safe_return)
    then show ?thesis
      using Some ti \<open>sub_tables env (sm_state s) = Some ti\<close>
      by (auto simp: sm_process_event_def machine_def sub_process_def intro!: safe_bind safe_pure safe_skip)
  qed
qed


section \<open>Bridges\<close>

abbreviation gw_room :: "nat \<Rightarrow> gateway \<Rightarrow> bool" where
  "gw_room k g \<equiv> roomy k (gw_world g)"

lemma safe_bridge_event:
  assumes "well_typed (e_td env)" and "complete_event e"
  shows "safe (e_pj env) (\<lambda>g. gw_core env g \<and> i < length (gw_bridges g) \<and> gw_room (Suc (Suc k)) g) (bridge_event env i e)
    (\<lambda>_ g. gw_core env g \<and> i < length (gw_bridges g) \<and> gw_room k g)"
proof (rule safeI)
  fix g
  assume g: "gw_core env g \<and> i < length (gw_bridges g) \<and> gw_room (Suc (Suc k)) g"
  let ?b = "gw_bridges g ! i"
  let ?ctl = "ctx_controller (br_ctx ?b)"
  have mem: "?b \<in> set (gw_bridges g)" using g by simp
  have "?ctl = Some a \<Longrightarrow> a \<in> set (ctls (gw_bridges g))" for a
    using mem by (force simp: ctls_def ctl_list_def)
  moreover have "sm_ok (br_sm ?b) ?ctl" using g mem by (auto simp: gw_core_def)
  ultimately have "safe (e_pj env) (ok (Suc (Suc k)) (ctx_id (br_ctx ?b)) ?ctl (set (ctls (gw_bridges g))))
      (sm_process_event (machine env) (br_sm ?b) e) (room k)"
    by (rule safe_machine [OF assms, rotated])
  moreover have "ok (Suc (Suc k)) (ctx_id (br_ctx ?b)) ?ctl (set (ctls (gw_bridges g))) (br_ctx ?b, gw_world g)"
    using g by (simp add: ok_def frame_def gw_core_def)
  ultimately have "case sm_process_event (machine env) (br_sm ?b) e (br_ctx ?b, gw_world g) of
      (Inr x, cw) \<Rightarrow> roomy k (snd cw) | (Inl x, cw) \<Rightarrow> tame (e_pj env) x"
    by (rule safeD)
  moreover have "gw_core env g' \<and> i < length (gw_bridges g')" if "bridge_event env i e g = (Inr x, g')" for x g'
    using bridge_event_core [of env g i e g'] g that by auto
  ultimately show "case bridge_event env i e g of
      (Inr x, g') \<Rightarrow> gw_core env g' \<and> i < length (gw_bridges g') \<and> gw_room k g' | (Inl x, g') \<Rightarrow> tame (e_pj env) x"
    by (fastforce simp: bridge_event_def Let_def split: prod.splits sum.splits)
qed

lemma safe_delete_bridge:
  "safe (e_pj env) (\<lambda>g. gw_core env g \<and> i < length (gw_bridges g) \<and> gw_room k g) (delete_bridge env i) (\<lambda>_. gw_room k)"
proof (rule safeI)
  fix g
  assume g: "gw_core env g \<and> i < length (gw_bridges g) \<and> gw_room k g"
  let ?ctl = "ctx_controller (br_ctx (gw_bridges g ! i))"
  have mem: "gw_bridges g ! i \<in> set (gw_bridges g)" using g by simp
  show "case delete_bridge env i g of (Inr x, g') \<Rightarrow> gw_room k g' | (Inl e, g') \<Rightarrow> tame (e_pj env) e"
  proof (cases ?ctl)
    case None
    then show ?thesis using g by (simp add: delete_bridge_def prog_simps)
  next
    case (Some a)
    have "a \<in> set (ctls (gw_bridges g))" using mem Some by (force simp: ctls_def ctl_list_def)
    then have "case destroy_controller (e_ntg env) a (w_rt (gw_world g)) of (Inr x, r) \<Rightarrow> True | (Inl e, r) \<Rightarrow> tame (e_pj env) e"
      using safeD [OF safe_destroy, of a "set (ctls (gw_bridges g))" "w_rt (gw_world g)" "e_pj env" "e_ntg env"] g
      by (auto simp: gw_core_def split: prod.splits sum.splits)
    then show ?thesis
      using Some g by (auto simp: delete_bridge_def prog_simps split: prod.splits sum.splits)
  qed
qed

lemma safe_dispatch:
  assumes "well_typed (e_td env)" and "complete_event e"
  shows "safe (e_pj env) (\<lambda>g. gw_core env g \<and> i < length (gw_bridges g) \<and> gw_room (Suc (Suc k)) g) (dispatch env i e) (\<lambda>_. gw_room k)"
  unfolding dispatch_def
  by (rule safe_then [OF safe_bridge_event [OF assms]], rule safe_bind [OF safe_get])
    (auto simp: whenM_def intro!: safe_cons [OF safe_delete_bridge] safe_skip)

section \<open>Handlers\<close>

lemma safe_inv: "safe (e_pj env) P m (\<lambda>_. Q) \<Longrightarrow> okeeps I m \<Longrightarrow> safe (e_pj env) (\<lambda>w. I w \<and> P w) m (\<lambda>_ w. I w \<and> Q w)"
  by (fastforce simp: safe_def okeeps_def split: prod.splits sum.splits)

text \<open>What the handlers are called in, and what they leave: the invariant, and room for further queries.\<close>

abbreviation fit :: "env \<Rightarrow> nat \<Rightarrow> gateway \<Rightarrow> bool" where
  "fit env k g \<equiv> gw_inv env g \<and> gw_room k g"

lemma fit_mono: "fit env j g \<Longrightarrow> k \<le> j \<Longrightarrow> fit env k g"
  by (auto intro: roomy_mono)

lemma safe_fit:
  assumes "safe (e_pj env) (fit env j) m (\<lambda>_. gw_room k)" and "okeeps (gw_inv env) m"
  shows "safe (e_pj env) (fit env j) m (\<lambda>_. fit env k)"
  using safe_inv [OF assms] by (rule safe_cons) auto

lemma safe_search_dispatch:
  assumes "well_typed (e_td env)" and "complete_event e"
  shows "safe (e_pj env) (fit env (Suc (Suc k))) (bindM (search_call env p) (\<lambda>i. dispatch env i e)) (\<lambda>_. gw_room k)"
proof (rule safe_bind)
  show "safe (e_pj env) (fit env (Suc (Suc k))) (search_call env p)
      (\<lambda>i g. gw_core env g \<and> i < length (gw_bridges g) \<and> gw_room (Suc (Suc k)) g)"
  proof (rule safeI)
    fix g
    assume g: "fit env (Suc (Suc k)) g"
    obtain i g' where run: "search_call env p g = (Inr i, g')" "gw_world g' = gw_world g"
      by (cases "find_if (p \<circ> br_ctx) (gw_bridges g)") (auto simp: search_call_eq)
    then show "case search_call env p g of (Inr i, g) \<Rightarrow> gw_core env g \<and> i < length (gw_bridges g) \<and> gw_room (Suc (Suc k)) g
        | (Inl e, g) \<Rightarrow> tame (e_pj env) e"
      using search_call_core [of env g p i g'] g by simp
  qed
qed (rule safe_dispatch [OF assms])

lemma safe_updateCall:
  "well_typed (e_td env) \<Longrightarrow> full_key call \<Longrightarrow> safe (e_pj env) (fit env (Suc (Suc k))) (process_updateCall env call) (\<lambda>_. fit env k)"
  by (rule safe_fit [OF _ handlers_inv(1)])
    (auto simp: process_updateCall_def complete_event_def intro!: safe_search_dispatch)

lemma safe_sip_event:
  "well_typed (e_td env) \<Longrightarrow> safe (e_pj env) (fit env (Suc (Suc k))) (process_sip_event env se) (\<lambda>_. fit env k)"
  by (rule safe_fit [OF _ handlers_inv(2)], cases se)
    (auto simp: process_sip_event_def complete_event_def intro!: safe_search_dispatch)

lemma safe_updateNewMessage:
  assumes "well_typed (e_td env)"
  shows "safe (e_pj env) (fit env (Suc (Suc k))) (process_updateNewMessage env m) (\<lambda>_. fit env k)"
proof (rule safe_fit [OF _ handlers_inv(3)], rule safeI)
  fix g
  assume g: "fit env (Suc (Suc k)) g"
  have "case bridge_event env i (EvNewMessage m) g of (Inr x, g') \<Rightarrow> gw_room k g' | (Inl e, g') \<Rightarrow> tame (e_pj env) e"
    if "message_matches uid (gw_bridges g) = [i]" for uid i
  proof -
    have "i \<in> set (message_matches uid (gw_bridges g))" using that by simp
    then have pre: "gw_core env g \<and> i < length (gw_bridges g) \<and> gw_room (Suc (Suc k)) g"
      using g by (simp add: message_matches_def gw_inv_def)
    have "safe (e_pj env) (\<lambda>g. gw_core env g \<and> i < length (gw_bridges g) \<and> gw_room (Suc (Suc k)) g)
        (bridge_event env i (EvNewMessage m)) (\<lambda>_. gw_room k)"
      by (rule safe_post [OF safe_bridge_event [OF assms]]) (simp_all add: complete_event_def)
    then show ?thesis using pre by (rule safeD)
  qed
  then show "case process_updateNewMessage env m g of (Inr x, g') \<Rightarrow> gw_room k g' | (Inl e, g') \<Rightarrow> tame (e_pj env) e"
    using g roomy_mono [of "Suc (Suc k)" "gw_world g" k]
    by (simp add: process_updateNewMessage_def prog_simps split: message_sender.split list.split)
qed


lemma safe_existing:
  assumes "well_typed (e_td env)"
  shows "safe (e_pj env) (fit env (Suc (Suc k))) (process_InternalError env cid prm) (\<lambda>_. fit env k)"
proof (rule safe_fit [OF _ handlers_inv(4)], rule safeI)
  fix g
  assume g: "fit env (Suc (Suc k)) g"
  have "case dispatch env i (EvInternalError cid prm) g of (Inr x, g') \<Rightarrow> gw_room k g' | (Inl e, g') \<Rightarrow> tame (e_pj env) e"
    if "find_if (\<lambda>b. ctx_id (br_ctx b) = cid) (gw_bridges g) = Some i" for i
    by (rule safeD [OF safe_dispatch [OF assms]])
      (use g find_if_Some [OF that] in \<open>auto simp: gw_inv_def complete_event_def\<close>)
  then show "case process_InternalError env cid prm g of (Inr x, g') \<Rightarrow> gw_room k g' | (Inl e, g') \<Rightarrow> tame (e_pj env) e"
    using g roomy_mono [of "Suc (Suc k)" "gw_world g" k]
    by (simp add: process_InternalError_def prog_simps split: option.split)
qed

lemma send_async_Inr: "\<exists>p. send_query_async False f c = (Inr p, snd (send_query_async False f c))"
  by (simp add: send_query_async_def send_query_def next_query_id_def prog_simps)

lemma send_async_events: "tg_events (snd (send_query_async False f c)) = tg_events c"
  by (simp add: send_query_async_def send_query_def next_query_id_def prog_simps)

lemma safe_SignalingDataEmitted:
  "safe (e_pj env) (fit env (Suc k)) (process_SignalingDataEmitted env cid data) (\<lambda>_. fit env k)"
proof (rule safe_fit [OF _ handlers_inv(5)], rule safeI)
  fix g
  assume g: "fit env (Suc k) g"
  have send: "gw_tg (send_query_async False f) g = (Inr p, g') \<Longrightarrow> gw_room k g'" for f p g'
    using g tg_sane_send [of "w_tg (gw_world g)" f] sent_send_async [of f "w_tg (gw_world g)"] send_async_events [of f "w_tg (gw_world g)"]
    by (auto simp: gw_tg_def liftM_def roomy_def split: prod.splits)
  have "\<exists>p g'. gw_tg (send_query_async False f) g = (Inr p, g')" for f
    using send_async_Inr [of f "w_tg (gw_world g)"] by (auto simp: gw_tg_def liftM_def split: prod.splits)
  then have "case bindM (gw_tg (send_query_async False f)) (\<lambda>_. returnM ()) g of (Inr x, g') \<Rightarrow> gw_room k g' | (Inl e, g') \<Rightarrow> tame (e_pj env) e" for f
    using send [of f] by (fastforce simp: bindM_def returnM_def)
  then show "case process_SignalingDataEmitted env cid data g of (Inr x, g') \<Rightarrow> gw_room k g' | (Inl e, g') \<Rightarrow> tame (e_pj env) e"
    using g roomy_mono [of "Suc k" "gw_world g" k]
    by (simp add: process_SignalingDataEmitted_def bindM_def [of "getM gw_bridges"] getM_def returnM_def [of "()" g] split: option.split)
qed

lemma safe_updateNewCallSignalingData:
  "safe (e_pj env) (fit env k) (process_updateNewCallSignalingData env cl raw) (\<lambda>_. fit env k)"
proof (rule safe_fit [OF _ handlers_inv(6)], rule safeI)
  fix g
  assume g: "fit env k g"
  have "case gw_rt (UpdateSignaling (e_ntg env) a data) g of (Inr x, g') \<Rightarrow> gw_room k g' | (Inl e, g') \<Rightarrow> tame (e_pj env) e"
    if "find_if (\<lambda>b. tg_call_id (br_ctx b) = cl) (gw_bridges g) = Some i" "ctx_controller (br_ctx (gw_bridges g ! i)) = Some a" for i a data
  proof -
    have "gw_bridges g ! i \<in> set (gw_bridges g)" using find_if_Some [OF that(1)] by simp
    then have "a \<in> set (ctls (gw_bridges g))" using that(2) by (force simp: ctls_def ctl_list_def)
    then obtain c where "nw_heap (w_rt (gw_world g)) a = Some c"
      using g by (auto simp: gw_inv_def gw_core_def rt_frame_def)
    then show ?thesis
      using g by (simp add: gw_rt_def liftM_def UpdateSignaling_def bindM_deref whenM_def returnM_def)
  qed
  then show "case process_updateNewCallSignalingData env cl raw g of (Inr x, g') \<Rightarrow> gw_room k g' | (Inl e, g') \<Rightarrow> tame (e_pj env) e"
    using g by (simp add: process_updateNewCallSignalingData_def bindM_def getM_def returnM_def split: option.split)
qed

section \<open>A round\<close>

lemma safe_fit_more: "safe (e_pj env) (fit env j) m (\<lambda>_. fit env l) \<Longrightarrow> k \<le> l \<Longrightarrow> safe (e_pj env) (fit env j) m (\<lambda>_. fit env k)"
  by (erule safe_post) (auto intro: roomy_mono)

lemma safe_fit_less: "safe (e_pj env) (fit env j) m (\<lambda>_. fit env k) \<Longrightarrow> j \<le> l \<Longrightarrow> safe (e_pj env) (fit env l) m (\<lambda>_. fit env k)"
  by (erule safe_cons) (auto intro: roomy_mono)

lemma fit_skip: "k \<le> l \<Longrightarrow> safe (e_pj env) (fit env l) (returnM x) (\<lambda>_. fit env k)"
  by (rule safe_skip) (auto intro: roomy_mono)

lemma safe_process_internal:
  "well_typed (e_td env) \<Longrightarrow> safe (e_pj env) (fit env (Suc (Suc k))) (process_internal env x) (\<lambda>_. fit env k)"
  unfolding process_internal_def
  by (cases x) (auto intro!: safe_existing safe_fit_less [OF safe_SignalingDataEmitted])

lemma safe_process_tg:
  "well_typed (e_td env) \<Longrightarrow> complete_update (Some obj) \<Longrightarrow> safe (e_pj env) (fit env (Suc (Suc k))) (process_tg env obj) (\<lambda>_. fit env k)"
  unfolding process_tg_def complete_update_def
  by (cases obj) (auto intro!: safe_updateCall safe_updateNewMessage fit_skip safe_fit_less [OF safe_updateNewCallSignalingData])

lemma safe_pops:
  "safe (e_pj env) (fit env k) pop_internal (\<lambda>_. fit env k)" "safe (e_pj env) (fit env k) pop_sip (\<lambda>_. fit env k)"
  "safe (e_pj env) (fit env k) pop_tg (\<lambda>e g. complete_update e \<and> fit env k g)"
proof -
  show "safe (e_pj env) (fit env k) pop_internal (\<lambda>_. fit env k)"
    by (rule safe_fit [OF _ pops_inv(1)]) (auto simp: safe_def pop_internal_def prog_simps split: prod.split)
  show "safe (e_pj env) (fit env k) pop_sip (\<lambda>_. fit env k)"
    by (rule safe_fit [OF _ pops_inv(3)]) (auto simp: safe_def pop_sip_def prog_simps split: prod.split)
  have "safe (e_pj env) (\<lambda>g. gw_room k g) pop_tg (\<lambda>e g. complete_update e \<and> gw_room k g)"
    by (rule safeI) (auto simp: pop_tg_def queue_pop_def roomy_def complete_update_def prog_simps split: list.split)
  then show "safe (e_pj env) (fit env k) pop_tg (\<lambda>e g. complete_update e \<and> fit env k g)"
    using pops_inv(2) [of env] by (fastforce simp: safe_def okeeps_def split: prod.splits sum.splits)
qed

lemma safe_tick:
  assumes "well_typed (e_td env)"
  shows "safe (e_pj env) (fit env (k + 6)) (tick env) (\<lambda>_. fit env k)"
proof -
  have n: "k + 6 = Suc (Suc (k + 4))" "k + 4 = Suc (Suc (k + 2))" "k + 2 = Suc (Suc k)" by simp_all
  have "safe (e_pj env) (fit env (k + 6)) (bindM pop_internal (\<lambda>e. case e of Some x \<Rightarrow> process_internal env x | None \<Rightarrow> returnM ())) (\<lambda>_. fit env (k + 4))"
    by (rule safe_bind [OF safe_pops(1)]) (auto simp only: n(1) intro!: fit_skip safe_process_internal assms split: option.split)
  moreover have "safe (e_pj env) (fit env (k + 4)) (bindM pop_tg (\<lambda>e. case e of Some x \<Rightarrow> process_tg env x | None \<Rightarrow> returnM ())) (\<lambda>_. fit env (k + 2))"
    by (rule safe_bind [OF safe_pops(3)], rule safe_pure) (auto simp only: n(2) intro!: fit_skip safe_process_tg assms split: option.split)
  moreover have "safe (e_pj env) (fit env (k + 2)) (bindM pop_sip (\<lambda>e. case e of Some x \<Rightarrow> process_sip_event env x | None \<Rightarrow> returnM ())) (\<lambda>_. fit env k)"
    by (rule safe_bind [OF safe_pops(2)]) (auto simp only: n(3) intro!: fit_skip safe_sip_event assms split: option.split)
  ultimately show ?thesis
    unfolding tick_def by (intro safe_then)
qed


section \<open>Reachable states\<close>

text \<open>Whatever the threads do, the count of queries and the client's invariant stay in step.\<close>

abbreviation gw_sane :: "gateway \<Rightarrow> bool" where
  "gw_sane g \<equiv> tg_sane (w_tg (gw_world g))"

interpretation sane: world_property env "\<lambda>w. tg_sane (w_tg w)" for env
  by unfold_locales (simp_all add: tg_sane_td_get tg_sane_send)

lemma keeps_sane_tg: "keeps tg_sane m \<Longrightarrow> keeps gw_sane (gw_tg m)"
  by (auto simp: keeps_def gw_tg_def liftM_def split: prod.split)

lemma keeps_sane_others:
  "keeps gw_sane (gw_rt r)" "keeps gw_sane (gw_sip s)" "keeps gw_sane pop_internal" "keeps gw_sane pop_tg" "keeps gw_sane pop_sip"
  by (auto simp: keeps_def gw_rt_def gw_sip_def liftM_def pop_internal_def pop_tg_def pop_sip_def prog_simps split: prod.split)

lemma keeps_sane_tick: "keeps gw_sane (tick env)"
  unfolding tick_def by (auto intro!: inv_intros keeps_sane_others sane.gw_handlers split: option.split)

lemma keeps_sane_load_cache: "keeps gw_sane (load_cache env rs)"
proof -
  have send: "keeps gw_sane (send_all is)" for "is"
    by (induction "is") (auto intro!: inv_intros sane.gw_basic)
  have future: "keeps tg_sane (future_get p)" for p
    unfolding future_get_def by (auto intro!: inv_intros split: option.split)
  have read: "keeps gw_sane (read_all ps)" for ps
    by (induction ps) (auto intro!: inv_intros keeps_sane_tg future keeps_modify split: td_object.split)
  show ?thesis
    unfolding load_cache_def
    by (auto intro!: inv_intros sane.gw_basic keeps_sane_tg keeps_sane_loop send read split: td_object.split)
qed

lemma keeps_sane_signaling: "keeps gw_sane (signaling_callback uid data)"
  unfolding signaling_callback_def by (auto intro!: inv_intros keeps_sane_others keeps_modify split: option.split)

lemma gw_step_sane:
  assumes "gw_sane g" and "gw_step env g g'"
  shows "gw_sane g'"
  using assms(2)
  by (cases rule: gw_step.cases)
    (auto dest: keepsD [OF keeps_sane_load_cache assms(1)] keepsD [OF keeps_sane_tick assms(1)]
      keepsD [OF keeps_sane_tg [OF keeps_sane_response] assms(1)] keepsD [OF keeps_sane_others(1) assms(1)]
      keepsD [OF keeps_sane_others(2) assms(1)] keepsD [OF keeps_sane_signaling assms(1)])

interpretation gw_sane: invariant_system "gw_init env" "gw_step env" gw_sane for env
  by unfold_locales (simp add: gw_init_def new_Gateway_def tg_sane_new, rule gw_step_sane)

text \<open>
  C2. How a round of the main loop can end. As long as fewer than \<open>2 ^ 64\<close> queries were sent (a round
  sends at most six), TDLib's answers have their documented types and the calls it reports as ready
  come with their whole key, a round from any reachable state of the gateway, taking what another
  thread does as single steps, neither reads a controller that is missing or freed, nor casts an
  answer to a type it does not have, nor reads an empty list, nor assigns over a running thread, nor
  lets a broken promise or an error of a SIP call escape. It ends, or it ends the process by one of
  three exceptions: a runtime error (the calling library refused a request, or the user behind a call
  could not be read), a waiting time that no integer holds, or the \<^verbatim>\<open>pj::Error\<close> of an audio
  port that the SIP library refused to register while the controller of a call was built.
\<close>

theorem round_defined:
  assumes "reach (gw_init env) (gw_step env) g"
    and "well_typed (e_td env)"
    and "list_all complete_update (tg_events (w_tg (gw_world g)))"
    and "length (tg_sent (w_tg (gw_world g))) + 6 < 2 ^ 64"
  shows "\<exists>g'. tick env g = (Inr (), g') \<or> (\<exists>what. tick env g = (Inl (RuntimeError what), g')) \<or> tick env g = (Inl OutOfRange, g')
    \<or> (\<exists>reason h port. tick env g = (Inl (PjError reason), g') \<and> pj_error (e_pj env) h (pj_registerMediaPort port) = Some reason)"
proof -
  have "fit env (0 + 6) g"
    using gw.reach_inv [OF assms(1)] gw_sane.reach_inv [OF assms(1)] assms(3,4) by (simp add: roomy_def sent_bound_def)
  then have "case tick env g of (Inr x, g') \<Rightarrow> fit env 0 g' | (Inl e, g') \<Rightarrow> tame (e_pj env) e"
    by (rule safeD [OF safe_tick [OF assms(2)]])
  then show ?thesis
    by (cases "tick env g") (auto simp: tame_def split: sum.splits exn.splits)
qed


text \<open>An environment whose answers have the documented types, and a state with an update to handle.\<close>

definition typed_td :: td_env where
  "typed_td = \<lparr>td_answer = (\<lambda>h f. case f of
       getUser i \<Rightarrow> td_user_object demo_user
     | createCall u p v \<Rightarrow> td_callId 9
     | importContacts cs \<Rightarrow> td_importedContacts (map (\<lambda>_. 42) cs)
     | searchPublicChat n \<Rightarrow> td_chat 42 (chatTypePrivate 42)
     | searchContacts q n \<Rightarrow> td_users [42]
     | _ \<Rightarrow> td_ok)\<rparr>"

definition typed_env :: env where
  "typed_env = demo_env\<lparr>e_td := typed_td\<rparr>"

definition ready_update :: td_object where
  "ready_update = updateCall \<lparr>tc_id = 9, tc_user_id = 42, tc_is_outgoing = False, tc_state = callStateReady [] (replicate 256 0)\<rparr>"

definition typed0 :: gateway where
  "typed0 = new_Gateway typed_env (new_sip_client demo_settings) (new_tg_client demo_settings) empty_rt"

definition typed1 :: gateway where
  "typed1 = snd (gw_tg (process_response (0, Some ready_update)) typed0)"

lemma well_typed_demo: "well_typed typed_td"
  unfolding well_typed_def
proof (intro allI)
  show "answer_ok f (td_answer typed_td h f)" for h f
    by (cases f) (simp_all add: typed_td_def answer_ok_def)
qed

lemma reach_typed1: "reach (gw_init typed_env) (gw_step typed_env) typed1"
proof -
  have "reach (gw_init typed_env) (gw_step typed_env) typed0"
    by (rule reach_init) (simp add: gw_init_def typed0_def typed_env_def demo_env_def)
  moreover have "fst (gw_tg (process_response (0, Some ready_update)) typed0) = Inr ()"
    by (simp add: gw_tg_def liftM_def process_response_def process_update_def ready_update_def prog_simps)
  then have "gw_step typed_env typed0 typed1"
    by (intro gw_tg_thread [where r = "(0, Some ready_update)"]) (simp add: typed1_def prod_eq_iff)
  ultimately show ?thesis by (rule reach_step)
qed

theorem round_defined_witness:
  "tg_events (w_tg (gw_world typed1)) = [Some ready_update]
   \<and> (\<exists>g'. tick typed_env typed1 = (Inr (), g') \<or> (\<exists>what. tick typed_env typed1 = (Inl (RuntimeError what), g'))
        \<or> tick typed_env typed1 = (Inl OutOfRange, g')
        \<or> (\<exists>reason h port. tick typed_env typed1 = (Inl (PjError reason), g')
             \<and> pj_error (e_pj typed_env) h (pj_registerMediaPort port) = Some reason))"
proof -
  have events: "tg_events (w_tg (gw_world typed1)) = [Some ready_update]" "tg_sent (w_tg (gw_world typed1)) = []"
    by (simp_all add: typed1_def typed0_def new_Gateway_def new_tg_client_def gw_tg_def process_response_def process_update_def
        ready_update_def emplace_def queue_empty_def prog_simps)
  moreover have "complete_update (Some ready_update)"
    by (simp add: complete_update_def full_key_def ready_update_def)
  moreover have "well_typed (e_td typed_env)" using well_typed_demo by (simp add: typed_env_def)
  ultimately show ?thesis
    using round_defined [OF reach_typed1] by simp
qed

end
