(* ===== verification/Sml_Backend.thy ===== *)
theory Sml_Backend
  imports Sml_Engine
begin

text \<open>
  The back end of \<^verbatim>\<open>include/boost/sml.hpp\<close> as it runs: rows grouped by event and state,
  states as numbers, the four ways to dispatch on the current number, the eight forms of a row with
  entry and exit events, sub-machines in a common pool, and \<^verbatim>\<open>process_event\<close> with the
  events that the library generates itself. The templates of the library recurse over the types of
  events and machines; here a bound on the nesting takes the place of the compile-time recursion. The
  logger of a machine is a function on the state of the world, called where the library calls it. The
  recursive mutex that the gateway gives its machines is left out, since one thread runs them, as are the queues of deferred and posted events, for which the gateway
  has no policy, and rows for exceptions and for unexpected events, which its tables do not have.
\<close>

section \<open>Events\<close>

datatype 'e sml_event =
    plain_event 'e | anonymous | initial_event
  | on_entry "'e sml_event" | on_exit "'e sml_event"

text \<open>The types of events; \<open>on_entry_any\<close> stands for \<^verbatim>\<open>on_entry<_>\<close>, \<open>any_event\<close> for \<^verbatim>\<open>_\<close>.\<close>

datatype 'k event_type =
    plain_t 'k | anonymous_t | initial_t
  | on_entry_t "'k event_type" | on_exit_t "'k event_type"
  | on_entry_any | on_exit_any | any_event

fun type_of_event :: "('e \<Rightarrow> 'k) \<Rightarrow> 'e sml_event \<Rightarrow> 'k event_type" where
  "type_of_event kind (plain_event e) = plain_t (kind e)"
| "type_of_event kind anonymous = anonymous_t"
| "type_of_event kind initial_event = initial_t"
| "type_of_event kind (on_entry e) = on_entry_t (type_of_event kind e)"
| "type_of_event kind (on_exit e) = on_exit_t (type_of_event kind e)"

fun get_generic_t :: "'k event_type \<Rightarrow> 'k event_type" where
  "get_generic_t (on_entry_t k) = on_entry_any"
| "get_generic_t (on_exit_t k) = on_exit_any"
| "get_generic_t k = k"

fun get_mapped_t :: "'k event_type \<Rightarrow> 'k event_type option" where
  "get_mapped_t (on_entry_t k) = Some (on_entry_t k)"
| "get_mapped_t (on_exit_t k) = Some (on_exit_t k)"
| "get_mapped_t k = None"

fun is_entry_exit :: "'k event_type \<Rightarrow> bool" where
  "is_entry_exit (on_entry_t k) = True" | "is_entry_exit (on_exit_t k) = True"
| "is_entry_exit on_entry_any = True" | "is_entry_exit on_exit_any = True"
| "is_entry_exit k = False"

definition is_internal_event :: "'k event_type \<Rightarrow> bool" where
  "is_internal_event k \<longleftrightarrow> is_entry_exit k \<or> k = anonymous_t"

section \<open>Rows and machines\<close>

text \<open>
  Guards and actions with the operators of the library; the string is the name of the type of a
  function object.
\<close>

datatype 'e guard_expr =
    guard_fun string "'e sml_event \<Rightarrow> bool"
  | guard_and "'e guard_expr" "'e guard_expr"
  | guard_or "'e guard_expr" "'e guard_expr"
  | guard_not "'e guard_expr"

datatype ('e, 'w) action_expr =
    action_fun string "'e sml_event \<Rightarrow> ('w, unit) prog"
  | action_seq "('e, 'w) action_expr" "('e, 'w) action_expr"

text \<open>
  A row of a table. The destination of an internal row is the type \<^verbatim>\<open>internal\<close>, which
  counts as a state like any other. \<open>None\<close> is \<^verbatim>\<open>always\<close> for a guard, \<^verbatim>\<open>none\<close> for an action.
\<close>

datatype 'm back_state = named_state string | sub_machine 'm | terminate_state | internal_state

record ('m, 'k, 'e, 'w) back_row =
  r_src :: "'m back_state"
  r_dst :: "'m back_state"
  r_event :: "'k event_type"
  r_guard :: "'e guard_expr option"
  r_action :: "('e, 'w) action_expr option"
  r_initial :: bool
  r_history :: bool

type_synonym ('m, 'k, 'e, 'w) back_table = "('m, 'k, 'e, 'w) back_row list"

datatype dispatch_policy = policy_jump_table | policy_branch_stm | policy_switch_stm | policy_fold_expr

text \<open>What a logger is told; the logger is an object of the user, or absent.\<close>

datatype ('m, 'e) log_entry =
    log_process_event 'm "'e sml_event"
  | log_guard 'm string "'e sml_event" bool
  | log_action 'm string "'e sml_event"
  | log_state_change 'm "'m back_state" "'m back_state"

record ('m, 'k, 'e, 'w) backend =
  be_table :: "'m \<Rightarrow> ('m, 'k, 'e, 'w) back_table"
  be_kind :: "'e \<Rightarrow> 'k"
  be_policy :: dispatch_policy
  be_nesting :: nat
  be_logger :: "(('m, 'e) log_entry \<Rightarrow> 'w \<Rightarrow> 'w) option"

text \<open>
  The pool of all machines, each with its current states (one per region), beside the world of the
  actions.
\<close>

type_synonym 'm pool = "'m \<Rightarrow> nat list"
type_synonym ('m, 'w, 'a) backp = "('m pool \<times> 'w, 'a) prog"

definition on_world :: "('w, 'a) prog \<Rightarrow> ('m, 'w, 'a) backp" where
  "on_world m = liftM snd (\<lambda>w (p, _). (p, w)) m"

definition log_note :: "('m, 'k, 'e, 'w) backend \<Rightarrow> ('m, 'e) log_entry \<Rightarrow> ('m, 'w, unit) backp" where
  "log_note B l =
     (case be_logger B of None \<Rightarrow> returnM () | Some f \<Rightarrow> modifyM (\<lambda>(p, w). (p, f l w)))"

definition current_state :: "'m \<Rightarrow> nat \<Rightarrow> ('m, 'w, nat) backp" where
  "current_state m n = getM (\<lambda>(p, w). p m ! n)"

definition set_current_state :: "'m \<Rightarrow> nat \<Rightarrow> nat \<Rightarrow> ('m, 'w, unit) backp" where
  "set_current_state m n i = modifyM (\<lambda>(p, w). (p(m := (p m)[n := i]), w))"

section \<open>States as numbers\<close>

definition unique :: "'a list \<Rightarrow> 'a list" where
  "unique xs = foldl (\<lambda>rs x. if x \<in> set rs then rs else rs @ [x]) [] xs"

definition get_id :: "'a list \<Rightarrow> 'a \<Rightarrow> nat" where
  "get_id xs x = length (takeWhile (\<lambda>y. y \<noteq> x) xs)"

definition states_t :: "('m, 'k, 'e, 'w) back_table \<Rightarrow> 'm back_state list" where
  "states_t table = unique (concat (map (\<lambda>t. [r_src t, r_dst t]) table))"

definition initial_states_t :: "('m, 'k, 'e, 'w) back_table \<Rightarrow> 'm back_state list" where
  "initial_states_t table = unique (map r_src (filter r_initial table))"

definition history_states_t :: "('m, 'k, 'e, 'w) back_table \<Rightarrow> 'm back_state list" where
  "history_states_t table = map r_src (filter (\<lambda>t. \<not> r_history t \<and> r_initial t) table)"

definition has_history_states :: "('m, 'k, 'e, 'w) back_table \<Rightarrow> bool" where
  "has_history_states table \<longleftrightarrow> length (initial_states_t table) \<noteq> length (history_states_t table)"

text \<open>
  The events of a machine: those of the library's own events that it or a sub-machine has rows for
  (a row of a state that stands for a sub-machine counts in any case), then those of its rows. A
  depth takes the place of the recursion of templates over sub-machines.
\<close>

fun sub_internal_events :: "('m, 'k, 'e, 'w) backend \<Rightarrow> nat \<Rightarrow> 'm \<Rightarrow> 'k event_type list" where
  "sub_internal_events B 0 m = []"
| "sub_internal_events B (Suc d) m =
     concat (map (\<lambda>t. case r_src t of
                        sub_machine q \<Rightarrow> r_event t # sub_internal_events B d q
                      | _ \<Rightarrow> if is_internal_event (r_event t) then [r_event t] else []) (be_table B m))"

definition events_t :: "('m, 'k, 'e, 'w) backend \<Rightarrow> 'm \<Rightarrow> 'k event_type list" where
  "events_t B m = unique (sub_internal_events B (be_nesting B) m @ map r_event (be_table B m))"

definition has_entry_exits :: "('m, 'k, 'e, 'w) backend \<Rightarrow> 'm \<Rightarrow> bool" where
  "has_entry_exits B m = list_ex is_entry_exit (events_t B m)"

definition initialize :: "('m, 'k, 'e, 'w) backend \<Rightarrow> 'm \<Rightarrow> 'm pool \<Rightarrow> 'm pool" where
  "initialize B m p = p(m := map (get_id (states_t (be_table B m))) (initial_states_t (be_table B m)))"

section \<open>Grouping rows by event and state\<close>

text \<open>
  The library builds the grouping by inheritance: an element that is already there is extended,
  another one is put in front.
\<close>

definition unique_mappings :: "('v \<Rightarrow> 'v \<Rightarrow> 'v) \<Rightarrow> ('a \<times> 'v) list \<Rightarrow> ('a \<times> 'v) list" where
  "unique_mappings join ts =
     foldl (\<lambda>rs (k, v). if k \<in> fst ` set rs then map (\<lambda>(k', v'). if k' = k then (k', join v' v) else (k', v')) rs
                       else (k, v) # rs) [] ts"

type_synonym ('m, 'k, 'e, 'w) state_mappings = "('m back_state \<times> ('m, 'k, 'e, 'w) back_row list) list"

definition join_state_mappings ::
  "('m, 'k, 'e, 'w) state_mappings \<Rightarrow> ('m, 'k, 'e, 'w) state_mappings \<Rightarrow> ('m, 'k, 'e, 'w) state_mappings" where
  "join_state_mappings r t = unique_mappings (@) (r @ t)"

definition mappings :: "('m, 'k, 'e, 'w) back_table \<Rightarrow> ('k event_type \<times> ('m, 'k, 'e, 'w) state_mappings) list" where
  "mappings table = unique_mappings join_state_mappings (map (\<lambda>t. (r_event t, [(r_src t, [t])])) table)"

text \<open>
  The rows for an event: those declared for its type and, but for entry and exit events, those
  declared for every event.
\<close>

definition get_event_mapping ::
  "('k event_type \<times> ('m, 'k, 'e, 'w) state_mappings) list \<Rightarrow> 'k event_type \<Rightarrow> ('m, 'k, 'e, 'w) state_mappings" where
  "get_event_mapping ms k =
     (case map_of ms k of
        None \<Rightarrow> []
      | Some r \<Rightarrow>
          if is_entry_exit k then r
          else case map_of ms any_event of None \<Rightarrow> r | Some t \<Rightarrow> join_state_mappings r t)"

definition get_state_mapping :: "('m, 'k, 'e, 'w) state_mappings \<Rightarrow> 'm back_state \<Rightarrow> ('m, 'k, 'e, 'w) back_row list" where
  "get_state_mapping ms s = (case map_of ms s of None \<Rightarrow> [] | Some ts \<Rightarrow> ts)"

section \<open>Dispatch\<close>

text \<open>
  The code to run for each state, and the number of the current one, read where the code reads it:
  the table of functions once, the chains of comparisons before every comparison. Which of them is
  used depends on the compiler.
\<close>

definition jump_table :: "('w, nat) prog \<Rightarrow> ('w, bool) prog list \<Rightarrow> ('w, bool) prog" where
  "jump_table cur fs =
     (if fs = [] then returnM False
      else bindM cur (\<lambda>c. if c < length fs then fs ! c else throwM (Undefined ''dispatch table'')))"

fun branch_stm :: "('w, nat) prog \<Rightarrow> nat \<Rightarrow> ('w, bool) prog list \<Rightarrow> ('w, bool) prog" where
  "branch_stm cur N [] = returnM False"
| "branch_stm cur N (f # fs) = bindM cur (\<lambda>c. if c = N then f else branch_stm cur (N + 1) fs)"

fun switch_stm :: "('w, nat) prog \<Rightarrow> nat \<Rightarrow> ('w, bool) prog list \<Rightarrow> ('w, bool) prog" where
  "switch_stm cur N [] = returnM False"
| "switch_stm cur N (f # fs) =
     bindM (bindM cur (\<lambda>c. returnM (c = N))) (\<lambda>taken. case taken of True \<Rightarrow> f | False \<Rightarrow> switch_stm cur (N + 1) fs)"

fun fold_expr :: "('w, nat) prog \<Rightarrow> nat \<Rightarrow> ('w, bool) prog list \<Rightarrow> ('w, bool) prog" where
  "fold_expr cur N [] = returnM False"
| "fold_expr cur N (f # fs) =
     bindM (bindM cur (\<lambda>c. if c = N then f else returnM False)) (\<lambda>handled.
       if handled then returnM True else fold_expr cur (N + 1) fs)"

definition dispatch_by :: "dispatch_policy \<Rightarrow> ('w, nat) prog \<Rightarrow> ('w, bool) prog list \<Rightarrow> ('w, bool) prog" where
  "dispatch_by policy cur fs =
     (case policy of
        policy_jump_table \<Rightarrow> jump_table cur fs
      | policy_branch_stm \<Rightarrow> branch_stm cur 0 fs
      | policy_switch_stm \<Rightarrow> switch_stm cur 0 fs
      | policy_fold_expr \<Rightarrow> fold_expr cur 0 fs)"

section \<open>Changing the state\<close>

text \<open>
  Entering a state that stands for a sub-machine resets the sub-machine; one with history keeps
  the regions whose initial state is marked.
\<close>

definition update_composite_states :: "('m, 'k, 'e, 'w) backend \<Rightarrow> 'm \<Rightarrow> 'm pool \<Rightarrow> 'm pool" where
  "update_composite_states B q p =
     (let table = be_table B q in
      if has_history_states table
      then p(q := foldl (\<lambda>cs h. cs[get_id (initial_states_t table) h := get_id (states_t table) h]) (p q) (history_states_t table))
      else initialize B q p)"

definition update_current_state ::
  "('m, 'k, 'e, 'w) backend \<Rightarrow> 'm \<Rightarrow> nat \<Rightarrow> 'm back_state \<Rightarrow> 'm back_state \<Rightarrow> ('m, 'w, unit) backp" where
  "update_current_state B m n src dst =
     thenM (log_note B (log_state_change m src dst))
     (thenM (set_current_state m n (get_id (states_t (be_table B m)) dst))
       (case dst of
          sub_machine q \<Rightarrow> modifyM (\<lambda>(p, w). (update_composite_states B q p, w))
        | _ \<Rightarrow> returnM ()))"

section \<open>Calling guards and actions\<close>

text \<open>
  \<^verbatim>\<open>call\<close>: the logger hears of a guard after it was evaluated and of an action before it runs;
  an operator calls its operands, as far as it needs them, and is not reported itself.
\<close>

fun call_guard :: "(('m, 'e) log_entry \<Rightarrow> ('m, 'w, unit) backp) \<Rightarrow> 'm \<Rightarrow> 'e guard_expr \<Rightarrow> 'e sml_event \<Rightarrow> ('m, 'w, bool) backp" where
  "call_guard lg m (guard_fun name g) e =
     (let result = g e in thenM (lg (log_guard m name e result)) (returnM result))"
| "call_guard lg m (guard_and g h) e =
     bindM (call_guard lg m g e) (\<lambda>result. if result then call_guard lg m h e else returnM False)"
| "call_guard lg m (guard_or g h) e =
     bindM (call_guard lg m g e) (\<lambda>result. if result then returnM True else call_guard lg m h e)"
| "call_guard lg m (guard_not g) e = bindM (call_guard lg m g e) (\<lambda>result. returnM (\<not> result))"

fun call_action :: "(('m, 'e) log_entry \<Rightarrow> ('m, 'w, unit) backp) \<Rightarrow> 'm \<Rightarrow> ('e, 'w) action_expr \<Rightarrow> 'e sml_event \<Rightarrow> ('m, 'w, unit) backp" where
  "call_action lg m (action_fun name a) e = thenM (lg (log_action m name e)) (on_world (a e))"
| "call_action lg m (action_seq a b) e = thenM (call_action lg m a e) (call_action lg m b e)"

section \<open>Running a row\<close>

text \<open>
  What a row needs of its machine: its name, the logger, whether the machine has rows for entering and
  leaving states, how it processes an event of the library's own, and how it changes the current
  state.
\<close>

record ('m, 'e, 'w) row_env =
  x_sm :: 'm
  x_log :: "('m, 'e) log_entry \<Rightarrow> ('m, 'w, unit) backp"
  x_entry_exits :: bool
  x_internal :: "'e sml_event \<Rightarrow> ('m, 'w, bool) backp"
  x_update :: "'m back_state \<Rightarrow> 'm back_state \<Rightarrow> ('m, 'w, unit) backp"

definition void :: "('w, 'a) prog \<Rightarrow> ('w, unit) prog" where
  "void m = bindM m (\<lambda>_. returnM ())"

definition execute_guard_action ::
  "('m, 'e, 'w) row_env \<Rightarrow> 'e guard_expr \<Rightarrow> ('e, 'w) action_expr \<Rightarrow> 'm back_state \<Rightarrow> 'm back_state \<Rightarrow> 'e sml_event \<Rightarrow> ('m, 'w, bool) backp" where
  "execute_guard_action x g a src dst e =
     bindM (call_guard (x_log x) (x_sm x) g e) (\<lambda>result.
       if result then
         thenM (whenM (x_entry_exits x) (void (x_internal x (on_exit e))))
         (thenM (x_update x src dst)
         (thenM (call_action (x_log x) (x_sm x) a e)
         (thenM (whenM (x_entry_exits x) (void (x_internal x (on_entry e))))
           (returnM True))))
       else returnM False)"

definition execute_internal_guard_action ::
  "('m, 'e, 'w) row_env \<Rightarrow> 'e guard_expr \<Rightarrow> ('e, 'w) action_expr \<Rightarrow> 'e sml_event \<Rightarrow> ('m, 'w, bool) backp" where
  "execute_internal_guard_action x g a e =
     bindM (call_guard (x_log x) (x_sm x) g e) (\<lambda>result.
       if result then thenM (call_action (x_log x) (x_sm x) a e) (returnM True) else returnM False)"

definition execute_always_action ::
  "('m, 'e, 'w) row_env \<Rightarrow> ('e, 'w) action_expr \<Rightarrow> 'm back_state \<Rightarrow> 'm back_state \<Rightarrow> 'e sml_event \<Rightarrow> ('m, 'w, bool) backp" where
  "execute_always_action x a src dst e =
     thenM (whenM (x_entry_exits x) (void (x_internal x (on_exit e))))
     (thenM (x_update x src dst)
     (thenM (call_action (x_log x) (x_sm x) a e)
     (thenM (whenM (x_entry_exits x) (void (x_internal x (on_entry e))))
       (returnM True))))"

definition execute_internal_always_action ::
  "('m, 'e, 'w) row_env \<Rightarrow> ('e, 'w) action_expr \<Rightarrow> 'e sml_event \<Rightarrow> ('m, 'w, bool) backp" where
  "execute_internal_always_action x a e =
     thenM (call_action (x_log x) (x_sm x) a e) (returnM True)"

definition execute_guard_none ::
  "('m, 'e, 'w) row_env \<Rightarrow> 'e guard_expr \<Rightarrow> 'm back_state \<Rightarrow> 'm back_state \<Rightarrow> 'e sml_event \<Rightarrow> ('m, 'w, bool) backp" where
  "execute_guard_none x g src dst e =
     bindM (call_guard (x_log x) (x_sm x) g e) (\<lambda>result.
       if result then
         thenM (whenM (x_entry_exits x) (void (x_internal x (on_exit e))))
         (thenM (x_update x src dst)
         (thenM (whenM (x_entry_exits x) (void (x_internal x (on_entry e))))
           (returnM True)))
       else returnM False)"

definition execute_internal_guard_none ::
  "('m, 'e, 'w) row_env \<Rightarrow> 'e guard_expr \<Rightarrow> 'e sml_event \<Rightarrow> ('m, 'w, bool) backp" where
  "execute_internal_guard_none x g e =
     call_guard (x_log x) (x_sm x) g e"

definition execute_always_none ::
  "('m, 'e, 'w) row_env \<Rightarrow> 'm back_state \<Rightarrow> 'm back_state \<Rightarrow> 'e sml_event \<Rightarrow> ('m, 'w, bool) backp" where
  "execute_always_none x src dst e =
     thenM (whenM (x_entry_exits x) (void (x_internal x (on_exit e))))
     (thenM (x_update x src dst)
     (thenM (whenM (x_entry_exits x) (void (x_internal x (on_entry e))))
       (returnM True)))"

definition execute_internal_always_none ::
  "('m, 'e, 'w) row_env \<Rightarrow> 'e sml_event \<Rightarrow> ('m, 'w, bool) backp" where
  "execute_internal_always_none x e =
     returnM True"

text \<open>The form of a row is a choice of the compiler.\<close>

definition execute_row ::
  "('m, 'e, 'w) row_env \<Rightarrow> ('m, 'k, 'e, 'w) back_row \<Rightarrow> 'e sml_event \<Rightarrow> ('m, 'w, bool) backp" where
  "execute_row x t e =
     (if r_dst t = internal_state then
        (case (r_guard t, r_action t) of
           (Some g, Some a) \<Rightarrow> execute_internal_guard_action x g a e
         | (None, Some a) \<Rightarrow> execute_internal_always_action x a e
         | (Some g, None) \<Rightarrow> execute_internal_guard_none x g e
         | (None, None) \<Rightarrow> execute_internal_always_none x e)
      else
        (case (r_guard t, r_action t) of
           (Some g, Some a) \<Rightarrow> execute_guard_action x g a (r_src t) (r_dst t) e
         | (None, Some a) \<Rightarrow> execute_always_action x a (r_src t) (r_dst t) e
         | (Some g, None) \<Rightarrow> execute_guard_none x g (r_src t) (r_dst t) e
         | (None, None) \<Rightarrow> execute_always_none x (r_src t) (r_dst t) e))"

section \<open>The rows of a state\<close>

text \<open>
  The rows for the current state and event, tried in order; an exit event never counts as handled by the last of them.
\<close>

fun transitions :: "('r \<Rightarrow> ('w, bool) prog) \<Rightarrow> 'r list \<Rightarrow> 'e sml_event \<Rightarrow> ('w, bool) prog" where
  "transitions ex [] e = returnM False"
| "transitions ex [t] e = (case e of on_exit _ \<Rightarrow> thenM (ex t) (returnM False) | _ \<Rightarrow> ex t)"
| "transitions ex (t # ts) e = bindM (ex t) (\<lambda>handled. if handled then returnM True else transitions ex ts e)"

text \<open>
  In a state that stands for a sub-machine the sub-machine sees the event first, an entry event
  last; without rows of its own the state counts as having handled the event.
\<close>

definition transitions_sub ::
  "('w, bool) prog \<Rightarrow> ('e sml_event \<Rightarrow> ('w, bool) prog) \<Rightarrow> ('r \<Rightarrow> ('w, bool) prog) \<Rightarrow> 'r list \<Rightarrow> 'e sml_event
    \<Rightarrow> ('w, bool) prog" where
  "transitions_sub sub_is_terminated sub_event ex ts e =
     (if ts = [] then thenM (sub_event e) (returnM True)
      else case e of
        anonymous \<Rightarrow>
          bindM sub_is_terminated (\<lambda>terminated.
            if terminated
            then bindM (sub_event e) (\<lambda>handled. if handled then returnM handled else transitions ex ts e)
            else returnM False)
      | on_entry _ \<Rightarrow> thenM (transitions ex ts e) (thenM (sub_event e) (returnM True))
      | _ \<Rightarrow> bindM (sub_event e) (\<lambda>handled. if handled then returnM handled else transitions ex ts e))"

section \<open>Processing an event\<close>

definition regions :: "('m, 'k, 'e, 'w) backend \<Rightarrow> 'm \<Rightarrow> nat" where
  "regions B m = length (initial_states_t (be_table B m))"

definition is_terminated :: "('m, 'k, 'e, 'w) backend \<Rightarrow> 'm \<Rightarrow> ('m, 'w, bool) backp" where
  "is_terminated B m =
     getM (\<lambda>(p, w). list_all (\<lambda>c. c = get_id (states_t (be_table B m)) terminate_state) (p m))"

text \<open>
  Below, \<open>disp m k e n\<close> dispatches an event on region \<open>n\<close> of machine \<open>m\<close> with the rows for the type
  \<open>k\<close>. With one region the result is that of the dispatch, with several the disjunction.
\<close>

type_synonym ('m, 'k, 'e, 'w) dispatcher = "'m \<Rightarrow> 'k event_type \<Rightarrow> 'e sml_event \<Rightarrow> nat \<Rightarrow> ('m, 'w, bool) backp"

fun all_regions :: "(nat \<Rightarrow> ('w, bool) prog) \<Rightarrow> nat list \<Rightarrow> bool \<Rightarrow> ('w, bool) prog" where
  "all_regions f [] handled = returnM handled"
| "all_regions f (n # ns) handled = bindM (f n) (\<lambda>h. all_regions f ns (handled \<or> h))"

definition process_event_impl ::
  "('m, 'k, 'e, 'w) backend \<Rightarrow> ('m, 'k, 'e, 'w) dispatcher \<Rightarrow> 'm \<Rightarrow> 'k event_type \<Rightarrow> 'e sml_event \<Rightarrow> ('m, 'w, bool) backp" where
  "process_event_impl B disp m k e =
     (if regions B m = 1 then disp m k e 0 else all_regions (disp m k e) [0..<regions B m] False)"

text \<open>The rows the library looks up for an event of its own, if the machine has any.\<close>

definition internal_key :: "('m, 'k, 'e, 'w) backend \<Rightarrow> 'm \<Rightarrow> 'e sml_event \<Rightarrow> 'k event_type option" where
  "internal_key B m e =
     (let k = type_of_event (be_kind B) e; events = set (events_t B m) in
      case get_mapped_t k of
        Some k' \<Rightarrow> if k' \<in> events then Some k' else if get_generic_t k \<in> events then Some (get_generic_t k) else None
      | None \<Rightarrow> if get_generic_t k \<in> events then Some (get_generic_t k) else None)"

definition process_internal_events ::
  "('m, 'k, 'e, 'w) backend \<Rightarrow> ('m, 'k, 'e, 'w) dispatcher \<Rightarrow> 'm \<Rightarrow> 'e sml_event \<Rightarrow> ('m, 'w, bool) backp" where
  "process_internal_events B disp m e =
     (case internal_key B m e of
        None \<Rightarrow> returnM False
      | Some k \<Rightarrow> thenM (log_note B (log_process_event m e)) (process_event_impl B disp m k e))"

definition process_internal_event ::
  "('m, 'k, 'e, 'w) backend \<Rightarrow> ('m, 'k, 'e, 'w) dispatcher \<Rightarrow> 'm \<Rightarrow> nat \<Rightarrow> 'e sml_event \<Rightarrow> ('m, 'w, bool) backp" where
  "process_internal_event B disp m n e =
     (case internal_key B m e of
        None \<Rightarrow> returnM False
      | Some k \<Rightarrow> thenM (log_note B (log_process_event m e)) (disp m k e n))"

text \<open>
  \<^verbatim>\<open>sm_impl::process_event\<close>. The function below it is \<^verbatim>\<open>noexcept\<close> for machines without rows
  for exceptions: a thrown outcome ends the process.
\<close>

definition sm_impl_process_event ::
  "('m, 'k, 'e, 'w) backend \<Rightarrow> ('m, 'k, 'e, 'w) dispatcher \<Rightarrow> 'm \<Rightarrow> 'e sml_event \<Rightarrow> ('m, 'w, bool) backp" where
  "sm_impl_process_event B disp m e =
     thenM (log_note B (log_process_event m e))
     (bindM (process_event_impl B disp m (get_generic_t (type_of_event (be_kind B) e)) e) (\<lambda>handled.
      thenM (void (process_internal_events B disp m anonymous)) (returnM handled)))"

text \<open>What runs in one state.\<close>

definition row_env_of ::
  "('m, 'k, 'e, 'w) backend \<Rightarrow> ('m, 'k, 'e, 'w) dispatcher \<Rightarrow> 'm \<Rightarrow> nat \<Rightarrow> ('m, 'e, 'w) row_env" where
  "row_env_of B disp m n =
     \<lparr>x_sm = m, x_log = log_note B, x_entry_exits = has_entry_exits B m,
      x_internal = process_internal_event B disp m n, x_update = update_current_state B m n\<rparr>"

definition state_execute ::
  "('m, 'k, 'e, 'w) backend \<Rightarrow> ('m, 'k, 'e, 'w) dispatcher \<Rightarrow> 'm \<Rightarrow> 'k event_type \<Rightarrow> 'e sml_event \<Rightarrow> nat \<Rightarrow> 'm back_state
    \<Rightarrow> ('m, 'w, bool) backp" where
  "state_execute B disp m k e n s =
     (let table = be_table B m;
          ts = get_state_mapping (get_event_mapping (mappings table) k) s;
          ex = (\<lambda>t. execute_row (row_env_of B disp m n) t e)
      in case s of
           sub_machine q \<Rightarrow> transitions_sub (is_terminated B q) (sm_impl_process_event B disp q) ex ts e
         | _ \<Rightarrow> transitions ex ts e)"

text \<open>Dispatch with a bound on the nesting of events and machines.\<close>

fun dispatch_event :: "('m, 'k, 'e, 'w) backend \<Rightarrow> nat \<Rightarrow> ('m, 'k, 'e, 'w) dispatcher" where
  "dispatch_event B 0 m k e n = throwM (Undefined ''nesting'')"
| "dispatch_event B (Suc d) m k e n =
     dispatch_by (be_policy B) (current_state m n)
       (map (state_execute B (dispatch_event B d) m k e n) (states_t (be_table B m)))"

section \<open>The public interface\<close>

text \<open>Constructing a machine: every machine of the pool is initialised, then the top one is started.\<close>

definition back_start :: "('m, 'k, 'e, 'w) backend \<Rightarrow> nat \<Rightarrow> 'm \<Rightarrow> ('m, 'w, unit) backp" where
  "back_start B d m =
     thenM (void (process_internal_events B (dispatch_event B d) m (on_entry initial_event)))
       (void (process_internal_events B (dispatch_event B d) m anonymous))"

definition back_new :: "('m, 'k, 'e, 'w) backend \<Rightarrow> nat \<Rightarrow> 'm \<Rightarrow> ('m, 'w, unit) backp" where
  "back_new B d m = thenM (modifyM (\<lambda>(p, w). (\<lambda>q. initialize B q p q, w))) (back_start B d m)"

definition back_process_event :: "('m, 'k, 'e, 'w) backend \<Rightarrow> nat \<Rightarrow> 'm \<Rightarrow> 'e \<Rightarrow> ('m, 'w, unit) backp" where
  "back_process_event B d m e = void (sm_impl_process_event B (dispatch_event B d) m (plain_event e))"

text \<open>\<^verbatim>\<open>is\<close> for the final state asks whether any region is there.\<close>

definition visit_current_states :: "('m, 'k, 'e, 'w) backend \<Rightarrow> 'm \<Rightarrow> 'm pool \<Rightarrow> 'm back_state list" where
  "visit_current_states B m p = map (\<lambda>c. states_t (be_table B m) ! c) (p m)"

definition back_is :: "('m, 'k, 'e, 'w) backend \<Rightarrow> 'm \<Rightarrow> 'm back_state \<Rightarrow> 'm pool \<Rightarrow> bool" where
  "back_is B m s p =
     (let ids = get_id (states_t (be_table B m)) in
      if s = terminate_state then list_ex (\<lambda>t. ids terminate_state = ids t) (visit_current_states B m p)
      else ids s = p m ! 0)"

section \<open>States and numbers\<close>

lemma unique_snoc: "unique (xs @ [x]) = (if x \<in> set (unique xs) then unique xs else unique xs @ [x])"
  by (simp add: unique_def)

lemma unique_facts [simp]: "set (unique xs) = set xs" "distinct (unique xs)"
proof -
  have "set (unique xs) = set xs \<and> distinct (unique xs)"
  proof (induction xs rule: rev_induct)
    case Nil
    show ?case by (simp add: unique_def)
  qed (simp add: unique_snoc insert_absorb)
  then show "set (unique xs) = set xs" "distinct (unique xs)" by simp_all
qed

lemma get_id_nth: "x \<in> set xs \<Longrightarrow> get_id xs x < length xs \<and> xs ! get_id xs x = x"
  by (induction xs) (auto simp: get_id_def)

lemma get_id_inj: "x \<in> set xs \<Longrightarrow> y \<in> set xs \<Longrightarrow> get_id xs x = get_id xs y \<Longrightarrow> x = y"
  by (metis get_id_nth)

section \<open>Grouped rows are the rows of the table\<close>

lemma map_of_extend:
  "map_of (map (\<lambda>(k', v'). if k' = k then (k', join v' v) else (k', v')) rs) x =
     (if x = k then map_option (\<lambda>v'. join v' v) (map_of rs k) else map_of rs x)"
  by (induction rs) auto

lemma unique_mappings_snoc:
  "unique_mappings join (ts @ [(k, v)]) =
     (let rs = unique_mappings join ts in
      if k \<in> fst ` set rs then map (\<lambda>(k', v'). if k' = k then (k', join v' v) else (k', v')) rs else (k, v) # rs)"
  by (simp add: unique_mappings_def Let_def)

lemma map_of_unique_mappings:
  "map_of (unique_mappings join ts) k =
     (case filter (\<lambda>x. fst x = k) ts of [] \<Rightarrow> None | x # xs \<Rightarrow> Some (foldl join (snd x) (map snd xs)))"
proof (induction ts rule: rev_induct)
  case (snoc t ts)
  obtain k' v where t: "t = (k', v)" by (cases t)
  have "k' \<in> fst ` set (unique_mappings join ts) \<longleftrightarrow> map_of (unique_mappings join ts) k' \<noteq> None"
    by (metis map_of_eq_None_iff)
  then show ?case
    using snoc.IH by (cases "filter (\<lambda>x. fst x = k) ts") (auto simp: t unique_mappings_snoc map_of_extend Let_def)
qed (simp add: unique_mappings_def)

lemma keys_extend: "map fst (map (\<lambda>(k', v'). if k' = k then (k', join v' v) else (k', v')) rs) = map fst rs"
  by (induction rs) auto

lemma distinct_unique_mappings: "distinct (map fst (unique_mappings join ts))"
proof (induction ts rule: rev_induct)
  case (snoc t ts)
  then show ?case by (cases t) (simp add: unique_mappings_snoc Let_def keys_extend del: map_map)
qed (simp add: unique_mappings_def)

lemma foldl_append: "foldl (@) xs xss = xs @ concat xss"
  by (induction xss arbitrary: xs) simp_all

lemma concat_map_of:
  "distinct (map fst r) \<Longrightarrow> concat (map snd (filter (\<lambda>x. fst x = s) r)) = (case map_of r s of None \<Rightarrow> [] | Some ts \<Rightarrow> ts)"
proof (induction r)
  case (Cons x r)
  have "\<forall>y \<in> set r. fst y \<noteq> fst x" using Cons.prems by (metis distinct.simps(2) image_eqI list.set_map list.simps(9))
  then have "filter (\<lambda>y. fst y = fst x) r = []" by (rule filter_False)
  then show ?case using Cons by (cases x) (auto split: option.splits)
qed simp

lemma get_state_mapping_join:
  assumes "distinct (map fst r)" and "distinct (map fst t)"
  shows "get_state_mapping (join_state_mappings r t) s = get_state_mapping r s @ get_state_mapping t s"
proof -
  have "get_state_mapping (join_state_mappings r t) s = concat (map snd (filter (\<lambda>x. fst x = s) (r @ t)))"
    by (simp add: get_state_mapping_def join_state_mappings_def map_of_unique_mappings foldl_append del: filter_append split: list.split)
  then show ?thesis
    using concat_map_of [OF assms(1), of s] concat_map_of [OF assms(2), of s] by (simp add: get_state_mapping_def)
qed

lemma foldl_join_rows:
  "distinct (map fst (foldl join_state_mappings [(r_src t, [t])] (map (\<lambda>t. [(r_src t, [t])]) ts)))
   \<and> get_state_mapping (foldl join_state_mappings [(r_src t, [t])] (map (\<lambda>t. [(r_src t, [t])]) ts)) s
       = filter (\<lambda>t. r_src t = s) (t # ts)"
proof (induction ts rule: rev_induct)
  case (snoc u ts)
  let ?r = "foldl join_state_mappings [(r_src t, [t])] (map (\<lambda>t. [(r_src t, [t])]) ts)"
  have "distinct (map fst (join_state_mappings ?r [(r_src u, [u])]))"
    by (simp add: join_state_mappings_def distinct_unique_mappings)
  moreover have "get_state_mapping (join_state_mappings ?r [(r_src u, [u])]) s
      = get_state_mapping ?r s @ get_state_mapping [(r_src u, [u])] s"
    using snoc.IH by (intro get_state_mapping_join) simp_all
  ultimately show ?case using snoc.IH by (simp add: get_state_mapping_def)
qed (simp add: get_state_mapping_def)

lemma map_of_mappings:
  "map_of (mappings table) k =
     (case filter (\<lambda>t. r_event t = k) table of
        [] \<Rightarrow> None
      | t # ts \<Rightarrow> Some (foldl join_state_mappings [(r_src t, [t])] (map (\<lambda>t. [(r_src t, [t])]) ts)))"
proof -
  have "filter (\<lambda>x. fst x = k) (map (\<lambda>t. (r_event t, [(r_src t, [t])])) table)
      = map (\<lambda>t. (r_event t, [(r_src t, [t])])) (filter (\<lambda>t. r_event t = k) table)"
    by (induction table) simp_all
  then show ?thesis by (simp add: mappings_def map_of_unique_mappings comp_def split: list.split)
qed

lemma mappings_rows:
  assumes "map_of (mappings table) k = Some r"
  shows "distinct (map fst r)" and "get_state_mapping r s = filter (\<lambda>t. r_event t = k \<and> r_src t = s) table"
proof -
  obtain t ts where ts: "filter (\<lambda>t. r_event t = k) table = t # ts"
      "r = foldl join_state_mappings [(r_src t, [t])] (map (\<lambda>t. [(r_src t, [t])]) ts)"
    using assms by (auto simp: map_of_mappings split: list.splits)
  show "distinct (map fst r)" using foldl_join_rows [of t ts] ts(2) by blast
  have "get_state_mapping r s = filter (\<lambda>t. r_src t = s) (filter (\<lambda>t. r_event t = k) table)"
    using foldl_join_rows [of t ts s] ts by simp
  then show "get_state_mapping r s = filter (\<lambda>t. r_event t = k \<and> r_src t = s) table"
    by (simp add: conj_commute)
qed

text \<open>
  Grouping loses and reorders nothing: the rows that the library finds for an event type and a
  state are those of the table with that event and source, in table order, followed by the rows
  declared for any event; but these are found only for ordinary events that have some row of their
  own in the table.
\<close>

lemma grouped_rows:
  "get_state_mapping (get_event_mapping (mappings table) k) s =
     filter (\<lambda>t. r_event t = k \<and> r_src t = s) table
     @ (if k \<in> r_event ` set table \<and> \<not> is_entry_exit k then filter (\<lambda>t. r_event t = any_event \<and> r_src t = s) table else [])"
proof (cases "map_of (mappings table) k")
  case None
  then have "filter (\<lambda>t. r_event t = k) table = []" by (auto simp: map_of_mappings split: list.splits)
  then show ?thesis using None by (auto simp: get_event_mapping_def get_state_mapping_def filter_empty_conv)
next
  case (Some r)
  then have k: "k \<in> r_event ` set table"
    by (auto simp: map_of_mappings filter_empty_conv image_iff split: list.splits dest!: filter_eq_ConsD)
  show ?thesis
  proof (cases "map_of (mappings table) any_event")
    case None
    then have "filter (\<lambda>t. r_event t = any_event) table = []" by (auto simp: map_of_mappings split: list.splits)
    then show ?thesis
      using Some None mappings_rows [OF Some] by (simp add: get_event_mapping_def filter_empty_conv)
  next
    case any: (Some t)
    show ?thesis
      using Some any k mappings_rows [OF Some] mappings_rows [OF any]
      by (simp add: get_event_mapping_def get_state_mapping_join)
  qed
qed

section \<open>The ways to dispatch agree\<close>

lemma bindM_getM: "bindM (getM c) f w = f (c w) w"
  by (simp add: bindM_def getM_def)

lemma bindM_run: "m w = (out, w') \<Longrightarrow> bindM m f w = (case out of Inl e \<Rightarrow> (Inl e, w') | Inr x \<Rightarrow> f x w')"
  by (simp add: bindM_def)

lemma branch_stm_eq:
  "branch_stm (getM c) N fs w = (if N \<le> c w \<and> c w < N + length fs then (fs ! (c w - N)) w else (Inr False, w))"
proof (induction fs arbitrary: N)
  case (Cons f fs)
  have "(f # fs) ! (c w - N) = fs ! (c w - Suc N)" if "Suc N \<le> c w"
    using that by (simp add: Suc_diff_le nth_Cons' flip: Suc_diff_Suc)
  then show ?case using Cons by (auto simp: bindM_def getM_def)
qed (auto simp: returnM_def)

lemma switch_stm_eq: "switch_stm (getM c) N fs = branch_stm (getM c) N fs"
proof (induction fs arbitrary: N)
  case (Cons f fs)
  then show ?case by (intro ext) (auto simp: bindM_def getM_def returnM_def split: bool.split)
qed simp

lemma fold_expr_past: "c w < N \<Longrightarrow> fold_expr (getM c) N fs w = (Inr False, w)"
  by (induction fs arbitrary: N) (auto simp: bindM_def getM_def returnM_def)

lemma fold_expr_eq:
  assumes "N \<le> c w" and "c w < N + length fs"
    and "\<And>w'. (fs ! (c w - N)) w = (Inr False, w') \<Longrightarrow> c w' = c w"
  shows "fold_expr (getM c) N fs w = (fs ! (c w - N)) w"
  using assms
proof (induction fs arbitrary: N)
  case (Cons f fs)
  show ?case
  proof (cases "c w = N")
    case True
    obtain out w' where run: "f w = (out, w')" by fastforce
    have "fold_expr (getM c) (Suc N) fs w' = (Inr False, w')" if "out = Inr False"
      using Cons.prems(3) [of w'] run that True by (intro fold_expr_past) simp
    then show ?thesis
      using True run by (cases out) (auto simp: bindM_assoc bindM_getM bindM_run returnM_def)
  next
    case False
    then have at: "(f # fs) ! (c w - N) = fs ! (c w - Suc N)"
      using Cons.prems(1) by (simp add: nth_Cons')
    have "fold_expr (getM c) (Suc N) fs w = (fs ! (c w - Suc N)) w"
    proof (rule Cons.IH)
      show "c w' = c w" if "(fs ! (c w - Suc N)) w = (Inr False, w')" for w'
        using Cons.prems(3) [of w'] that unfolding at .
    qed (use Cons.prems(1,2) False in simp_all)
    then show ?thesis
      unfolding at using False by (simp add: bindM_assoc bindM_getM)
  qed
next
  case Nil
  show ?case using Nil.prems(1,2) by simp
qed

text \<open>
  The program does not depend on the compiler: the table of functions that the library uses
  with Clang, the chain of comparisons it uses with GCC, the switch and the fold expression
  all run the code of the current state, and only that. The fold expression goes on comparing
  after code that reports the event as not handled, so it needs that such code leaves the current
  state as it is.
\<close>

lemma dispatch_policies_agree:
  assumes "c w < length fs" and "\<And>w'. (fs ! c w) w = (Inr False, w') \<Longrightarrow> c w' = c w"
  shows "dispatch_by policy (getM c) fs w = (fs ! c w) w"
proof (cases policy)
  case policy_fold_expr
  have "fold_expr (getM c) 0 fs w = (fs ! (c w - 0)) w"
    by (rule fold_expr_eq) (use assms in simp_all)
  then show ?thesis by (simp add: policy_fold_expr dispatch_by_def)
qed (use assms(1) branch_stm_eq [of c 0 fs w] in \<open>auto simp: dispatch_by_def jump_table_def switch_stm_eq bindM_def getM_def\<close>)

section \<open>Rows as the rows of the engine\<close>

text \<open>The value of a guard and the effect of an action, without a logger.\<close>

fun guard_value :: "'e guard_expr \<Rightarrow> 'e sml_event \<Rightarrow> bool" where
  "guard_value (guard_fun name g) = g"
| "guard_value (guard_and g h) = sml_and (guard_value g) (guard_value h)"
| "guard_value (guard_or g h) = sml_or (guard_value g) (guard_value h)"
| "guard_value (guard_not g) = sml_not (guard_value g)"

fun action_prog :: "('e, 'w) action_expr \<Rightarrow> 'e sml_event \<Rightarrow> ('w, unit) prog" where
  "action_prog (action_fun name a) = a"
| "action_prog (action_seq a b) = sml_seq (action_prog a) (action_prog b)"

definition row_guard :: "('m, 'k, 'e, 'w) back_row \<Rightarrow> 'e \<Rightarrow> bool" where
  "row_guard t e = (case r_guard t of None \<Rightarrow> True | Some g \<Rightarrow> guard_value g (plain_event e))"

definition row_action :: "('m, 'k, 'e, 'w) back_row \<Rightarrow> 'e \<Rightarrow> ('w, unit) prog" where
  "row_action t e = (case r_action t of None \<Rightarrow> returnM () | Some a \<Rightarrow> action_prog a (plain_event e))"

definition engine_row :: "('e \<Rightarrow> 'k) \<Rightarrow> ('m, 'k, 'e, 'w) back_row \<Rightarrow> ('m back_state, 'e, 'w) transition" where
  "engine_row kind t = \<lparr>t_src = r_src t, t_event = (\<lambda>e. r_event t = plain_t (kind e)), t_guard = row_guard t,
     t_action = row_action t, t_dst = r_dst t\<rparr>"

definition rename_row :: "('s \<Rightarrow> 't) \<Rightarrow> ('s, 'e, 'w) transition \<Rightarrow> ('t, 'e, 'w) transition" where
  "rename_row f t = \<lparr>t_src = f (t_src t), t_event = t_event t, t_guard = t_guard t, t_action = t_action t, t_dst = f (t_dst t)\<rparr>"

lemma select_rename:
  assumes "inj f"
  shows "select (map (rename_row f) table) (f s) e = map_option (rename_row f) (select table s e)"
  using assms by (induction table) (auto simp: enabled_def rename_row_def inj_eq)

text \<open>What a row does when its guard holds.\<close>

definition fire ::
  "('m, 'e, 'w) row_env \<Rightarrow> ('e \<Rightarrow> ('w, unit) prog) \<Rightarrow> 'm back_state \<Rightarrow> 'm back_state \<Rightarrow> 'e \<Rightarrow> ('m, 'w, unit) backp" where
  "fire x a src dst e =
     thenM (whenM (x_entry_exits x) (void (x_internal x (on_exit (plain_event e)))))
     (thenM (x_update x src dst)
     (thenM (on_world (a e))
       (whenM (x_entry_exits x) (void (x_internal x (on_entry (plain_event e)))))))"

lemma on_world_return: "on_world (returnM x) = returnM x"
  by (rule ext) (auto simp: on_world_def liftM_def returnM_def)

lemma on_world_then: "on_world (thenM m n) = thenM (on_world m) (on_world n)"
  by (rule ext) (auto simp: on_world_def liftM_def thenM_def bindM_def split: prod.split sum.split)

lemma thenM_return: "thenM (returnM x) m = m"
  by (simp add: thenM_def)

definition silent :: "(('m, 'e) log_entry \<Rightarrow> ('m, 'w, unit) backp) \<Rightarrow> bool" where
  "silent lg \<longleftrightarrow> lg = (\<lambda>_. returnM ())"

lemma silent_log_note: "be_logger B = None \<Longrightarrow> silent (log_note B)"
  by (rule ext | simp add: silent_def log_note_def)+

lemma call_guard_silent: "silent lg \<Longrightarrow> call_guard lg m g e = returnM (guard_value g e)"
  by (induction g) (simp_all add: silent_def thenM_return sml_and_def sml_or_def sml_not_def)

lemma call_action_silent: "silent lg \<Longrightarrow> call_action lg m a e = on_world (action_prog a e)"
  by (induction a) (simp_all add: silent_def thenM_return sml_seq_def on_world_then)

lemma execute_row_fire:
  assumes "r_dst t \<noteq> internal_state" and "silent (x_log x)"
  shows "execute_row x t (plain_event e) =
     (if row_guard t e then thenM (fire x (row_action t) (r_src t) (r_dst t) e) (returnM True) else returnM False)"
  using assms
  by (auto simp: execute_row_def row_guard_def row_action_def fire_def execute_guard_action_def execute_always_action_def
      execute_guard_none_def execute_always_none_def call_guard_silent call_action_silent on_world_return thenM_return
      thenM_def bindM_assoc split: option.split)

lemma transitions_find:
  assumes "\<forall>t \<in> set ts. r_dst t \<noteq> internal_state" and "silent (x_log x)"
  shows "transitions (\<lambda>t. execute_row x t (plain_event e)) ts (plain_event e) =
    (case List.find (\<lambda>t. row_guard t e) ts of
       None \<Rightarrow> returnM False | Some t \<Rightarrow> thenM (fire x (row_action t) (r_src t) (r_dst t) e) (returnM True))"
  using assms
proof (induction ts rule: induct_list012)
  case (3 t u ts)
  then show ?case by (simp add: execute_row_fire thenM_def bindM_assoc)
qed (simp_all add: execute_row_fire)

lemma find_filter: "List.find P (filter Q ts) = List.find (\<lambda>t. Q t \<and> P t) ts"
  by (induction ts) simp_all

lemma select_engine:
  "select (map (engine_row kind) ts) s e =
     map_option (engine_row kind) (List.find (\<lambda>t. (r_event t = plain_t (kind e) \<and> r_src t = s) \<and> row_guard t e) ts)"
  by (induction ts) (auto simp: enabled_def engine_row_def)

end
