(* ===== verification/Sml_Refinement.thy ===== *)
theory Sml_Refinement
  imports Sml_Backend
begin

text \<open>
  The back end of the state machine library implements the engine of \<open>Sml_Engine\<close>: for machines with
  one level of sub-machines, one region each, and internal rows only for the entry of a state, it
  runs the same guards and actions in the same order and reaches the same states, whatever the way to dispatch.
\<close>

section \<open>Dispatch on a current state\<close>

lemma dispatch_event_at:
  assumes "p m ! n = get_id (states_t (be_table B m)) s" and "s \<in> set (states_t (be_table B m))"
    and "\<And>w'. state_execute B (dispatch_event B d) m k e n s (p, w) = (Inr False, w') \<Longrightarrow> fst w' m ! n = p m ! n"
  shows "dispatch_event B (Suc d) m k e n (p, w) = state_execute B (dispatch_event B d) m k e n s (p, w)"
proof -
  let ?states = "states_t (be_table B m)"
  let ?fs = "map (state_execute B (dispatch_event B d) m k e n) ?states"
  have at: "p m ! n < length ?fs" "?fs ! (p m ! n) = state_execute B (dispatch_event B d) m k e n s"
    using get_id_nth [OF assms(2)] by (simp_all add: assms(1))
  have "dispatch_by (be_policy B) (getM (\<lambda>(p, w). p m ! n)) ?fs (p, w) = (?fs ! (case (p, w) of (p, w) \<Rightarrow> p m ! n)) (p, w)"
    by (rule dispatch_policies_agree) (use at assms(3) in \<open>auto split: prod.splits\<close>)
  then show ?thesis using at(2) by (simp add: current_state_def)
qed

text \<open>The rows for an ordinary event.\<close>

definition plain_table :: "('m, 'k, 'e, 'w) back_table \<Rightarrow> bool" where
  "plain_table table \<longleftrightarrow> (\<forall>t \<in> set table.
     if r_dst t = internal_state then r_event t = on_entry_any else \<exists>k. r_event t = plain_t k)"

lemma plain_rows:
  assumes "plain_table table"
  shows "get_state_mapping (get_event_mapping (mappings table) (plain_t k)) s =
      filter (\<lambda>t. r_event t = plain_t k \<and> r_src t = s) (filter (\<lambda>t. r_dst t \<noteq> internal_state) table)"
    and "get_state_mapping (get_event_mapping (mappings table) on_entry_any) s =
      filter (\<lambda>t. r_event t = on_entry_any \<and> r_src t = s) table"
    and "anonymous_t \<notin> r_event ` set table" "on_exit_t j \<notin> r_event ` set table" "on_exit_any \<notin> r_event ` set table"
      "on_entry_t j \<notin> r_event ` set table"
proof -
  have any: "filter (\<lambda>t. r_event t = any_event \<and> r_src t = s) table = []"
    using assms by (auto simp: plain_table_def filter_empty_conv split: if_splits)
  have "filter (\<lambda>t. r_event t = plain_t k \<and> r_src t = s) table
      = filter (\<lambda>t. (r_event t = plain_t k \<and> r_src t = s) \<and> r_dst t \<noteq> internal_state) table"
    using assms by (intro filter_cong) (auto simp: plain_table_def)
  then show "get_state_mapping (get_event_mapping (mappings table) (plain_t k)) s =
      filter (\<lambda>t. r_event t = plain_t k \<and> r_src t = s) (filter (\<lambda>t. r_dst t \<noteq> internal_state) table)"
    unfolding grouped_rows any by (simp add: conj_ac)
  show "get_state_mapping (get_event_mapping (mappings table) on_entry_any) s =
      filter (\<lambda>t. r_event t = on_entry_any \<and> r_src t = s) table"
    by (simp add: grouped_rows)
  show "anonymous_t \<notin> r_event ` set table" "on_exit_t j \<notin> r_event ` set table" "on_exit_any \<notin> r_event ` set table"
      "on_entry_t j \<notin> r_event ` set table"
    using assms by (fastforce simp: plain_table_def split: if_splits)+
qed

lemma no_internal_events:
  assumes "plain_table (be_table B q)" and "\<forall>t \<in> set (be_table B q). r_dst t \<noteq> internal_state \<and> (\<forall>q'. r_src t \<noteq> sub_machine q')"
  shows "sub_internal_events B d q = []"
proof (cases d)
  case (Suc d')
  have "\<exists>k. r_event t = plain_t k" if "t \<in> set (be_table B q)" for t
    using assms that by (auto simp: plain_table_def)
  then show ?thesis
    using assms(2) by (fastforce simp: Suc is_internal_event_def split: back_state.splits)
qed simp

lemma events_rows:
  assumes "\<And>t q d. t \<in> set (be_table B m) \<Longrightarrow> r_src t = sub_machine q \<Longrightarrow> sub_internal_events B d q = []"
  shows "set (events_t B m) = r_event ` set (be_table B m)"
proof -
  have "set (sub_internal_events B d m) \<subseteq> r_event ` set (be_table B m)" for d
    using assms by (cases d) (auto split: back_state.splits if_splits)
  then show ?thesis by (auto simp: events_t_def)
qed

lemma plain_transitions:
  assumes "plain_table table" and "silent (x_log x)"
  shows "transitions (\<lambda>t. execute_row x t (plain_event e))
      (get_state_mapping (get_event_mapping (mappings table) (plain_t (kind e))) s) (plain_event e) =
    (case select (map (engine_row kind) (filter (\<lambda>t. r_dst t \<noteq> internal_state) table)) s e of
       None \<Rightarrow> returnM False | Some t \<Rightarrow> thenM (fire x (t_action t) (t_src t) (t_dst t) e) (returnM True))"
proof -
  have "\<forall>t \<in> set (filter (\<lambda>t. r_event t = plain_t (kind e) \<and> r_src t = s) (filter (\<lambda>t. r_dst t \<noteq> internal_state) table)).
      r_dst t \<noteq> internal_state" by simp
  from transitions_find [where x = x and e = e, OF this assms(2)] show ?thesis
    unfolding plain_rows(1) [OF assms(1)] select_engine find_filter
    by (simp add: engine_row_def case_map_option split: option.split)
qed

section \<open>The relation\<close>

text \<open>
  The pool holds, for the top machine and for the sub-machine of every composite state, the number
  of the state that the engine is in.
\<close>

definition pool_rel ::
  "('m, 'k, 'e, 'w) backend \<Rightarrow> 'm \<Rightarrow> ('s \<Rightarrow> 'm back_state) \<Rightarrow> ('a \<Rightarrow> 'm back_state) \<Rightarrow> 'm pool \<Rightarrow> ('s, 'a) sm \<Rightarrow> bool" where
  "pool_rel B main nm ns p s \<longleftrightarrow>
     p main = [get_id (states_t (be_table B main)) (nm (sm_state s))]
     \<and> (\<forall>m q. nm m = sub_machine q \<longrightarrow>
          p q = [get_id (states_t (be_table B q)) (ns (sm_subs s m))] \<and> ns (sm_subs s m) \<in> set (states_t (be_table B q)))"

locale two_level =
  fixes B :: "('m, 'k, 'e, 'w) backend" and main :: 'm and M :: "('s, 'a, 'e, 'w) machine"
    and nm :: "'s \<Rightarrow> 'm back_state" and ns :: "'a \<Rightarrow> 'm back_state"
  assumes no_logger: "be_logger B = None"
    and inj_nm: "inj nm" and inj_ns: "inj ns" and ns_plain: "ns a \<noteq> sub_machine q"
    and main_plain: "plain_table (be_table B main)"
    and main_rows: "map (engine_row (be_kind B)) (filter (\<lambda>t. r_dst t \<noteq> internal_state) (be_table B main))
        = map (rename_row nm) (mc_table M)"
    and main_sources: "t \<in> set (be_table B main) \<Longrightarrow> r_src t \<in> range nm"
    and main_states: "nm m \<in> set (states_t (be_table B main))"
    and main_initial: "initial_states_t (be_table B main) = [nm (mc_init M)]"
    and initial_plain: "mc_sub M (mc_init M) = None"
        "filter (\<lambda>t. r_event t = on_entry_any \<and> r_src t = nm (mc_init M)) (be_table B main) = []"
    and entry: "mc_sub M m = None \<Longrightarrow>
        (filter (\<lambda>t. r_event t = on_entry_any \<and> r_src t = nm m) (be_table B main) = [] \<and> mc_entry M m = returnM ())
        \<or> (\<exists>t a. filter (\<lambda>t. r_event t = on_entry_any \<and> r_src t = nm m) (be_table B main) = [t] \<and> r_dst t = internal_state
             \<and> r_guard t = None \<and> r_action t = Some a \<and> (\<forall>e. action_prog a e = mc_entry M m))"
    and not_sub: "mc_sub M m = None \<Longrightarrow> nm m \<noteq> sub_machine q"
    and sub_entry: "mc_sub M m = Some ti \<Longrightarrow>
        mc_entry M m = returnM () \<and> filter (\<lambda>t. r_event t = on_entry_any \<and> r_src t = nm m) (be_table B main) = []"
    and sub_name: "mc_sub M m = Some ti \<Longrightarrow> \<exists>q. nm m = sub_machine q"
    and sub_tables: "mc_sub M m = Some (table, i) \<Longrightarrow> nm m = sub_machine q \<Longrightarrow>
        q \<noteq> main \<and> map (engine_row (be_kind B)) (be_table B q) = map (rename_row ns) table
        \<and> initial_states_t (be_table B q) = [ns i] \<and> \<not> has_history_states (be_table B q)
        \<and> (\<forall>t \<in> set (be_table B q). r_dst t \<noteq> internal_state) \<and> plain_table (be_table B q)"
begin

abbreviation rel :: "'m pool \<Rightarrow> ('s, 'a) sm \<Rightarrow> bool" where
  "rel \<equiv> pool_rel B main nm ns"

abbreviation ids :: "'m \<Rightarrow> 'm back_state \<Rightarrow> nat" where
  "ids m \<equiv> get_id (states_t (be_table B m))"

text \<open>Without a logger nothing is noted.\<close>

lemma log_note_none: "log_note B l = returnM ()"
  by (rule ext) (simp add: log_note_def no_logger)

lemma silent_env: "silent (x_log (row_env_of B disp m n))"
  by (simp add: row_env_of_def silent_log_note no_logger)

lemma env_sel:
  "x_entry_exits (row_env_of B disp m n) = has_entry_exits B m"
  "x_internal (row_env_of B disp m n) = process_internal_event B disp m n"
  "x_update (row_env_of B disp m n) = update_current_state B m n"
  by (simp_all add: row_env_of_def)

text \<open>The library's own events that a machine has no rows for do nothing.\<close>

lemma sub_internal:
  assumes "mc_sub M m = Some (table, i)" and "nm m = sub_machine q"
  shows "sub_internal_events B d q = []"
proof (rule no_internal_events)
  note q = sub_tables [OF assms]
  show "plain_table (be_table B q)" using q by simp
  have "\<forall>q'. r_src t \<noteq> sub_machine q'" if "t \<in> set (be_table B q)" for t
  proof -
    have "engine_row (be_kind B) t \<in> set (map (rename_row ns) table)"
      using q that by (metis image_eqI list.set_map)
    then show ?thesis using ns_plain [symmetric] by (auto simp: rename_row_def engine_row_def)
  qed
  then show "\<forall>t \<in> set (be_table B q). r_dst t \<noteq> internal_state \<and> (\<forall>q'. r_src t \<noteq> sub_machine q')"
    using q by blast
qed

lemma main_events: "set (events_t B main) = r_event ` set (be_table B main)"
proof (rule events_rows)
  fix t q d
  assume t: "t \<in> set (be_table B main)" and src: "r_src t = sub_machine q"
  obtain m where m: "nm m = sub_machine q" using main_sources [OF t] src by auto
  then obtain ti where "mc_sub M m = Some ti" using not_sub by (cases "mc_sub M m") auto
  then show "sub_internal_events B d q = []" using sub_internal [of m "fst ti" "snd ti"] m by simp
qed

lemma sub_events:
  assumes "mc_sub M m = Some (table, i)" and "nm m = sub_machine q"
  shows "set (events_t B q) = r_event ` set (be_table B q)"
proof -
  have "sub_internal_events B (be_nesting B) q = []" by (rule sub_internal [OF assms])
  then show ?thesis by (simp add: events_t_def)
qed

lemma internal_none:
  assumes "plain_table (be_table B m)" and "set (events_t B m) = r_event ` set (be_table B m)"
  shows "internal_key B m anonymous = None" "internal_key B m (on_exit e) = None"
  using plain_rows(3-) [OF assms(1)] assms(2) by (auto simp: internal_key_def Let_def split: option.split)

lemma internal_entry:
  assumes "plain_table (be_table B m)" and "set (events_t B m) = r_event ` set (be_table B m)"
  shows "internal_key B m (on_entry e) = (if on_entry_any \<in> set (events_t B m) then Some on_entry_any else None)"
  using plain_rows(6) [OF assms(1)] assms(2) by (simp add: internal_key_def)

lemma process_one_region:
  assumes "plain_table (be_table B m)" and "length (initial_states_t (be_table B m)) = 1"
    and "set (events_t B m) = r_event ` set (be_table B m)"
  shows "sm_impl_process_event B disp m e = disp m (get_generic_t (type_of_event (be_kind B) e)) e 0"
  using internal_none(1) [OF assms(1,3)] assms(2)
  by (intro ext) (simp add: sm_impl_process_event_def log_note_none process_event_impl_def regions_def process_internal_events_def void_def
      bindM_def thenM_def returnM_def split: prod.split sum.split)

lemma select_top:
  "select (map (engine_row (be_kind B)) (filter (\<lambda>t. r_dst t \<noteq> internal_state) (be_table B main))) (nm m) e
     = map_option (rename_row nm) (select (mc_table M) m e)"
  unfolding main_rows by (rule select_rename [OF inj_nm])

end

section \<open>Running a program of the world beside a new pool\<close>

definition with_pool :: "'m pool \<Rightarrow> ('w, 'a) prog \<Rightarrow> 'w \<Rightarrow> (exn + 'a) \<times> ('m pool \<times> 'w)" where
  "with_pool p m w = (case m w of (r, w') \<Rightarrow> (r, (p, w')))"

lemma on_world_at: "on_world m (p, w) = with_pool p m w"
  by (simp add: on_world_def with_pool_def liftM_def)

lemma set_current_state_at: "p m = [c] \<Longrightarrow> set_current_state m 0 i (p, w) = (Inr (), (p(m := [i]), w))"
  by (simp add: set_current_state_def modifyM_def)

lemma thenM_at: "m w = (Inr x, w') \<Longrightarrow> thenM m n w = n w'"
  by (simp add: thenM_def bindM_def)

lemma with_pool_then:
  assumes "m (p, w) = with_pool p' a w" and "\<And>w'. n (p', w') = with_pool p' b w'"
  shows "thenM m n (p, w) = with_pool p' (thenM a b) w"
  using assms by (auto simp: thenM_def bindM_def with_pool_def split: prod.split sum.split)

lemma with_pool_return: "returnM x (p, w) = with_pool p (returnM x) w"
  by (simp add: with_pool_def returnM_def)

lemma state_execute_plain:
  assumes "\<forall>q. s \<noteq> sub_machine q"
  shows "state_execute B disp m k e n s =
    transitions (\<lambda>t. execute_row (row_env_of B disp m n) t e) (get_state_mapping (get_event_mapping (mappings (be_table B m)) k) s) e"
  using assms by (cases s) (simp_all add: state_execute_def Let_def)

context two_level begin

section \<open>One event in a sub-machine\<close>

lemma no_entry_exits:
  assumes "mc_sub M m = Some (table, i)" and "nm m = sub_machine q"
  shows "\<not> has_entry_exits B q"
  using sub_tables [OF assms] sub_events [OF assms]
  by (fastforce simp: has_entry_exits_def list_ex_iff plain_table_def)

lemma sub_select:
  assumes "mc_sub M m = Some (table, i)" and "nm m = sub_machine q"
  shows "select (map (engine_row (be_kind B)) (filter (\<lambda>t. r_dst t \<noteq> internal_state) (be_table B q))) (ns a) e
    = map_option (rename_row ns) (select table a e)"
proof -
  have "filter (\<lambda>t. r_dst t \<noteq> internal_state) (be_table B q) = be_table B q"
    using sub_tables [OF assms] by (simp add: filter_id_conv)
  then show ?thesis using sub_tables [OF assms] select_rename [OF inj_ns, of table a e] by simp
qed

lemma sub_dst:
  assumes "mc_sub M m = Some (table, i)" and "nm m = sub_machine q" and "select table a e = Some t"
  shows "ns (t_dst t) \<in> set (states_t (be_table B q))"
proof -
  have "rename_row ns t \<in> set (map (engine_row (be_kind B)) (be_table B q))"
    using select_Some [OF assms(3)] sub_tables [OF assms(1,2)] by auto
  then obtain u where "u \<in> set (be_table B q)" "r_dst u = ns (t_dst t)"
    by (auto simp: rename_row_def engine_row_def)
  then have "r_dst u \<in> set (states_t (be_table B q))" by (force simp: states_t_def)
  then show ?thesis using \<open>r_dst u = ns (t_dst t)\<close> by simp
qed

lemma sub_fire:
  assumes "mc_sub M m = Some (table, i)" and "nm m = sub_machine q" and "p q = [c]"
  shows "fire (row_env_of B disp q 0) act src (ns b) e (p, w) = with_pool (p(q := [ids q (ns b)])) (act e) w"
proof -
  have upd: "update_current_state B q 0 src (ns b) = set_current_state q 0 (ids q (ns b))"
    using ns_plain [of b] by (intro ext) (auto simp: update_current_state_def log_note_none thenM_def bindM_def returnM_def
        split: back_state.split prod.split sum.split)
  show ?thesis
    using no_entry_exits [OF assms(1,2)] assms(3)
    by (simp add: fire_def env_sel whenM_def thenM_return upd thenM_def bindM_def returnM_def set_current_state_at
        on_world_at with_pool_def split: prod.split sum.split)
qed

lemma sub_step:
  assumes "mc_sub M m = Some (table, i)" and "nm m = sub_machine q"
    and "p q = [ids q (ns a)]" and "ns a \<in> set (states_t (be_table B q))"
  shows "sm_impl_process_event B (dispatch_event B (Suc d)) q (plain_event e) (p, w) =
    (case select table a e of
       None \<Rightarrow> (Inr False, (p, w))
     | Some t \<Rightarrow> with_pool (p(q := [ids q (ns (t_dst t))])) (thenM (t_action t e) (returnM True)) w)"
proof -
  note q = sub_tables [OF assms(1,2)]
  have pt: "plain_table (be_table B q)" using q by simp
  have run: "state_execute B (dispatch_event B d) q (plain_t (be_kind B e)) (plain_event e) 0 (ns a) (p, w) =
      (case select table a e of
         None \<Rightarrow> (Inr False, (p, w))
       | Some t \<Rightarrow> with_pool (p(q := [ids q (ns (t_dst t))])) (thenM (t_action t e) (returnM True)) w)"
    using ns_plain pt
    by (cases "select table a e")
      (auto simp: state_execute_plain plain_transitions silent_env sub_select [OF assms(1,2)] rename_row_def returnM_def [of False] simp del: map_map
        intro!: with_pool_then sub_fire [where p = p, OF assms(1,2,3)] with_pool_return)
  have "dispatch_event B (Suc d) q (plain_t (be_kind B e)) (plain_event e) 0 (p, w)
      = state_execute B (dispatch_event B d) q (plain_t (be_kind B e)) (plain_event e) 0 (ns a) (p, w)"
    by (rule dispatch_event_at)
      (use assms(3,4) in \<open>auto simp: run with_pool_def thenM_def bindM_def returnM_def split: option.splits prod.splits sum.splits\<close>)
  then show ?thesis using process_one_region [of q] q sub_events [OF assms(1,2)] run by simp
qed

text \<open>An entry event passes through a sub-machine without effect.\<close>

lemma sub_entry_step:
  assumes "mc_sub M m = Some (table, i)" and "nm m = sub_machine q"
    and "p q = [ids q (ns a)]" and "ns a \<in> set (states_t (be_table B q))"
  shows "sm_impl_process_event B (dispatch_event B (Suc d)) q (on_entry e) (p, w) = (Inr False, (p, w))"
proof -
  note q = sub_tables [OF assms(1,2)]
  have "filter (\<lambda>t. r_event t = on_entry_any \<and> r_src t = ns a) (be_table B q) = []"
    using q by (auto simp: plain_table_def filter_empty_conv)
  then have run: "state_execute B (dispatch_event B d) q on_entry_any (on_entry e) 0 (ns a) (p, w) = (Inr False, (p, w))"
    using ns_plain q by (simp add: state_execute_plain plain_rows(2) returnM_def)
  have "dispatch_event B (Suc d) q on_entry_any (on_entry e) 0 (p, w)
      = state_execute B (dispatch_event B d) q on_entry_any (on_entry e) 0 (ns a) (p, w)"
    by (rule dispatch_event_at) (use assms(3,4) in \<open>auto simp: run\<close>)
  then show ?thesis using process_one_region [of q] q sub_events [OF assms(1,2)] run by simp
qed

section \<open>One event in the main machine\<close>

definition entered :: "'m pool \<Rightarrow> 's \<Rightarrow> 'm pool" where
  "entered p m =
     (case (mc_sub M m, nm m) of
        (Some (table, i), sub_machine q) \<Rightarrow> p(main := [ids main (nm m)], q := [ids q (ns i)])
      | _ \<Rightarrow> p(main := [ids main (nm m)]))"

lemma sub_initial:
  assumes "mc_sub M m = Some (table, i)" and "nm m = sub_machine q"
  shows "ns i \<in> set (states_t (be_table B q))"
proof -
  have "ns i \<in> set (initial_states_t (be_table B q))" using sub_tables [OF assms] by simp
  then show ?thesis by (auto simp: initial_states_t_def states_t_def)
qed

lemma update_main:
  assumes "p main = [c]"
  shows "update_current_state B main 0 src (nm m) (p, w) = (Inr (), (entered p m, w))"
proof (cases "mc_sub M m")
  case None
  then show ?thesis
    using not_sub [of m] assms
    by (auto simp: update_current_state_def log_note_none entered_def thenM_def bindM_def returnM_def set_current_state_at split: back_state.split)
next
  case (Some ti)
  obtain table i where ti: "ti = (table, i)" by (cases ti)
  obtain q where q: "nm m = sub_machine q" using sub_name [OF Some] by blast
  note tables = sub_tables [OF Some [unfolded ti] q]
  show ?thesis
    using Some ti q tables assms
    by (simp add: update_current_state_def log_note_none entered_def thenM_def bindM_def modifyM_def set_current_state_at
        update_composite_states_def initialize_def)
qed

lemma entered_at:
  "entered p m main = [ids main (nm m)]"
  "mc_sub M m = Some (table, i) \<Longrightarrow> nm m = sub_machine q \<Longrightarrow> entered p m q = [ids q (ns i)]"
proof -
  show "mc_sub M m = Some (table, i) \<Longrightarrow> nm m = sub_machine q \<Longrightarrow> entered p m q = [ids q (ns i)]"
    by (simp add: entered_def)
  show "entered p m main = [ids main (nm m)]"
    using sub_tables [of m] by (auto simp: entered_def split: option.split back_state.split)
qed

lemma entry_run:
  "state_execute B (dispatch_event B (Suc d)) main on_entry_any (on_entry e) 0 (nm m) (entered p m, w)
     = with_pool (entered p m) (thenM (mc_entry M m) (returnM (mc_sub M m \<noteq> None
         \<or> filter (\<lambda>t. r_event t = on_entry_any \<and> r_src t = nm m) (be_table B main) \<noteq> []))) w"
proof (cases "mc_sub M m")
  case None
  have st: "\<forall>q. nm m \<noteq> sub_machine q" using not_sub [OF None] by blast
  show ?thesis
  proof (cases "filter (\<lambda>t. r_event t = on_entry_any \<and> r_src t = nm m) (be_table B main)")
    case Nil
    then have "mc_entry M m = returnM ()" using entry [OF None] by auto
    then show ?thesis
      using None Nil by (simp add: state_execute_plain [OF st] plain_rows(2) [OF main_plain] thenM_return with_pool_return)
  next
    case (Cons u us)
    then obtain t a where t: "filter (\<lambda>t. r_event t = on_entry_any \<and> r_src t = nm m) (be_table B main) = [t]"
        "r_dst t = internal_state" "r_guard t = None" "r_action t = Some a" "\<forall>e. action_prog a e = mc_entry M m"
      using entry [OF None] by auto
    then show ?thesis
      using None by (simp add: state_execute_plain [OF st] plain_rows(2) [OF main_plain] execute_row_def
          execute_internal_always_action_def call_action_silent silent_env with_pool_then on_world_at with_pool_return)
  qed
next
  case (Some ti)
  obtain table i where ti: "ti = (table, i)" by (cases ti)
  obtain q where q: "nm m = sub_machine q" using sub_name [OF Some] by blast
  have "sm_impl_process_event B (dispatch_event B (Suc d)) q (on_entry e) (entered p m, w) = (Inr False, (entered p m, w))"
    by (rule sub_entry_step [where p = "entered p m"])
      (rule Some [unfolded ti] q entered_at(2) sub_initial)+
  then show ?thesis
    using sub_entry [OF Some] Some q
    by (simp add: state_execute_def Let_def plain_rows(2) [OF main_plain] transitions_sub_def thenM_return thenM_def
        bindM_def returnM_def with_pool_def)
qed

lemma main_entry_exits: "has_entry_exits B main \<longleftrightarrow> on_entry_any \<in> set (events_t B main)"
proof -
  have "is_entry_exit (r_event t) \<longleftrightarrow> r_event t = on_entry_any" if "t \<in> set (be_table B main)" for t
    using main_plain that by (auto simp: plain_table_def split: if_splits)
  then show ?thesis by (auto simp: has_entry_exits_def main_events list_ex_iff image_iff) metis+
qed

lemma entry_event:
  "whenM (has_entry_exits B main)
      (void (process_internal_event B (dispatch_event B (Suc (Suc d))) main 0 (on_entry e))) (entered p m, w)
    = with_pool (entered p m) (mc_entry M m) w"
proof (cases "on_entry_any \<in> set (events_t B main)")
  case False
  then have "filter (\<lambda>t. r_event t = on_entry_any \<and> r_src t = nm m) (be_table B main) = []"
    by (auto simp: main_events filter_empty_conv image_iff)
  then have "mc_entry M m = returnM ()" using entry [of m] sub_entry [of m] by (cases "mc_sub M m") auto
  then show ?thesis using False by (simp add: main_entry_exits whenM_def with_pool_return)
next
  case True
  have "dispatch_event B (Suc (Suc d)) main on_entry_any (on_entry e) 0 (entered p m, w)
      = state_execute B (dispatch_event B (Suc d)) main on_entry_any (on_entry e) 0 (nm m) (entered p m, w)"
    by (rule dispatch_event_at)
      (use entered_at(1) main_states in \<open>auto simp: entry_run with_pool_def split: prod.splits\<close>)
  then show ?thesis
    using True main_plain
    by (simp add: main_entry_exits whenM_def process_internal_event_def log_note_none thenM_return internal_entry main_events entry_run void_def)
      (simp add: bindM_def thenM_def returnM_def with_pool_def split: prod.split sum.split)
qed

lemma main_fire:
  assumes "p main = [c]"
  shows "fire (row_env_of B (dispatch_event B (Suc (Suc d))) main 0)
      act src (nm m) e (p, w) = with_pool (entered p m) (thenM (act e) (mc_entry M m)) w"
proof -
  have exits: "whenM b (void (process_internal_event B disp main 0 (on_exit f))) = returnM ()" for b disp f
    using internal_none(2) [OF main_plain main_events] by (simp add: whenM_def void_def process_internal_event_def)
  have upd: "thenM (update_current_state B main 0 src (nm m)) n (p, w) = n (entered p m, w)" for n :: "('m, 'w, unit) backp"
    by (simp add: thenM_def bindM_def update_main [where p = p, OF assms])
  show ?thesis
    unfolding fire_def env_sel exits thenM_return upd
    by (rule with_pool_then) (simp_all add: on_world_at entry_event)
qed

text \<open>The rows of the main machine for an event.\<close>

lemma main_transitions:
  assumes "p main = [c]"
  shows "transitions (\<lambda>t. execute_row (row_env_of B (dispatch_event B (Suc (Suc d))) main 0) t (plain_event e))
      (get_state_mapping (get_event_mapping (mappings (be_table B main)) (plain_t (be_kind B e))) (nm m)) (plain_event e) (p, w) =
    (case select (mc_table M) m e of
       None \<Rightarrow> (Inr False, (p, w))
     | Some t \<Rightarrow> with_pool (entered p (t_dst t)) (thenM (thenM (t_action t e) (mc_entry M (t_dst t))) (returnM True)) w)"
  unfolding plain_transitions [OF main_plain silent_env] select_top
  by (cases "select (mc_table M) m e")
    (auto simp: rename_row_def returnM_def [of False] intro!: with_pool_then main_fire [where p = p, OF assms] with_pool_return)

lemma sub_not_main: "nm m = sub_machine q \<Longrightarrow> q \<noteq> main"
proof (cases "mc_sub M m")
  case (Some ti)
  then show "nm m = sub_machine q \<Longrightarrow> q \<noteq> main"
    using sub_tables [of m "fst ti" "snd ti" q] by simp
qed (simp add: not_sub)

lemma sub_inj: "nm m = sub_machine q \<Longrightarrow> nm m' = sub_machine q \<Longrightarrow> m' = m"
  using inj_nm by (metis injD)

lemma relD:
  "rel p s \<Longrightarrow> p main = [ids main (nm (sm_state s))]"
  "rel p s \<Longrightarrow> nm m = sub_machine q \<Longrightarrow> p q = [ids q (ns (sm_subs s m))] \<and> ns (sm_subs s m) \<in> set (states_t (be_table B q))"
  by (auto simp: pool_rel_def)

lemma relI:
  assumes "p main = [ids main (nm (sm_state s))]"
    and "\<And>m q. nm m = sub_machine q \<Longrightarrow> p q = [ids q (ns (sm_subs s m))] \<and> ns (sm_subs s m) \<in> set (states_t (be_table B q))"
  shows "rel p s"
  using assms unfolding pool_rel_def by blast

lemma rel_sub:
  assumes "rel p s" and "nm m = sub_machine q" and "ns a \<in> set (states_t (be_table B q))"
  shows "rel (p(q := [ids q (ns a)])) (s\<lparr>sm_subs := (sm_subs s)(m := a)\<rparr>)"
proof (rule relI)
  show "(p(q := [ids q (ns a)])) main = [ids main (nm (sm_state (s\<lparr>sm_subs := (sm_subs s)(m := a)\<rparr>)))]"
    using relD(1) [OF assms(1)] sub_not_main [OF assms(2)] by simp
  fix m' q'
  assume q': "nm m' = sub_machine q'"
  show "(p(q := [ids q (ns a)])) q' = [ids q' (ns (sm_subs (s\<lparr>sm_subs := (sm_subs s)(m := a)\<rparr>) m'))]
      \<and> ns (sm_subs (s\<lparr>sm_subs := (sm_subs s)(m := a)\<rparr>) m') \<in> set (states_t (be_table B q'))"
  proof (cases "m' = m")
    case True
    then show ?thesis using q' assms(2,3) by simp
  next
    case False
    then have "q' \<noteq> q" using sub_inj [OF assms(2)] q' by blast
    then show ?thesis using relD(2) [OF assms(1) q'] False by simp
  qed
qed

lemma rel_state:
  assumes "rel p s"
  shows "rel (p(main := [ids main (nm m)])) (s\<lparr>sm_state := m\<rparr>)"
proof (rule relI)
  fix m' q'
  assume q': "nm m' = sub_machine q'"
  show "(p(main := [ids main (nm m)])) q' = [ids q' (ns (sm_subs (s\<lparr>sm_state := m\<rparr>) m'))]
      \<and> ns (sm_subs (s\<lparr>sm_state := m\<rparr>) m') \<in> set (states_t (be_table B q'))"
    using relD(2) [OF assms q'] sub_not_main [OF q'] by simp
qed simp

lemma rel_entered:
  assumes "rel p s"
  shows "rel (entered p m) (enter M m s)"
proof (cases "mc_sub M m")
  case None
  then show ?thesis using rel_state [OF assms, of m] by (simp add: entered_def enter_def)
next
  case (Some ti)
  obtain table i where ti: "mc_sub M m = Some (table, i)" using Some by (cases ti) simp
  obtain q where q: "nm m = sub_machine q" using sub_name [OF Some] by blast
  have "rel (p(main := [ids main (nm m)], q := [ids q (ns i)])) (s\<lparr>sm_state := m, sm_subs := (sm_subs (s\<lparr>sm_state := m\<rparr>))(m := i)\<rparr>)"
    using rel_sub [OF rel_state [OF assms, of m] q sub_initial [OF ti q]] by simp
  then show ?thesis by (simp add: entered_def enter_def ti q)
qed


definition main_out :: "'m pool \<Rightarrow> 's \<Rightarrow> 'e \<Rightarrow> 'w \<Rightarrow> (exn + bool) \<times> ('m pool \<times> 'w)" where
  "main_out p m e w =
     (case select (mc_table M) m e of
        None \<Rightarrow> (Inr False, (p, w))
      | Some t \<Rightarrow> with_pool (entered p (t_dst t)) (thenM (thenM (t_action t e) (mc_entry M (t_dst t))) (returnM True)) w)"

text \<open>Same outcome and world, and on return a related state.\<close>

definition agrees :: "(exn + ('s, 'a) sm) \<times> 'w \<Rightarrow> (exn + bool) \<times> ('m pool \<times> 'w) \<Rightarrow> bool" where
  "agrees r out \<longleftrightarrow>
     (case r of
        (Inl x, w') \<Rightarrow> (\<exists>p'. out = (Inl x, (p', w')))
      | (Inr s', w') \<Rightarrow> (\<exists>p' b. out = (Inr b, (p', w')) \<and> rel p' s'))"

lemma with_pool_True: "with_pool p (thenM m (returnM True)) w \<noteq> (Inr False, x)"
  by (auto simp: with_pool_def thenM_def bindM_def returnM_def split: prod.splits sum.splits)

lemma thenM_run: "thenM m (returnM x) w = (case m w of (Inl e, w') \<Rightarrow> (Inl e, w') | (Inr y, w') \<Rightarrow> (Inr x, w'))"
  by (simp add: thenM_def bindM_def returnM_def split: prod.split sum.split)

lemma main_out_False: "main_out p m e w = (Inr False, w') \<Longrightarrow> w' = (p, w)"
  by (auto simp: main_out_def with_pool_True split: option.splits)

lemma main_agrees:
  assumes "rel p s"
  shows "agrees (main_process M s e w) (main_out p (sm_state s) e w)"
proof (cases "select (mc_table M) (sm_state s) e")
  case None
  then show ?thesis using assms by (auto simp: agrees_def main_process_def main_out_def returnM_def)
next
  case (Some t)
  let ?both = "thenM (t_action t e) (mc_entry M (t_dst t))"
  have eq: "main_process M s e = thenM ?both (returnM (enter M (t_dst t) s))"
    using Some by (simp add: main_process_def thenM_def bindM_assoc)
  obtain out w' where run: "?both w = (out, w')" by fastforce
  show ?thesis
    unfolding eq main_out_def using Some rel_entered [OF assms]
    by (cases out) (simp_all add: agrees_def with_pool_def thenM_run run ex_bool_eq)
qed

lemma sub_agrees:
  assumes "rel p s" and "mc_sub M (sm_state s) = Some (table, i)" and "nm (sm_state s) = sub_machine q"
    and "select table (sm_subs s (sm_state s)) e = Some t"
  shows "agrees (sm_process_event M s e w)
    (with_pool (p(q := [ids q (ns (t_dst t))])) (thenM (t_action t e) (returnM True)) w)"
proof -
  let ?m = "sm_state s"
  have "rel (p(q := [ids q (ns (t_dst t))])) (s\<lparr>sm_subs := (sm_subs s)(?m := t_dst t)\<rparr>)"
    by (rule rel_sub [OF assms(1,3) sub_dst [OF assms(2,3,4)]])
  moreover have "sm_process_event M s e = thenM (t_action t e) (returnM (s\<lparr>sm_subs := (sm_subs s)(?m := t_dst t)\<rparr>))"
    using assms(2,4) by (simp add: sm_process_event_def sub_process_def thenM_def bindM_assoc)
  moreover obtain out w' where run: "t_action t e w = (out, w')" by fastforce
  ultimately show ?thesis
    by (cases out) (simp_all add: agrees_def with_pool_def thenM_run run ex_bool_eq)
qed

lemma main_dispatch:
  assumes "rel p s" and "state_execute B (dispatch_event B (Suc (Suc d))) main (plain_t (be_kind B e)) (plain_event e) 0 (nm (sm_state s)) (p, w) = out"
    and "\<And>w'. out = (Inr False, w') \<Longrightarrow> fst w' main ! 0 = p main ! 0"
  shows "sm_impl_process_event B (dispatch_event B (Suc (Suc (Suc d)))) main (plain_event e) (p, w) = out"
proof -
  have "dispatch_event B (Suc (Suc (Suc d))) main (plain_t (be_kind B e)) (plain_event e) 0 (p, w) = out"
    unfolding assms(2) [symmetric]
    by (rule dispatch_event_at) (use assms relD(1) [OF assms(1)] main_states in auto)
  then show ?thesis
    using process_one_region [OF main_plain _ main_events] main_initial by simp
qed

lemma process_agrees:
  assumes "rel p s"
  shows "agrees (sm_process_event M s e w)
    (sm_impl_process_event B (dispatch_event B (Suc (Suc (Suc d)))) main (plain_event e) (p, w))"
proof (cases "mc_sub M (sm_state s)")
  case None
  have st: "\<forall>q. nm (sm_state s) \<noteq> sub_machine q" using not_sub [OF None] by blast
  have "state_execute B (dispatch_event B (Suc (Suc d))) main (plain_t (be_kind B e)) (plain_event e) 0 (nm (sm_state s)) (p, w)
      = main_out p (sm_state s) e w"
    unfolding state_execute_plain [OF st] main_out_def by (rule main_transitions [where p = p, OF relD(1) [OF assms]])
  from main_dispatch [OF assms this] show ?thesis
    using main_agrees [OF assms, of e w] None
    by (auto simp: sm_process_event_def main_out_def with_pool_True split: option.splits)
next
  case (Some ti)
  obtain table i where ti: "mc_sub M (sm_state s) = Some (table, i)" using Some by (cases ti) simp
  obtain q where q: "nm (sm_state s) = sub_machine q" using sub_name [OF Some] by blast
  let ?a = "sm_subs s (sm_state s)"
  let ?sub = "sm_impl_process_event B (dispatch_event B (Suc (Suc d))) q (plain_event e)"
  let ?rows = "get_state_mapping (get_event_mapping (mappings (be_table B main)) (plain_t (be_kind B e))) (sub_machine q)"
  let ?ex = "\<lambda>t. execute_row (row_env_of B (dispatch_event B (Suc (Suc d))) main 0) t (plain_event e)"
  have p: "p q = [ids q (ns ?a)]" "ns ?a \<in> set (states_t (be_table B q))" using assms q by (simp_all add: pool_rel_def)
  note sub = sub_step [where p = p and w = w and e = e and d = "Suc d", OF ti q p]
  have rows: "transitions ?ex ?rows (plain_event e) (p, w) = main_out p (sm_state s) e w"
    unfolding main_out_def using main_transitions [where p = p and m = "sm_state s" and e = e, OF relD(1) [OF assms]]
    unfolding q .
  have state: "state_execute B (dispatch_event B (Suc (Suc d))) main (plain_t (be_kind B e)) (plain_event e) 0 (nm (sm_state s)) (p, w)
      = transitions_sub (is_terminated B q) (sm_impl_process_event B (dispatch_event B (Suc (Suc d))) q) ?ex ?rows (plain_event e) (p, w)"
    by (simp add: state_execute_def Let_def q)
  show ?thesis
  proof (cases "select table ?a e")
    case None
    have eq: "sm_process_event M s e w = main_process M s e w"
      using ti None by (simp add: sm_process_event_def sub_process_def)
    have empty: "main_out p (sm_state s) e w = (Inr False, (p, w))" if "?rows = []"
      using rows that by (simp add: returnM_def)
    have "transitions_sub (is_terminated B q) (sm_impl_process_event B (dispatch_event B (Suc (Suc d))) q) ?ex ?rows (plain_event e) (p, w)
        = (if ?rows = [] then (Inr True, (p, w)) else main_out p (sm_state s) e w)"
      using sub None rows by (simp add: transitions_sub_def thenM_def bindM_def returnM_def)
    note code = trans [OF state this]
    have "sm_impl_process_event B (dispatch_event B (Suc (Suc (Suc d)))) main (plain_event e) (p, w)
        = (if ?rows = [] then (Inr True, (p, w)) else main_out p (sm_state s) e w)"
      by (rule main_dispatch [OF assms code]) (auto dest: main_out_False split: if_splits)
    then show ?thesis
      using main_agrees [OF assms, of e w] empty unfolding eq
      by (auto simp: agrees_def split: if_splits prod.splits sum.splits)
  next
    case (Some t)
    let ?out = "with_pool (p(q := [ids q (ns (t_dst t))])) (thenM (t_action t e) (returnM True)) w"
    have "transitions_sub (is_terminated B q) (sm_impl_process_event B (dispatch_event B (Suc (Suc d))) q) ?ex ?rows (plain_event e) (p, w) = ?out"
      using sub Some by (auto simp: transitions_sub_def with_pool_def thenM_def bindM_def returnM_def split: prod.split sum.split)
    then have run: "sm_impl_process_event B (dispatch_event B (Suc (Suc (Suc d)))) main (plain_event e) (p, w) = ?out"
      using main_dispatch [OF assms state] with_pool_True by metis
    show ?thesis
      using sub_agrees [OF assms ti q Some, of w] unfolding run .
  qed
qed

section \<open>The refinement\<close>

text \<open>A new machine starts in a related state, without any effect.\<close>

lemma new_refines:
  "\<exists>p'. back_new B (Suc d) main (p, w) = (Inr (), (p', w)) \<and> rel p' (new_sm M)"
proof -
  let ?p = "\<lambda>q. initialize B q p q"
  have st: "\<forall>q. nm (mc_init M) \<noteq> sub_machine q" using not_sub [OF initial_plain(1)] by blast
  have at: "?p main = [ids main (nm (mc_init M))]" by (simp add: initialize_def main_initial)
  have run: "state_execute B (dispatch_event B d) main on_entry_any (on_entry e) 0 (nm (mc_init M)) (?p, w) = (Inr False, (?p, w))" for e
    by (simp add: state_execute_plain [OF st] plain_rows(2) [OF main_plain] initial_plain(2) returnM_def)
  have "dispatch_event B (Suc d) main on_entry_any (on_entry e) 0 (?p, w)
      = state_execute B (dispatch_event B d) main on_entry_any (on_entry e) 0 (nm (mc_init M)) (?p, w)" for e
    by (rule dispatch_event_at) (use at main_states in \<open>auto simp: run\<close>)
  then have "back_start B (Suc d) main (?p, w) = (Inr (), (?p, w))"
    using internal_none(1) [OF main_plain main_events] internal_entry [OF main_plain main_events]
    by (simp add: back_start_def process_internal_events_def log_note_none process_event_impl_def regions_def main_initial void_def run
        thenM_def bindM_def returnM_def)
  then have "back_new B (Suc d) main (p, w) = (Inr (), (?p, w))"
    by (simp add: back_new_def thenM_def bindM_def modifyM_def)
  moreover have "rel ?p (new_sm M)"
  proof (rule relI)
    show "?p main = [ids main (nm (sm_state (new_sm M)))]" using at by (simp add: new_sm_def)
    fix m q
    assume q: "nm m = sub_machine q"
    then obtain table i where ti: "mc_sub M m = Some (table, i)" using not_sub [of m] by (cases "mc_sub M m") auto
    show "?p q = [ids q (ns (sm_subs (new_sm M) m))] \<and> ns (sm_subs (new_sm M) m) \<in> set (states_t (be_table B q))"
      using sub_tables [OF ti q] sub_initial [OF ti q] ti by (simp add: new_sm_def initialize_def)
  qed
  ultimately show ?thesis by blast
qed

lemma process_refines:
  assumes "rel p s"
  shows "case sm_process_event M s e w of
      (Inl x, w') \<Rightarrow> \<exists>p'. back_process_event B (Suc (Suc (Suc d))) main e (p, w) = (Inl x, (p', w'))
    | (Inr s', w') \<Rightarrow> \<exists>p'. back_process_event B (Suc (Suc (Suc d))) main e (p, w) = (Inr (), (p', w')) \<and> rel p' s'"
  using process_agrees [OF assms, of e w d]
  by (auto simp: agrees_def back_process_event_def void_def bindM_def returnM_def split: prod.splits sum.splits)

text \<open>The final state is recognised.\<close>

lemma is_refines:
  assumes "rel p s"
  shows "back_is B main (nm m) p \<longleftrightarrow> sm_is s m"
proof -
  have inj: "nm m = nm (sm_state s) \<longleftrightarrow> m = sm_state s" using inj_nm by (auto simp: inj_eq)
  have "ids main (nm m) = ids main (nm (sm_state s)) \<longleftrightarrow> nm m = nm (sm_state s)"
    using get_id_inj [OF main_states main_states] by metis
  moreover have "states_t (be_table B main) ! ids main (nm (sm_state s)) = nm (sm_state s)"
    using get_id_nth [OF main_states] by blast
  ultimately show ?thesis
    using relD(1) [OF assms] inj
    by (auto simp: back_is_def Let_def visit_current_states_def sm_is_def)
qed

end

end
