(* ===== verification/Sml_Logging.thy ===== *)
theory Sml_Logging
  imports Sml_Refinement
begin

text \<open>
  The logger of a state machine. \<^verbatim>\<open>include/boost/sml.hpp\<close> tells the logger of every event,
  every guard with its result, every action and every change of state; the logger is a dependency of
  the machine with a state of its own. A machine with a logger does what it does without one.
\<close>

section \<open>A machine with a logger\<close>

text \<open>The world of a logged machine: the world of the actions, and the logger's own state.\<close>

fun lift_action :: "('e, 'w) action_expr \<Rightarrow> ('e, 'w \<times> 'l) action_expr" where
  "lift_action (action_fun name a) = action_fun name (\<lambda>e. liftM fst (\<lambda>w (_, l). (w, l)) (a e))"
| "lift_action (action_seq a b) = action_seq (lift_action a) (lift_action b)"

definition lift_row :: "('m, 'k, 'e, 'w) back_row \<Rightarrow> ('m, 'k, 'e, 'w \<times> 'l) back_row" where
  "lift_row t = \<lparr>r_src = r_src t, r_dst = r_dst t, r_event = r_event t, r_guard = r_guard t,
     r_action = map_option lift_action (r_action t), r_initial = r_initial t, r_history = r_history t\<rparr>"

definition with_logger ::
  "(('m, 'e) log_entry \<Rightarrow> 'l \<Rightarrow> 'l) \<Rightarrow> ('m, 'k, 'e, 'w) backend \<Rightarrow> ('m, 'k, 'e, 'w \<times> 'l) backend" where
  "with_logger logger B = \<lparr>be_table = (\<lambda>m. map lift_row (be_table B m)), be_kind = be_kind B, be_policy = be_policy B,
     be_nesting = be_nesting B, be_logger = Some (\<lambda>l (w, s). (w, logger l s))\<rparr>"

lemma with_logger_sel [simp]:
  "be_table (with_logger logger B) m = map lift_row (be_table B m)"
  "be_kind (with_logger logger B) = be_kind B" "be_policy (with_logger logger B) = be_policy B"
  "be_nesting (with_logger logger B) = be_nesting B"
  by (simp_all add: with_logger_def)

lemma lift_row_sel [simp]:
  "r_src (lift_row t) = r_src t" "r_dst (lift_row t) = r_dst t" "r_event (lift_row t) = r_event t"
  "r_guard (lift_row t) = r_guard t" "r_action (lift_row t) = map_option lift_action (r_action t)"
  "r_initial (lift_row t) = r_initial t" "r_history (lift_row t) = r_history t"
  by (simp_all add: lift_row_def)

text \<open>It has the same states, events and groups of rows.\<close>

lemma lift_states [simp]: "states_t (map lift_row table) = states_t table"
  by (simp add: states_t_def comp_def)

lemma lift_initial [simp]: "initial_states_t (map lift_row table) = initial_states_t table"
  by (simp add: initial_states_t_def filter_map comp_def)

lemma lift_history [simp]:
  "history_states_t (map lift_row table) = history_states_t table"
  "has_history_states (map lift_row table) = has_history_states table"
  by (simp_all add: has_history_states_def history_states_t_def filter_map comp_def)

lemma lift_sub_events: "sub_internal_events (with_logger logger B) d m = sub_internal_events B d m"
  by (induction d arbitrary: m) (simp_all add: comp_def cong: back_state.case_cong if_cong)

lemma lift_events [simp]:
  "events_t (with_logger logger B) m = events_t B m" "has_entry_exits (with_logger logger B) m = has_entry_exits B m"
  by (simp_all add: has_entry_exits_def events_t_def lift_sub_events comp_def)

lemma lift_rows:
  "get_state_mapping (get_event_mapping (mappings (map lift_row table)) k) s
     = map lift_row (get_state_mapping (get_event_mapping (mappings table) k) s)"
  by (simp add: grouped_rows filter_map comp_def image_comp)

lemma lift_machine [simp]:
  "initialize (with_logger logger B) m p = initialize B m p"
  "update_composite_states (with_logger logger B) m p = update_composite_states B m p"
  "regions (with_logger logger B) m = regions B m"
  "internal_key (with_logger logger B) m e = internal_key B m e"
  by (simp_all add: initialize_def update_composite_states_def Let_def regions_def internal_key_def cong: if_cong)

section \<open>Forgetting the log\<close>

named_theorems erase_intros \<open>programs that do the same but for the log\<close>

definition erase :: "'m pool \<times> ('w \<times> 'l) \<Rightarrow> 'm pool \<times> 'w" where
  "erase s = (case s of (p, (w, l)) \<Rightarrow> (p, w))"

definition erases :: "('m, 'w \<times> 'l, 'a) backp \<Rightarrow> ('m, 'w, 'a) backp \<Rightarrow> bool" where
  "erases m n \<longleftrightarrow> (\<forall>s. map_prod id erase (m s) = n (erase s))"

lemma erase_simp [simp]: "erase (p, (w, l)) = (p, w)"
  by (simp add: erase_def)

lemma erasesD: "erases m n \<Longrightarrow> m s = (r, s') \<Longrightarrow> n (erase s) = (r, erase s')"
  by (metis erases_def id_apply map_prod_simp)

lemma erases_return [erase_intros]: "erases (returnM x) (returnM x)"
  by (simp add: erases_def returnM_def)

lemma erases_throw [erase_intros]: "erases (throwM e) (throwM e)"
  by (simp add: erases_def throwM_def)

lemma erases_bind [erase_intros]:
  assumes "erases m n" and "\<And>x. erases (f x) (g x)"
  shows "erases (bindM m f) (bindM n g)"
  unfolding erases_def
proof
  fix s
  obtain r s' where m: "m s = (r, s')" by (cases "m s")
  note n = erasesD [OF assms(1) m]
  show "map_prod id erase (bindM m f s) = bindM n g (erase s)"
  proof (cases r)
    case (Inr x)
    then show ?thesis using m n assms(2) [of x, unfolded erases_def, rule_format, of s'] by (simp add: bindM_def)
  qed (simp add: bindM_def m n)
qed

lemma erases_then [erase_intros]: "erases m n \<Longrightarrow> erases m' n' \<Longrightarrow> erases (thenM m m') (thenM n n')"
  unfolding thenM_def by (rule erases_bind)

lemma erases_when [erase_intros]: "erases m n \<Longrightarrow> erases (whenM b m) (whenM b n)"
  by (simp add: whenM_def erases_return)

lemma erases_void [erase_intros]: "erases m n \<Longrightarrow> erases (void m) (void n)"
  unfolding void_def by (intro erase_intros)

lemma erases_if [erase_intros]:
  "(b \<Longrightarrow> erases m n) \<Longrightarrow> (\<not> b \<Longrightarrow> erases m' n') \<Longrightarrow> erases (if b then m else m') (if b then n else n')"
  by simp

lemma erases_pool [erase_intros]:
  "erases (getM (\<lambda>(p, w). f p)) (getM (\<lambda>(p, w). f p))"
  "erases (modifyM (\<lambda>(p, w). (h p, w))) (modifyM (\<lambda>(p, w). (h p, w)))"
  by (auto simp: erases_def getM_def modifyM_def)

lemma erases_note [erase_intros]:
  "be_logger B = None \<Longrightarrow> erases (log_note (with_logger logger B) l) (log_note B l)"
  by (auto simp: erases_def log_note_def with_logger_def modifyM_def returnM_def)

lemma erases_lift [erase_intros]:
  "erases (on_world (liftM fst (\<lambda>w (_, l). (w, l)) a)) (on_world a)"
  by (auto simp: erases_def on_world_def liftM_def split: prod.split)

lemma erases_guard [erase_intros]:
  "(\<And>l. erases (lg l) (lg' l)) \<Longrightarrow> erases (call_guard lg m g e) (call_guard lg' m g e)"
  by (induction g) (auto simp: Let_def intro!: erase_intros)

lemma erases_action [erase_intros]:
  "(\<And>l. erases (lg l) (lg' l)) \<Longrightarrow> erases (call_action lg m (lift_action a) e) (call_action lg' m a e)"
  by (induction a) (auto intro!: erase_intros)

section \<open>The back end with and without a logger\<close>

definition env_erases :: "('m, 'e, 'w \<times> 'l) row_env \<Rightarrow> ('m, 'e, 'w) row_env \<Rightarrow> bool" where
  "env_erases x y \<longleftrightarrow> x_sm x = x_sm y \<and> x_entry_exits x = x_entry_exits y \<and> (\<forall>l. erases (x_log x l) (x_log y l))
     \<and> (\<forall>e. erases (x_internal x e) (x_internal y e)) \<and> (\<forall>s d. erases (x_update x s d) (x_update y s d))"

lemmas execute_defs = execute_guard_action_def execute_internal_guard_action_def execute_always_action_def
  execute_internal_always_action_def execute_guard_none_def execute_internal_guard_none_def execute_always_none_def
  execute_internal_always_none_def

lemma erases_row:
  assumes "env_erases x y"
  shows "erases (execute_row x (lift_row t) e) (execute_row y t e)"
proof -
  have x: "x_sm x = x_sm y" "x_entry_exits x = x_entry_exits y" "\<And>l. erases (x_log x l) (x_log y l)"
      "\<And>e. erases (x_internal x e) (x_internal y e)" "\<And>s d. erases (x_update x s d) (x_update y s d)"
    using assms by (simp_all add: env_erases_def)
  show ?thesis
    unfolding execute_row_def execute_defs lift_row_sel x(1,2)
    by (auto split: option.split intro!: erase_intros x(3-))
qed

lemma erases_transitions:
  assumes "\<And>t. erases (ex (lift_row t)) (ex' t)"
  shows "erases (transitions ex (map lift_row ts) e) (transitions ex' ts e)"
proof (induction ts rule: induct_list012)
  case (2 t)
  show ?case by (auto split: sml_event.split intro!: erase_intros assms)
next
  case (3 t u ts)
  then show ?case by (auto intro!: erase_intros assms)
qed (simp add: erases_return)

lemma erases_transitions_sub:
  assumes "erases term term'" and "\<And>e. erases (sub e) (sub' e)" and "\<And>t. erases (ex (lift_row t)) (ex' t)"
  shows "erases (transitions_sub term sub ex (map lift_row ts) e) (transitions_sub term' sub' ex' ts e)"
  unfolding transitions_sub_def
  by (auto split: sml_event.split intro!: erase_intros erases_transitions assms)

lemma erases_terminated [erase_intros]: "erases (is_terminated (with_logger logger B) m) (is_terminated B m)"
  by (auto simp: is_terminated_def intro!: erase_intros)

lemma erases_set_state [erase_intros]:
  "erases (current_state m n) (current_state m n)" "erases (set_current_state m n i) (set_current_state m n i)"
  unfolding current_state_def set_current_state_def by (rule erase_intros)+

lemma erases_update [erase_intros]:
  "be_logger B = None \<Longrightarrow> erases (update_current_state (with_logger logger B) m n s d) (update_current_state B m n s d)"
  by (auto simp: update_current_state_def split: back_state.split intro!: erase_intros)

definition disp_erases :: "('m, 'k, 'e, 'w \<times> 'l) dispatcher \<Rightarrow> ('m, 'k, 'e, 'w) dispatcher \<Rightarrow> bool" where
  "disp_erases disp disp' \<longleftrightarrow> (\<forall>m k e n. erases (disp m k e n) (disp' m k e n))"

lemma erases_regions: "(\<And>n. erases (f n) (g n)) \<Longrightarrow> erases (all_regions f ns h) (all_regions g ns h)"
  by (induction ns arbitrary: h) (auto intro!: erase_intros)

lemma erases_process:
  assumes "be_logger B = None" and "disp_erases disp disp'"
  shows "erases (process_event_impl (with_logger logger B) disp m k e) (process_event_impl B disp' m k e)"
    and "erases (process_internal_events (with_logger logger B) disp m e) (process_internal_events B disp' m e)"
    and "erases (process_internal_event (with_logger logger B) disp m n e) (process_internal_event B disp' m n e)"
    and "erases (sm_impl_process_event (with_logger logger B) disp m e) (sm_impl_process_event B disp' m e)"
proof -
  have d: "erases (disp m k e n) (disp' m k e n)" for m k e n using assms(2) by (simp add: disp_erases_def)
  show impl: "erases (process_event_impl (with_logger logger B) disp m k e) (process_event_impl B disp' m k e)" for k e
    by (auto simp: process_event_impl_def intro!: erases_regions d)
  show int: "erases (process_internal_events (with_logger logger B) disp m e) (process_internal_events B disp' m e)" for e
    by (auto simp: process_internal_events_def split: option.split intro!: erase_intros impl assms(1))
  show "erases (process_internal_event (with_logger logger B) disp m n e) (process_internal_event B disp' m n e)"
    by (auto simp: process_internal_event_def split: option.split intro!: erase_intros d assms(1))
  show "erases (sm_impl_process_event (with_logger logger B) disp m e) (sm_impl_process_event B disp' m e)"
    by (auto simp: sm_impl_process_event_def intro!: erase_intros impl int assms(1))
qed

lemma erases_state:
  assumes "be_logger B = None" and "disp_erases disp disp'"
  shows "erases (state_execute (with_logger logger B) disp m k e n s) (state_execute B disp' m k e n s)"
proof -
  have "env_erases (row_env_of (with_logger logger B) disp m n) (row_env_of B disp' m n)"
    by (simp add: env_erases_def row_env_of_def erases_process(3) [OF assms] erases_note [OF assms(1)] erases_update [OF assms(1)])
  from erases_row [OF this] show ?thesis
    by (auto simp: state_execute_def Let_def lift_rows split: back_state.split
        intro!: erases_transitions erases_transitions_sub erases_terminated erases_process(4) assms)
qed

text \<open>Each way to dispatch.\<close>

lemma erases_jump_table: "list_all2 erases fs gs \<Longrightarrow> erases cur cur' \<Longrightarrow> erases (jump_table cur fs) (jump_table cur' gs)"
  by (auto simp: jump_table_def list_all2_conv_all_nth intro!: erase_intros)

lemma erases_branch_stm: "list_all2 erases fs gs \<Longrightarrow> erases cur cur' \<Longrightarrow> erases (branch_stm cur N fs) (branch_stm cur' N gs)"
  by (induction fs gs arbitrary: N rule: list_all2_induct) (auto intro!: erase_intros)

lemma erases_switch_stm: "list_all2 erases fs gs \<Longrightarrow> erases cur cur' \<Longrightarrow> erases (switch_stm cur N fs) (switch_stm cur' N gs)"
  by (induction fs gs arbitrary: N rule: list_all2_induct) (auto split: bool.split intro!: erase_intros)

lemma erases_fold_expr: "list_all2 erases fs gs \<Longrightarrow> erases cur cur' \<Longrightarrow> erases (fold_expr cur N fs) (fold_expr cur' N gs)"
  by (induction fs gs arbitrary: N rule: list_all2_induct) (auto intro!: erase_intros)

lemma erases_dispatch:
  "be_logger B = None \<Longrightarrow> disp_erases (dispatch_event (with_logger logger B) d) (dispatch_event B d)"
proof (induction d)
  case (Suc d)
  show ?case
    unfolding disp_erases_def
  proof (intro allI)
    fix m k e n
    have "list_all2 erases (map (state_execute (with_logger logger B) (dispatch_event (with_logger logger B) d) m k e n) (states_t (be_table B m)))
        (map (state_execute B (dispatch_event B d) m k e n) (states_t (be_table B m)))"
      using erases_state [OF Suc.prems Suc.IH [OF Suc.prems]] by (simp add: list_all2_conv_all_nth)
    then show "erases (dispatch_event (with_logger logger B) (Suc d) m k e n) (dispatch_event B (Suc d) m k e n)"
      by (auto simp: dispatch_by_def split: dispatch_policy.split
          intro!: erases_jump_table erases_branch_stm erases_switch_stm erases_fold_expr erases_set_state)
  qed
qed (simp add: disp_erases_def erases_throw)

lemma erases_new: "be_logger B = None \<Longrightarrow> erases (back_new (with_logger logger B) d m) (back_new B d m)"
  by (auto simp: back_new_def back_start_def intro!: erase_intros erases_process erases_dispatch)

lemma erases_process_event:
  "be_logger B = None \<Longrightarrow> erases (back_process_event (with_logger logger B) d m e) (back_process_event B d m e)"
  by (auto simp: back_process_event_def intro!: erase_intros erases_process erases_dispatch)

end
