(* ===== verification/Sml_Trace.thy ===== *)
theory Sml_Trace
  imports Sml_Logging
begin

text \<open>
  What a logger can be read for: in a machine with one region the last change of state it was told of
  is the state the machine is in. The locale \<open>traced\<close> has the machines for which this holds.
\<close>

definition last_state :: "'m \<Rightarrow> 'm back_state \<Rightarrow> ('m, 'e) log_entry list \<Rightarrow> 'm back_state" where
  "last_state tm i ls =
     foldl (\<lambda>s l. case l of log_state_change m src dst \<Rightarrow> if m = tm then dst else s | _ \<Rightarrow> s) i ls"

definition is_change :: "('m, 'e) log_entry \<Rightarrow> bool" where
  "is_change l = (case l of log_state_change m src dst \<Rightarrow> True | _ \<Rightarrow> False)"

lemma is_change_simps [simp]:
  "is_change (log_state_change m src dst)" "\<not> is_change (log_process_event m e)"
  "\<not> is_change (log_guard m g e b)" "\<not> is_change (log_action m a e)"
  by (simp_all add: is_change_def)

lemma last_state_snoc:
  "\<not> is_change l \<Longrightarrow> last_state tm i (ls @ [l]) = last_state tm i ls"
  "last_state tm i (ls @ [log_state_change m src dst]) = (if m = tm then dst else last_state tm i ls)"
  by (cases l; simp add: last_state_def) (simp add: last_state_def)

lemma last_state_Nil [simp]: "last_state tm i [] = i"
  by (simp add: last_state_def)

text \<open>A machine with a logger that collects what it is told.\<close>

definition collecting :: "('m, 'k, 'e, 'w) backend \<Rightarrow> ('m, 'k, 'e, 'w \<times> ('m, 'e) log_entry list) backend" where
  "collecting B = with_logger (\<lambda>l ls. ls @ [l]) B"

locale traced =
  fixes B :: "('m, 'k, 'e, 'w) backend" and tm :: 'm and i :: "'m back_state"
  assumes one_region: "regions B m = 1"
    and not_entered: "t \<in> set (be_table B m) \<Longrightarrow> r_dst t \<noteq> sub_machine tm"
    and initial: "initial_states_t (be_table B tm) = [i]"
begin

abbreviation C :: "('m, 'k, 'e, 'w \<times> ('m, 'e) log_entry list) backend" where
  "C \<equiv> collecting B"

definition tells :: "'m pool \<times> ('w \<times> ('m, 'e) log_entry list) \<Rightarrow> bool" where
  "tells s = (case s of (p, (w, ls)) \<Rightarrow>
     last_state tm i ls \<in> set (states_t (be_table B tm))
     \<and> p tm = [get_id (states_t (be_table B tm)) (last_state tm i ls)])"

lemma tells_note: "\<not> is_change l \<Longrightarrow> keeps tells (log_note C l)"
  by (auto simp: log_note_def collecting_def with_logger_def tells_def last_state_snoc intro!: keeps_modify)

lemma tells_world: "keeps tells (on_world (liftM fst (\<lambda>w (_, l). (w, l)) a))"
  by (auto simp: keeps_def tells_def on_world_def liftM_def split: prod.splits)

lemma tells_guard: "keeps tells (call_guard (log_note C) m g e)"
  by (induction g) (auto simp: Let_def intro!: inv_intros tells_note)

lemma tells_action: "keeps tells (call_action (log_note C) m (lift_action a) e)"
  by (induction a) (auto intro!: inv_intros tells_note tells_world)

text \<open>The one change of state: line and state number change together.\<close>

lemma row_states: "t \<in> set table \<Longrightarrow> r_src t \<in> set (states_t table) \<and> r_dst t \<in> set (states_t table)"
  by (auto simp: states_t_def)

lemma tells_update:
  assumes "t \<in> set (be_table B m)"
  shows "keeps tells (update_current_state C m 0 (r_src t) (r_dst t))"
proof -
  have "keeps tells (modifyM (\<lambda>(p, w). (update_composite_states C q p, w)))" if "r_dst t = sub_machine q" for q
  proof (rule keeps_modify)
    fix s assume s: "tells s"
    have "q \<noteq> tm" using not_entered [OF assms] that by auto
    then have "update_composite_states C q p tm = p tm" for p
      by (simp add: collecting_def update_composite_states_def initialize_def Let_def)
    then show "tells (case s of (p, w) \<Rightarrow> (update_composite_states C q p, w))"
      using s by (auto simp: tells_def split: prod.splits)
  qed
  moreover have "keeps tells (thenM (log_note C (log_state_change m (r_src t) (r_dst t)))
      (set_current_state m 0 (get_id (states_t (be_table C m)) (r_dst t))))"
    using row_states [OF assms]
    by (auto simp: keeps_def tells_def log_note_def collecting_def with_logger_def set_current_state_def prog_simps
        last_state_snoc)
  ultimately have "keeps tells (thenM (thenM (log_note C (log_state_change m (r_src t) (r_dst t)))
      (set_current_state m 0 (get_id (states_t (be_table C m)) (r_dst t))))
        (case r_dst t of sub_machine q \<Rightarrow> modifyM (\<lambda>(p, w). (update_composite_states C q p, w)) | _ \<Rightarrow> returnM ()))"
    by - (rule keeps_then, assumption, auto split: back_state.split intro: keeps_return)
  moreover have "update_current_state C m 0 (r_src t) (r_dst t) =
      thenM (thenM (log_note C (log_state_change m (r_src t) (r_dst t)))
          (set_current_state m 0 (get_id (states_t (be_table C m)) (r_dst t))))
        (case r_dst t of sub_machine q \<Rightarrow> modifyM (\<lambda>(p, w). (update_composite_states C q p, w)) | _ \<Rightarrow> returnM ())"
    by (simp add: update_current_state_def thenM_def bindM_assoc)
  ultimately show ?thesis by metis
qed

text \<open>So everything that runs in the machine keeps it.\<close>

lemma tells_row:
  assumes "t \<in> set (be_table B m)" and "\<And>e. keeps tells (process_internal_event C disp m 0 e)"
  shows "keeps tells (execute_row (row_env_of C disp m 0) (lift_row t) e)"
proof -
  have x: "x_sm (row_env_of C disp m 0) = m" "x_log (row_env_of C disp m 0) = log_note C"
      "x_internal (row_env_of C disp m 0) = process_internal_event C disp m 0"
      "x_update (row_env_of C disp m 0) = update_current_state C m 0"
    by (simp_all add: row_env_of_def)
  have void: "keeps tells (void n)" if "keeps tells n" for n :: "('m, 'w \<times> ('m, 'e) log_entry list, bool) backp"
    unfolding void_def by (intro inv_intros that)
  show ?thesis
    unfolding execute_row_def execute_defs lift_row_sel x
    by (auto split: option.split intro!: inv_intros void tells_guard tells_action tells_update assms)
qed

lemma tells_transitions:
  assumes "\<And>t. t \<in> set ts \<Longrightarrow> keeps tells (ex (lift_row t))"
  shows "keeps tells (transitions ex (map lift_row ts) e)"
  using assms
proof (induction ts rule: induct_list012)
  case (2 t)
  then show ?case by (auto split: sml_event.split intro!: inv_intros)
next
  case (3 t u ts)
  then show ?case by (auto intro!: inv_intros)
qed (simp add: keeps_return)

lemma tells_process:
  assumes "\<And>m k e. keeps tells (disp m k e 0)"
  shows "keeps tells (process_event_impl C disp m k e)" "keeps tells (process_internal_events C disp m e)"
    "keeps tells (process_internal_event C disp m 0 e)" "keeps tells (sm_impl_process_event C disp m e)"
proof -
  have one: "regions C m = 1" for m using one_region [of m] by (simp add: collecting_def)
  have event: "keeps tells (log_note C (log_process_event m e))" for m e by (simp add: tells_note)
  show impl: "keeps tells (process_event_impl C disp m k e)" for k e
    by (simp add: process_event_impl_def one assms)
  show int: "keeps tells (process_internal_events C disp m e)" for e
    by (auto simp: process_internal_events_def split: option.split intro!: inv_intros impl event)
  show "keeps tells (process_internal_event C disp m 0 e)"
    by (auto simp: process_internal_event_def split: option.split intro!: inv_intros assms event)
  show "keeps tells (sm_impl_process_event C disp m e)"
    by (auto simp: sm_impl_process_event_def void_def intro!: inv_intros impl int event)
qed

lemma tells_state:
  assumes "\<And>m k e. keeps tells (disp m k e 0)"
  shows "keeps tells (state_execute C disp m k e 0 s)"
proof -
  let ?ts = "get_state_mapping (get_event_mapping (mappings (be_table B m)) k) s"
  have "set ?ts \<subseteq> set (be_table B m)" by (auto simp: grouped_rows)
  then have "keeps tells (transitions (\<lambda>t. execute_row (row_env_of C disp m 0) t e) (map lift_row ?ts) e)" for e
    by (intro tells_transitions tells_row tells_process(3) assms) auto
  then show ?thesis
    by (auto simp: state_execute_def Let_def collecting_def lift_rows transitions_sub_def is_terminated_def
        split: back_state.split sml_event.split
        intro!: inv_intros tells_process(4) [unfolded collecting_def] assms)
qed

lemma tells_chain:
  assumes "\<And>f. f \<in> set fs \<Longrightarrow> keeps tells f" and "keeps tells cur"
  shows "keeps tells (branch_stm cur N fs)" "keeps tells (switch_stm cur N fs)" "keeps tells (fold_expr cur N fs)"
    "keeps tells (jump_table cur fs)"
proof -
  show "keeps tells (branch_stm cur N fs)" using assms by (induction fs arbitrary: N) (auto intro!: inv_intros)
  show "keeps tells (switch_stm cur N fs)"
    using assms by (induction fs arbitrary: N) (auto split: bool.split intro!: inv_intros)
  show "keeps tells (fold_expr cur N fs)" using assms by (induction fs arbitrary: N) (auto intro!: inv_intros)
  have "keeps tells (if c < length fs then fs ! c else throwM (Undefined ''dispatch table''))" for c
    using assms(1) by (auto intro: keeps_throw)
  then show "keeps tells (jump_table cur fs)"
    using assms(2) by (auto simp: jump_table_def intro!: keeps_return keeps_bind)
qed

lemma tells_dispatch: "keeps tells (dispatch_event C d m k e 0)"
proof (induction d arbitrary: m k e)
  case (Suc d)
  have cur: "keeps tells (current_state m 0)" unfolding current_state_def by (rule keeps_get)
  have "keeps tells f" if "f \<in> set (map (state_execute C (dispatch_event C d) m k e 0) (states_t (be_table C m)))" for f
    using that by (auto intro: tells_state Suc.IH)
  then show ?case
    by (auto simp: dispatch_by_def split: dispatch_policy.split intro!: tells_chain cur)
qed (simp add: keeps_throw)

lemma tells_event: "keeps tells (back_process_event C d m e)"
  unfolding back_process_event_def void_def by (intro inv_intros tells_process tells_dispatch)

lemma tells_new: "tells (snd (back_new C d tm (p, (w, []))))"
proof -
  have start: "keeps tells (back_start C d tm)"
    unfolding back_start_def void_def by (intro inv_intros tells_process tells_dispatch)
  have "i \<in> set (states_t (be_table B tm))"
  proof -
    have "i \<in> set (initial_states_t (be_table B tm))" by (simp add: initial)
    then show ?thesis by (auto simp: initial_states_t_def states_t_def)
  qed
  then have "tells (\<lambda>q. initialize C q p q, (w, []))"
    by (simp add: tells_def collecting_def initialize_def initial)
  then have "tells (snd (back_start C d tm (\<lambda>q. initialize C q p q, (w, []))))"
    using start by (auto simp: keeps_def)
  then show ?thesis by (simp add: back_new_def thenM_def bindM_def modifyM_def)
qed

text \<open>What the last line says is what \<^verbatim>\<open>is\<close> answers.\<close>

lemma tells_is:
  assumes "tells (p, (w, ls))" and "s \<in> set (states_t (be_table B tm))"
  shows "back_is C tm s p \<longleftrightarrow> s = last_state tm i ls"
proof -
  let ?ids = "get_id (states_t (be_table B tm))"
  have l: "last_state tm i ls \<in> set (states_t (be_table B tm))" "p tm = [?ids (last_state tm i ls)]"
    using assms(1) by (simp_all add: tells_def)
  have "states_t (be_table B tm) ! ?ids (last_state tm i ls) = last_state tm i ls"
    using get_id_nth [OF l(1)] by simp
  then have "back_is C tm s p \<longleftrightarrow> ?ids s = ?ids (last_state tm i ls)"
    by (simp add: back_is_def Let_def visit_current_states_def collecting_def l(2))
  then show ?thesis using get_id_inj [OF assms(2) l(1)] by auto
qed

end

end
