(* ===== verification/Sml_Front.thy ===== *)
theory Sml_Front
  imports Sml_Backend
begin

text \<open>
  The notation in which \<^verbatim>\<open>include/boost/sml.hpp\<close> lets a table be written, and the row each
  expression stands for: \<^verbatim>\<open>source + event [guard] / action = destination\<close>, the same without
  guard, action or event, without a destination (an internal row), and from right to left with
  \<^verbatim>\<open><=\<close>.
\<close>

section \<open>States and events\<close>

record 'm front_state =
  fs_type :: "'m back_state"
  fs_initial :: bool
  fs_history :: bool

definition state :: "'m back_state \<Rightarrow> 'm front_state" where
  "state s = \<lparr>fs_type = s, fs_initial = False, fs_history = False\<rparr>"

text \<open>\<^verbatim>\<open>*s\<close> and \<^verbatim>\<open>s(H)\<close>.\<close>

definition as_initial :: "'m front_state \<Rightarrow> 'm front_state" where
  "as_initial s = \<lparr>fs_type = fs_type s, fs_initial = True, fs_history = False\<rparr>"

definition as_history :: "'m front_state \<Rightarrow> 'm front_state" where
  "as_history s = \<lparr>fs_type = fs_type s, fs_initial = True, fs_history = True\<rparr>"

datatype ('k, 'e, 'w) event_expr =
    front_event "'k event_type"
  | transition_eg "'k event_type" "'e guard_expr"
  | transition_ea "'k event_type" "('e, 'w) action_expr"
  | transition_ega "'k event_type" "'e guard_expr" "('e, 'w) action_expr"

text \<open>\<^verbatim>\<open>event[g]\<close>, \<^verbatim>\<open>event / a\<close> and \<^verbatim>\<open>event[g] / a\<close>.\<close>

definition event_guard :: "'k event_type \<Rightarrow> 'e guard_expr \<Rightarrow> ('k, 'e, 'w) event_expr" where
  "event_guard k g = transition_eg k g"

definition event_action :: "'k event_type \<Rightarrow> ('e, 'w) action_expr \<Rightarrow> ('k, 'e, 'w) event_expr" where
  "event_action k a = transition_ea k a"

fun guarded_action :: "('k, 'e, 'w) event_expr \<Rightarrow> ('e, 'w) action_expr \<Rightarrow> ('k, 'e, 'w) event_expr" where
  "guarded_action (transition_eg k g) a = transition_ega k g a"
| "guarded_action t a = t"

datatype ('m, 'k, 'e, 'w) source_expr =
    source_state "'m front_state"
  | source_guard "'m front_state" "'e guard_expr"
  | source_action "'m front_state" "('e, 'w) action_expr"
  | source_guard_action "'m front_state" "'e guard_expr" "('e, 'w) action_expr"
  | source_event "'m front_state" "('k, 'e, 'w) event_expr"

section \<open>Rows\<close>

definition front_row ::
  "'m back_state \<Rightarrow> 'm front_state \<Rightarrow> 'k event_type \<Rightarrow> 'e guard_expr option \<Rightarrow> ('e, 'w) action_expr option \<Rightarrow> ('m, 'k, 'e, 'w) back_row" where
  "front_row dst src k g a = \<lparr>r_src = fs_type src, r_dst = dst, r_event = k, r_guard = g, r_action = a,
     r_initial = fs_initial src, r_history = fs_history src\<rparr>"

text \<open>\<^verbatim>\<open>source = destination\<close>.\<close>

fun assign_row :: "('m, 'k, 'e, 'w) source_expr \<Rightarrow> 'm front_state \<Rightarrow> ('m, 'k, 'e, 'w) back_row" where
  "assign_row (source_state s) d = front_row (fs_type d) s anonymous_t None None"
| "assign_row (source_guard s g) d = front_row (fs_type d) s anonymous_t (Some g) None"
| "assign_row (source_action s a) d = front_row (fs_type d) s anonymous_t None (Some a)"
| "assign_row (source_guard_action s g a) d = front_row (fs_type d) s anonymous_t (Some g) (Some a)"
| "assign_row (source_event s (front_event k)) d = front_row (fs_type d) s k None None"
| "assign_row (source_event s (transition_eg k g)) d = front_row (fs_type d) s k (Some g) None"
| "assign_row (source_event s (transition_ea k a)) d = front_row (fs_type d) s k None (Some a)"
| "assign_row (source_event s (transition_ega k g a)) d = front_row (fs_type d) s k (Some g) (Some a)"

text \<open>A source alone is an internal row; a state, or a state with a bare event, is no row.\<close>

fun internal_row :: "('m, 'k, 'e, 'w) source_expr \<Rightarrow> ('m, 'k, 'e, 'w) back_row option" where
  "internal_row (source_state s) = None"
| "internal_row (source_guard s g) = Some (front_row internal_state s anonymous_t (Some g) None)"
| "internal_row (source_action s a) = Some (front_row internal_state s anonymous_t None (Some a))"
| "internal_row (source_guard_action s g a) = Some (front_row internal_state s anonymous_t (Some g) (Some a))"
| "internal_row (source_event s (front_event k)) = None"
| "internal_row (source_event s (transition_eg k g)) = Some (front_row internal_state s k (Some g) None)"
| "internal_row (source_event s (transition_ea k a)) = Some (front_row internal_state s k None (Some a))"
| "internal_row (source_event s (transition_ega k g a)) = Some (front_row internal_state s k (Some g) (Some a))"

text \<open>\<^verbatim>\<open>destination <= source\<close>.\<close>

fun reverse_row :: "'m front_state \<Rightarrow> ('m, 'k, 'e, 'w) source_expr \<Rightarrow> ('m, 'k, 'e, 'w) back_row" where
  "reverse_row d (source_state s) = front_row (fs_type d) s anonymous_t None None"
| "reverse_row d (source_guard_action s g a) = front_row (fs_type d) s anonymous_t (Some g) (Some a)"
| "reverse_row d (source_event s (front_event k)) = front_row (fs_type d) s k None None"
| "reverse_row d (source_guard s g) = front_row (fs_type d) s anonymous_t (Some g) None"
| "reverse_row d (source_action s a) = front_row (fs_type d) s anonymous_t None (Some a)"
| "reverse_row d (source_event s (transition_eg k g)) = front_row (fs_type d) s k (Some g) None"
| "reverse_row d (source_event s (transition_ea k a)) = front_row (fs_type d) s k None (Some a)"
| "reverse_row d (source_event s (transition_ega k g a)) = front_row (fs_type d) s k (Some g) (Some a)"

text \<open>Both directions of the notation stand for the same row.\<close>

lemma reverse_assign: "reverse_row d s = assign_row s d"
proof (cases s)
  case (source_event t e)
  then show ?thesis by (cases e) simp_all
qed simp_all

end
