(* ===== verification/Gateway_Backend.thy ===== *)
theory Gateway_Backend
  imports Gateway_Lifecycle Sml_Trace Sml_Front
begin

text \<open>
  The tables of \<^verbatim>\<open>tg2sip/gateway.cpp\<close> as they are written, run by the back end of the state
  machine library with the gateway's logger, implement the tables that the rest of the development
  reasons about.
\<close>

section \<open>The tables as written\<close>

datatype gw_machine = M_StateMachine | M_from_tg | M_from_sip

datatype gw_event_type =
    updateCall_t | updateNewMessage_t | IncomingCall_t | CallStateUpdate_t | CallMediaStateUpdate_t | InternalError_t

fun gw_kind :: "gw_event \<Rightarrow> gw_event_type" where
  "gw_kind (EvUpdateCall _) = updateCall_t"
| "gw_kind (EvNewMessage _) = updateNewMessage_t"
| "gw_kind (EvIncomingCall _ _) = IncomingCall_t"
| "gw_kind (EvCallState _ _) = CallStateUpdate_t"
| "gw_kind (EvMediaState _ _) = CallMediaStateUpdate_t"
| "gw_kind (EvInternalError _ _) = InternalError_t"

text \<open>
  Guards and actions take the gateway's own events; their names are those of their types.
\<close>

definition guard_of :: "string \<Rightarrow> (gw_event \<Rightarrow> bool) \<Rightarrow> gw_event guard_expr" where
  "guard_of n g = guard_fun n (\<lambda>e. case e of plain_event x \<Rightarrow> g x | _ \<Rightarrow> False)"

definition action_of :: "string \<Rightarrow> (gw_event \<Rightarrow> ('w, unit) prog) \<Rightarrow> (gw_event, 'w) action_expr" where
  "action_of n a = action_fun n (\<lambda>e. case e of plain_event x \<Rightarrow> a x | _ \<Rightarrow> returnM ())"

type_synonym gw_row = "(gw_machine, gw_event_type, gw_event, ctx \<times> world) back_row"

abbreviation name :: "string \<Rightarrow> gw_machine front_state" where
  "name s \<equiv> state (named_state s)"

abbreviation X :: "gw_machine front_state" where
  "X \<equiv> state terminate_state"

definition written_from_tg :: "env \<Rightarrow> gw_row list" where
  "written_from_tg env =
     [assign_row (source_event (as_initial (name ''sip_wait_media''))
        (guarded_action (event_guard (plain_t CallMediaStateUpdate_t) (guard_of ''IsMediaReady'' IsMediaReady)) (action_of ''AnswerTg'' (AnswerTg env))))
        (name ''wait_tg''),
      assign_row (source_event (name ''wait_tg'')
        (guarded_action (event_guard (plain_t updateCall_t) (guard_of ''IsInState'' (IsInState callStateReady_ID)))
          (action_seq (action_of ''CreateTgVoip'' (CreateTgVoip env)) (action_of ''BridgeAudio'' (BridgeAudio env))))) (name ''wait_dtmf''),
      assign_row (source_event (name ''wait_dtmf'')
        (guarded_action (event_guard (plain_t updateNewMessage_t) (guard_and (guard_of ''IsTextContent'' IsTextContent) (guard_of ''IsDtmfString'' IsDtmfString)))
          (action_of ''DialDtmf'' (DialDtmf env)))) (name ''wait_dtmf'')]"

definition written_from_sip :: "env \<Rightarrow> gw_row list" where
  "written_from_sip env =
     [assign_row (source_event (as_initial (name ''sip_wait_confirm''))
        (guarded_action (event_guard (plain_t CallStateUpdate_t) (guard_of ''IsSipInState'' (IsSipInState PJSIP_INV_STATE_EARLY)))
          (action_of ''DialTg'' (DialTg env)))) (name ''wait_tg''),
      assign_row (source_event (name ''wait_tg'')
        (guarded_action (event_guard (plain_t updateCall_t) (guard_of ''IsInState'' (IsInState callStateReady_ID)))
          (action_seq (action_seq (action_of ''StoreTgUserId'' StoreTgUserId) (action_of ''CreateTgVoip'' (CreateTgVoip env))) (action_of ''AnswerSip'' (AnswerSip env)))))
        (name ''sip_wait_media''),
      assign_row (source_event (name ''sip_wait_media'')
        (guarded_action (event_guard (plain_t CallMediaStateUpdate_t) (guard_of ''IsMediaReady'' IsMediaReady)) (action_of ''BridgeAudio'' (BridgeAudio env))))
        (name ''wait_dtmf''),
      assign_row (source_event (name ''wait_dtmf'')
        (guarded_action (event_guard (plain_t updateNewMessage_t) (guard_and (guard_of ''IsTextContent'' IsTextContent) (guard_of ''IsDtmfString'' IsDtmfString)))
          (action_of ''DialDtmf'' (DialDtmf env)))) (name ''wait_dtmf'')]"

definition written_rows :: "env \<Rightarrow> gw_row list" where
  "written_rows env =
     [assign_row (source_event (as_initial (name ''init''))
        (guarded_action (event_guard (plain_t updateCall_t)
            (guard_and (guard_and (guard_of ''IsIncoming'' IsIncoming) (guard_of ''IsInState'' (IsInState callStatePending_ID)))
               (guard_of ''CallbackUriIsSet'' (CallbackUriIsSet (e_settings env)))))
          (action_seq (action_seq (action_of ''StoreTgId'' StoreTgId) (action_of ''StoreTgUserId'' StoreTgUserId)) (action_of ''DialSip'' (DialSip env)))))
        (state (sub_machine M_from_tg)),
      assign_row (source_event (name ''init'')
        (guarded_action (event_guard (plain_t updateCall_t)
            (guard_and (guard_and (guard_of ''IsIncoming'' IsIncoming) (guard_of ''IsInState'' (IsInState callStatePending_ID)))
               (guard_not (guard_of ''CallbackUriIsSet'' (CallbackUriIsSet (e_settings env))))))
          (action_of ''StoreTgId'' StoreTgId))) X,
      assign_row (source_event (name ''init'') (front_event (plain_t updateCall_t))) X,
      assign_row (source_event (name ''init'') (event_action (plain_t IncomingCall_t)
          (action_seq (action_of ''StoreSipId'' StoreSipId) (action_of ''AcceptIncomingSip'' (AcceptIncomingSip env))))) (state (sub_machine M_from_sip)),
      assign_row (source_event (name ''init'') (front_event (plain_t CallStateUpdate_t))) X,
      assign_row (source_event (name ''init'') (front_event (plain_t CallMediaStateUpdate_t))) X,
      assign_row (source_event (state (sub_machine M_from_tg))
        (guarded_action (event_guard (plain_t updateCall_t)
            (guard_or (guard_of ''IsInState'' (IsInState callStateDiscarded_ID)) (guard_of ''IsInState'' (IsInState callStateError_ID))))
          (action_of ''CleanTgId'' CleanTgId))) X,
      assign_row (source_event (state (sub_machine M_from_tg))
        (guarded_action (event_guard (plain_t CallStateUpdate_t) (guard_of ''IsSipInState'' (IsSipInState PJSIP_INV_STATE_DISCONNECTED)))
          (action_of ''CleanSipId'' CleanSipId))) X,
      assign_row (source_event (state (sub_machine M_from_tg)) (event_action (plain_t InternalError_t) (action_of ''SetHangupPrm'' SetHangupPrm))) X,
      assign_row (source_event (state (sub_machine M_from_sip))
        (guarded_action (event_guard (plain_t updateCall_t)
            (guard_or (guard_of ''IsInState'' (IsInState callStateDiscarded_ID)) (guard_of ''IsInState'' (IsInState callStateError_ID))))
          (action_of ''CleanTgId'' CleanTgId))) X,
      assign_row (source_event (state (sub_machine M_from_sip)) (event_action (plain_t InternalError_t) (action_of ''SetHangupPrm'' SetHangupPrm))) X,
      assign_row (source_event (state (sub_machine M_from_sip))
        (guarded_action (event_guard (plain_t CallStateUpdate_t) (guard_of ''IsSipInState'' (IsSipInState PJSIP_INV_STATE_DISCONNECTED)))
          (action_of ''CleanSipId'' CleanSipId))) X]"

definition written_StateMachine :: "env \<Rightarrow> gw_row list" where
  "written_StateMachine env =
     written_rows env
     @ (case internal_row (source_event X (event_action on_entry_any (action_fun ''CleanUp'' (\<lambda>e. CleanUp env)))) of None \<Rightarrow> [] | Some t \<Rightarrow> [t])"

definition gw_backend :: "env \<Rightarrow> dispatch_policy \<Rightarrow> (gw_machine, gw_event_type, gw_event, ctx \<times> world) backend" where
  "gw_backend env policy =
     \<lparr>be_table = (\<lambda>m. case m of
          M_StateMachine \<Rightarrow> written_StateMachine env
        | M_from_tg \<Rightarrow> written_from_tg env
        | M_from_sip \<Rightarrow> written_from_sip env),
      be_kind = gw_kind, be_policy = policy, be_nesting = 2, be_logger = None\<rparr>"

section \<open>They are the tables of the development\<close>

fun main_name :: "main_state \<Rightarrow> gw_machine back_state" where
  "main_name S_init = named_state ''init''"
| "main_name S_from_tg = sub_machine M_from_tg"
| "main_name S_from_sip = sub_machine M_from_sip"
| "main_name S_X = terminate_state"

fun sub_state_name :: "sub_state \<Rightarrow> gw_machine back_state" where
  "sub_state_name sip_wait_media = named_state ''sip_wait_media''"
| "sub_state_name wait_tg = named_state ''wait_tg''"
| "sub_state_name wait_dtmf = named_state ''wait_dtmf''"
| "sub_state_name sip_wait_confirm = named_state ''sip_wait_confirm''"

lemma names_inj: "inj main_name" "inj sub_state_name"
proof -
  show "inj main_name"
  proof (rule injI)
    show "main_name x = main_name y \<Longrightarrow> x = y" for x y by (cases x; cases y) simp_all
  qed
  show "inj sub_state_name"
  proof (rule injI)
    show "sub_state_name x = sub_state_name y \<Longrightarrow> x = y" for x y by (cases x; cases y) simp_all
  qed
qed

lemma kinds:
  "(\<lambda>e. updateCall_t = gw_kind e) = is_updateCall" "(\<lambda>e. updateNewMessage_t = gw_kind e) = is_updateNewMessage"
  "(\<lambda>e. IncomingCall_t = gw_kind e) = is_IncomingCall" "(\<lambda>e. CallStateUpdate_t = gw_kind e) = is_CallStateUpdate"
  "(\<lambda>e. CallMediaStateUpdate_t = gw_kind e) = is_CallMediaStateUpdate" "(\<lambda>e. InternalError_t = gw_kind e) = is_InternalError"
  by (rule ext, case_tac e; simp)+

lemma row_guard_front:
  "row_guard (front_row d s k None a) = sml_always" "row_guard (front_row d s k (Some g) a) = (\<lambda>e. guard_value g (plain_event e))"
  "row_action (front_row d s k h None) = sml_none" "row_action (front_row d s k h (Some b)) = (\<lambda>e. action_prog b (plain_event e))"
  by (rule ext; simp add: row_guard_def row_action_def front_row_def sml_always_def sml_none_def)+

lemma plain_of:
  "(\<lambda>e. guard_value (guard_of n g) (plain_event e)) = g" "(\<lambda>e. action_prog (action_of n a) (plain_event e)) = a"
  "(\<lambda>e. sml_and f h (plain_event e)) = sml_and (\<lambda>e. f (plain_event e)) (\<lambda>e. h (plain_event e))"
  "(\<lambda>e. sml_or f h (plain_event e)) = sml_or (\<lambda>e. f (plain_event e)) (\<lambda>e. h (plain_event e))"
  "(\<lambda>e. sml_not f (plain_event e)) = sml_not (\<lambda>e. f (plain_event e))"
  "(\<lambda>e. sml_seq b c (plain_event e)) = sml_seq (\<lambda>e. b (plain_event e)) (\<lambda>e. c (plain_event e))"
  by (rule ext; simp add: guard_of_def action_of_def sml_and_def sml_or_def sml_not_def sml_seq_def)+

lemma sml_seq_assoc: "sml_seq (sml_seq a b) c = sml_seq a (sml_seq b c)"
  by (rule ext) (simp add: sml_seq_def thenM_def bindM_assoc)

lemma engine_front:
  "engine_row gw_kind (front_row d s (plain_t k) g a) =
     \<lparr>t_src = fs_type s, t_event = (\<lambda>e. k = gw_kind e), t_guard = row_guard (front_row d s (plain_t k) g a),
      t_action = row_action (front_row d s (plain_t k) g a), t_dst = d\<rparr>"
  by (simp add: engine_row_def) (simp add: front_row_def)

lemma front_row_sel [simp]:
  "r_src (front_row d s k g a) = fs_type s" "r_dst (front_row d s k g a) = d" "r_event (front_row d s k g a) = k"
  "r_initial (front_row d s k g a) = fs_initial s" "r_history (front_row d s k g a) = fs_history s"
  "r_guard (front_row d s k g a) = g" "r_action (front_row d s k g a) = a"
  by (simp_all add: front_row_def)

lemma state_sel [simp]:
  "fs_type (state s) = s" "\<not> fs_initial (state s)" "\<not> fs_history (state s)"
  "fs_type (as_initial t) = fs_type t" "fs_initial (as_initial t)" "\<not> fs_history (as_initial t)"
  by (simp_all add: state_def as_initial_def)

lemmas written_defs = written_StateMachine_def written_rows_def written_from_tg_def written_from_sip_def event_guard_def event_action_def

lemma written_engine:
  "map (engine_row gw_kind) (written_rows env) = map (rename_row main_name) (StateMachine env)"
  "map (engine_row gw_kind) (written_from_tg env) = map (rename_row sub_state_name) (from_tg env)"
  "map (engine_row gw_kind) (written_from_sip env) = map (rename_row sub_state_name) (from_sip env)"
  by (simp_all add: written_defs engine_front row_guard_front plain_of kinds sml_seq_assoc rename_row_def row_def
      StateMachine_def from_tg_def from_sip_def)

lemma written_states:
  "states_t (written_StateMachine env) = [named_state ''init'', sub_machine M_from_tg, terminate_state, sub_machine M_from_sip, internal_state]"
  "states_t (written_from_tg env) = [named_state ''sip_wait_media'', named_state ''wait_tg'', named_state ''wait_dtmf'']"
  "states_t (written_from_sip env) = [named_state ''sip_wait_confirm'', named_state ''wait_tg'', named_state ''sip_wait_media'', named_state ''wait_dtmf'']"
  by (simp_all add: written_defs states_t_def unique_def)

lemma written_initial:
  "initial_states_t (written_StateMachine env) = [named_state ''init'']"
  "initial_states_t (written_from_tg env) = [named_state ''sip_wait_media'']"
  "initial_states_t (written_from_sip env) = [named_state ''sip_wait_confirm'']"
  "\<not> has_history_states (written_from_tg env)" "\<not> has_history_states (written_from_sip env)"
  by (simp_all add: written_defs initial_states_t_def has_history_states_def history_states_t_def unique_def)

lemma written_plain:
  "plain_table (written_StateMachine env)" "plain_table (written_from_tg env)" "plain_table (written_from_sip env)"
  by (simp_all add: written_defs plain_table_def)

lemma written_sources: "t \<in> set (written_StateMachine env) \<Longrightarrow> r_src t \<in> range main_name"
proof -
  have "\<forall>t \<in> set (written_StateMachine env). r_src t \<in> {main_name S_init, main_name S_from_tg, main_name S_from_sip, main_name S_X}"
    by (simp add: written_defs)
  then show "t \<in> set (written_StateMachine env) \<Longrightarrow> r_src t \<in> range main_name" by blast
qed

lemma written_proper: "filter (\<lambda>t. r_dst t \<noteq> internal_state) (written_StateMachine env) = written_rows env"
  by (simp add: written_defs)

lemma written_subs:
  "\<forall>t \<in> set (written_from_tg env). r_dst t \<noteq> internal_state" "\<forall>t \<in> set (written_from_sip env). r_dst t \<noteq> internal_state"
  by (simp_all add: written_defs)

lemma written_entry:
  "filter (\<lambda>t. r_event t = on_entry_any \<and> r_src t = s) (written_StateMachine env) =
     (if s = terminate_state then [front_row internal_state X on_entry_any None (Some (action_fun ''CleanUp'' (\<lambda>e. CleanUp env)))] else [])"
  by (simp add: written_defs)

interpretation gw_sml: two_level "gw_backend env policy" M_StateMachine "machine env" main_name sub_state_name for env policy
proof unfold_locales
  show "be_logger (gw_backend env policy) = None" by (simp add: gw_backend_def)
  show "inj main_name" "inj sub_state_name" by (fact names_inj)+
  show "sub_state_name a \<noteq> sub_machine q" for a q by (cases a) simp_all
  show "plain_table (be_table (gw_backend env policy) M_StateMachine)" by (simp add: gw_backend_def written_plain)
  show "map (engine_row (be_kind (gw_backend env policy))) (filter (\<lambda>t. r_dst t \<noteq> internal_state) (be_table (gw_backend env policy) M_StateMachine))
      = map (rename_row main_name) (mc_table (machine env))"
    by (simp add: gw_backend_def written_proper written_engine machine_def)
  show "r_src t \<in> range main_name" if "t \<in> set (be_table (gw_backend env policy) M_StateMachine)" for t
    using that by (simp add: gw_backend_def written_sources)
  show "main_name m \<in> set (states_t (be_table (gw_backend env policy) M_StateMachine))" for m
    by (cases m) (simp_all add: gw_backend_def written_states)
  show "initial_states_t (be_table (gw_backend env policy) M_StateMachine) = [main_name (mc_init (machine env))]"
    by (simp add: gw_backend_def written_initial machine_def)
  show "mc_sub (machine env) (mc_init (machine env)) = None" by (simp add: machine_def sub_tables_def)
  show "filter (\<lambda>t. r_event t = on_entry_any \<and> r_src t = main_name (mc_init (machine env))) (be_table (gw_backend env policy) M_StateMachine) = []"
    by (simp add: gw_backend_def written_entry machine_def)
  show "(filter (\<lambda>t. r_event t = on_entry_any \<and> r_src t = main_name m) (be_table (gw_backend env policy) M_StateMachine) = [] \<and> mc_entry (machine env) m = returnM ())
      \<or> (\<exists>t a. filter (\<lambda>t. r_event t = on_entry_any \<and> r_src t = main_name m) (be_table (gw_backend env policy) M_StateMachine) = [t] \<and> r_dst t = internal_state
           \<and> r_guard t = None \<and> r_action t = Some a \<and> (\<forall>e. action_prog a e = mc_entry (machine env) m))" if "mc_sub (machine env) m = None" for m
    by (cases m) (simp_all add: gw_backend_def written_entry machine_def)
  show "main_name m \<noteq> sub_machine q" if "mc_sub (machine env) m = None" for m q
    using that by (cases m) (simp_all add: machine_def sub_tables_def)
  show "mc_entry (machine env) m = returnM () \<and> filter (\<lambda>t. r_event t = on_entry_any \<and> r_src t = main_name m) (be_table (gw_backend env policy) M_StateMachine) = []"
    if "mc_sub (machine env) m = Some ti" for m ti
    using that by (cases m) (simp_all add: gw_backend_def written_entry machine_def sub_tables_def)
  show "\<exists>q. main_name m = sub_machine q" if "mc_sub (machine env) m = Some ti" for m ti
    using that by (cases m) (simp_all add: machine_def sub_tables_def)
  show "q \<noteq> M_StateMachine \<and> map (engine_row (be_kind (gw_backend env policy))) (be_table (gw_backend env policy) q) = map (rename_row sub_state_name) table
      \<and> initial_states_t (be_table (gw_backend env policy) q) = [sub_state_name i] \<and> \<not> has_history_states (be_table (gw_backend env policy) q)
      \<and> (\<forall>t \<in> set (be_table (gw_backend env policy) q). r_dst t \<noteq> internal_state) \<and> plain_table (be_table (gw_backend env policy) q)"
    if "mc_sub (machine env) m = Some (table, i)" "main_name m = sub_machine q" for m table i q
    using that
    by (cases m) (auto simp: gw_backend_def machine_def sub_tables_def written_engine written_initial written_plain written_subs)
qed

section \<open>The logger\<close>

text \<open>
  \<^verbatim>\<open>state_machine::Logger\<close>. Its lines are written when trace lines are compiled in and the log
  level asks for them. The names of types, which the library cuts out of the compiler's text for
  a function, and the rendering of a Telegram object are parameters; the prefix with file and line that the
  macro \<^verbatim>\<open>TRACE\<close> adds is left out. The overload for \<^verbatim>\<open>sip::events::Event\<close> is
  never chosen: a machine gets the alternatives of that variant, for which the template for any event is
  the better match.
\<close>

record log_texts =
  lt_tracing :: bool
  lt_type :: "string \<Rightarrow> string"
  lt_event :: "gw_event sml_event \<Rightarrow> string"
  lt_updateCall :: "td_call \<Rightarrow> string"

fun state_text :: "log_texts \<Rightarrow> gw_machine back_state \<Rightarrow> string" where
  "state_text tx (named_state s) = s"
| "state_text tx (sub_machine M_StateMachine) = lt_type tx ''StateMachine''"
| "state_text tx (sub_machine M_from_tg) = lt_type tx ''from_tg''"
| "state_text tx (sub_machine M_from_sip) = lt_type tx ''from_sip''"
| "state_text tx terminate_state = ''terminate''"
| "state_text tx internal_state = lt_type tx ''internal''"

fun Logger_line :: "log_texts \<Rightarrow> string \<Rightarrow> (gw_machine, gw_event) log_entry \<Rightarrow> string" where
  "Logger_line tx cid (log_process_event m e) =
     (case e of
        plain_event (EvUpdateCall call) \<Rightarrow> ''['' @ cid @ ''] [process_event]'' @ [CHR 10] @ lt_updateCall tx call
      | _ \<Rightarrow> ''['' @ cid @ ''] [process_event] '' @ lt_event tx e)"
| "Logger_line tx cid (log_guard m g e result) =
     ''['' @ cid @ ''] [guard] '' @ lt_type tx g @ '' event '' @ (if result then ''[OK]'' else ''[Reject]'')"
| "Logger_line tx cid (log_action m a e) = ''['' @ cid @ ''] [action] '' @ lt_type tx a @ '' event''"
| "Logger_line tx cid (log_state_change m src dst) =
     ''['' @ cid @ ''] [transition] '' @ state_text tx src @ '' -> '' @ state_text tx dst"

definition Logger :: "log_texts \<Rightarrow> string \<Rightarrow> (gw_machine, gw_event) log_entry \<Rightarrow> string list \<Rightarrow> string list" where
  "Logger tx cid l lines = (if lt_tracing tx then lines @ [Logger_line tx cid l] else lines)"

section \<open>Property\<close>

fun back_events :: "('m, 'k, 'e, 'w) backend \<Rightarrow> nat \<Rightarrow> 'm \<Rightarrow> 'e list \<Rightarrow> ('m, 'w, unit) backp" where
  "back_events B d m [] = returnM ()"
| "back_events B d m (e # es) = thenM (back_process_event B d m e) (back_events B d m es)"

text \<open>The machine of a new bridge and the events it gets: \<open>3\<close> is as deep as events and machines nest here.\<close>

definition back_run :: "(gw_machine, gw_event_type, gw_event, 'w) backend \<Rightarrow> nat \<Rightarrow> gw_event list \<Rightarrow> (gw_machine, 'w, unit) backp" where
  "back_run B n es = thenM (back_new B (n + 3) M_StateMachine) (back_events B (n + 3) M_StateMachine es)"

lemma back_events_refine:
  assumes "pool_rel (gw_backend env policy) M_StateMachine main_name sub_state_name p s"
  shows "case run_events env es s cw of
      (Inl x, cw') \<Rightarrow> \<exists>p'. back_events (gw_backend env policy) (Suc (Suc (Suc n))) M_StateMachine es (p, cw) = (Inl x, (p', cw'))
    | (Inr s', cw') \<Rightarrow> \<exists>p'. back_events (gw_backend env policy) (Suc (Suc (Suc n))) M_StateMachine es (p, cw) = (Inr (), (p', cw'))
        \<and> pool_rel (gw_backend env policy) M_StateMachine main_name sub_state_name p' s'"
  using assms
proof (induction es arbitrary: p s cw)
  case Nil
  then show ?case by (simp add: returnM_def)
next
  case (Cons e es)
  obtain out cw1 where run: "sm_process_event (machine env) s e cw = (out, cw1)"
    by (cases "sm_process_event (machine env) s e cw")
  show ?case
  proof (cases out)
    case (Inl x)
    then show ?thesis
      using gw_sml.process_refines [OF Cons.prems, where e = e and w = cw and d = n] run by (auto simp: thenM_def bindM_def)
  next
    case (Inr s1)
    then obtain p1 where p1: "back_process_event (gw_backend env policy) (Suc (Suc (Suc n))) M_StateMachine e (p, cw) = (Inr (), (p1, cw1))"
        "pool_rel (gw_backend env policy) M_StateMachine main_name sub_state_name p1 s1"
      using gw_sml.process_refines [OF Cons.prems, where e = e and w = cw and d = n] run by auto
    have "back_events (gw_backend env policy) (Suc (Suc (Suc n))) M_StateMachine (e # es) (p, cw)
        = back_events (gw_backend env policy) (Suc (Suc (Suc n))) M_StateMachine es (p1, cw1)"
      using p1(1) by (simp add: thenM_def bindM_def)
    moreover have "run_events env (e # es) s cw = run_events env es s1 cw1"
      using run Inr by (simp add: bindM_def)
    ultimately show ?thesis using Cons.IH [OF p1(2), of cw1] by presburger
  qed
qed

lemma back_run_refines:
  "case run_events env es (new_sm (machine env)) cw of
     (Inl x, cw') \<Rightarrow> \<exists>p'. back_run (gw_backend env policy) n es (p, cw) = (Inl x, (p', cw'))
   | (Inr s, cw') \<Rightarrow> \<exists>p'. back_run (gw_backend env policy) n es (p, cw) = (Inr (), (p', cw'))
       \<and> (\<forall>m. back_is (gw_backend env policy) M_StateMachine (main_name m) p' \<longleftrightarrow> sm_is s m)"
proof -
  have n: "n + 3 = Suc (Suc (Suc n))" by simp
  obtain p0 where new: "back_new (gw_backend env policy) (n + 3) M_StateMachine (p, cw) = (Inr (), (p0, cw))"
      "pool_rel (gw_backend env policy) M_StateMachine main_name sub_state_name p0 (new_sm (machine env))"
    unfolding n using gw_sml.new_refines by metis
  have "back_run (gw_backend env policy) n es (p, cw) = back_events (gw_backend env policy) (Suc (Suc (Suc n))) M_StateMachine es (p0, cw)"
    using new(1) unfolding back_run_def n by (simp add: thenM_def bindM_def)
  then show ?thesis
    using back_events_refine [OF new(2), where es = es and cw = cw and n = n] gw_sml.is_refines
    by (auto split: prod.splits sum.splits)
qed

lemma erases_run:
  assumes "be_logger B = None"
  shows "erases (back_run (with_logger logger B) n es) (back_run B n es)"
proof -
  have "erases (back_events (with_logger logger B) d m es) (back_events B d m es)" for d m
    by (induction es) (auto intro!: erase_intros erases_process_event assms)
  then show ?thesis unfolding back_run_def by (intro erase_intros erases_new assms)
qed

text \<open>
  C6. The state machine library runs the tables of the gateway as the rest of the development says:
  for every sequence of events, the machine of a new bridge, built from the tables as they are
  written, with the gateway's logger, and run by the back end of the library, calls the same guards and
  actions with the same effects as the engine on the three transition tables, ends in an exception exactly when the engine
  does, and afterwards \<^verbatim>\<open>is\<close> answers by the engine's state. This holds for each of the
  library's ways to dispatch and whatever the logger writes, and the nesting of events and machines stays within its bound.
\<close>

theorem library_runs_tables:
  "case run_events env es (new_sm (machine env)) cw of
     (Inl x, cw') \<Rightarrow> \<exists>p' lines'. back_run (with_logger (Logger tx cid) (gw_backend env policy)) n es (p, (cw, lines)) = (Inl x, (p', (cw', lines')))
   | (Inr s, cw') \<Rightarrow> \<exists>p' lines'. back_run (with_logger (Logger tx cid) (gw_backend env policy)) n es (p, (cw, lines)) = (Inr (), (p', (cw', lines')))
       \<and> (\<forall>m. back_is (with_logger (Logger tx cid) (gw_backend env policy)) M_StateMachine (main_name m) p' \<longleftrightarrow> sm_is s m)"
proof -
  let ?B = "with_logger (Logger tx cid) (gw_backend env policy)"
  have silent: "be_logger (gw_backend env policy) = None" by (simp add: gw_backend_def)
  obtain r p' cw' lines' where run: "back_run ?B n es (p, (cw, lines)) = (r, (p', (cw', lines')))"
    by (metis surj_pair)
  have "back_run (gw_backend env policy) n es (p, cw) = (r, (p', cw'))"
    using erasesD [OF erases_run [OF silent] run] by simp
  moreover have "back_is ?B M_StateMachine s p' \<longleftrightarrow> back_is (gw_backend env policy) M_StateMachine s p'" for s
    by (simp add: back_is_def visit_current_states_def)
  ultimately show ?thesis
    using back_run_refines [where env = env and es = es and cw = cw and policy = policy and n = n and p = p] run by (auto split: prod.splits sum.splits)
qed

section \<open>Reading the trace\<close>

interpretation gw_trace: traced "gw_backend env policy" M_StateMachine "named_state ''init''" for env policy
proof unfold_locales
  show "regions (gw_backend env policy) m = 1" for m
    by (cases m) (simp_all add: regions_def gw_backend_def written_initial)
  show "r_dst t \<noteq> sub_machine M_StateMachine" if "t \<in> set (be_table (gw_backend env policy) m)" for t m
  proof -
    have "\<forall>t \<in> set (be_table (gw_backend env policy) m). r_dst t \<noteq> sub_machine M_StateMachine"
      by (cases m) (simp_all add: gw_backend_def written_defs)
    then show ?thesis using that by blast
  qed
  show "initial_states_t (be_table (gw_backend env policy) M_StateMachine) = [named_state ''init'']"
    by (simp add: gw_backend_def written_initial)
qed

text \<open>
  C30. The trace can be relied on. For every sequence of events, and also when an exception ends it,
  the destination of the last transition that the logger of a bridge was told of for the bridge's machine
  (\<^verbatim>\<open>init\<close> if there was none) is the one state for which \<^verbatim>\<open>is\<close> answers yes.
\<close>

theorem trace_names_state:
  "case back_run (collecting (gw_backend env policy)) n es (p, (cw, [])) of (r, (p', (cw', entries))) \<Rightarrow>
     \<forall>m. back_is (collecting (gw_backend env policy)) M_StateMachine (main_name m) p'
       \<longleftrightarrow> main_name m = last_state M_StateMachine (named_state ''init'') entries"
proof -
  let ?C = "collecting (gw_backend env policy)"
  have "keeps (gw_trace.tells env policy) (back_events ?C d m es)" for d m
    by (induction es) (auto intro!: inv_intros gw_trace.tells_event)
  then have tells: "gw_trace.tells env policy (snd (back_run ?C n es (p, (cw, []))))"
    using gw_trace.tells_new [of env policy "n + 3" p cw]
    by (auto simp: back_run_def thenM_def bindM_def keeps_def split: prod.split sum.split)
  obtain r p' cw' ls where run: "back_run ?C n es (p, (cw, [])) = (r, (p', (cw', ls)))" by (metis surj_pair)
  have "main_name m \<in> set (states_t (be_table (gw_backend env policy) M_StateMachine))" for m
    by (cases m) (simp_all add: gw_backend_def written_states)
  then have "back_is ?C M_StateMachine (main_name m) p' \<longleftrightarrow> main_name m = last_state M_StateMachine (named_state ''init'') ls" for m
    using tells run by (intro gw_trace.tells_is [where w = cw']) simp_all
  then show ?thesis by (simp add: run)
qed

end
