(* ===== verification/Gen_Db.thy ===== *)
theory Gen_Db
  imports Tg_Client
begin

text \<open>
  The sign-on program \<^verbatim>\<open>tg2sip/gen_db.cpp\<close>: a single-threaded client that asks its user for
  what Telegram wants to know until the authorization is decided. The words that
  \<^verbatim>\<open>std::cin >> s\<close> reads are a list; at its end the string stays empty. Of the texts for
  the terminal the reports are kept and the prompts are left out; of an error its message.
\<close>

section \<open>State\<close>

datatype auth_handler = NoAction | CheckError "64 word"

record td_client =
  sequence_done :: bool
  auth_state :: "authorization_state option"
  current_query_id :: "64 word"
  authentication_query_id :: "64 word"
  auth_handlers :: "64 word \<rightharpoonup> auth_handler"
  auth_sent :: "(64 word \<times> td_function) list"
  auth_words :: "string list"
  auth_said :: "string list"

definition new_TDClient :: "string list \<Rightarrow> td_client" where
  "new_TDClient input =
     \<lparr>sequence_done = False, auth_state = None, current_query_id = 0, authentication_query_id = 0,
      auth_handlers = Map.empty, auth_sent = [], auth_words = input, auth_said = []\<rparr>"

definition say :: "string \<Rightarrow> (td_client, unit) prog" where
  "say t = modifyM (\<lambda>c. c\<lparr>auth_said := auth_said c @ [t]\<rparr>)"

definition read_word :: "(td_client, string) prog" where
  "read_word =
     bindM (getM auth_words) (\<lambda>ws.
       case ws of
         [] \<Rightarrow> returnM []
       | x # xs \<Rightarrow> thenM (modifyM (\<lambda>c. c\<lparr>auth_words := xs\<rparr>)) (returnM x))"

section \<open>Queries\<close>

definition auth_next_query_id :: "(td_client, 64 word) prog" where
  "auth_next_query_id =
     thenM (modifyM (\<lambda>c. c\<lparr>current_query_id := current_query_id c + 1\<rparr>)) (getM current_query_id)"

definition auth_send_query :: "td_function \<Rightarrow> auth_handler \<Rightarrow> (td_client, unit) prog" where
  "auth_send_query f h =
     bindM auth_next_query_id (\<lambda>q.
     thenM (modifyM (\<lambda>c. c\<lparr>auth_handlers := map_emplace q h (auth_handlers c)\<rparr>))
       (modifyM (\<lambda>c. c\<lparr>auth_sent := auth_sent c @ [(q, f)]\<rparr>)))"

definition create_authentication_query_handler :: "(td_client, auth_handler) prog" where
  "create_authentication_query_handler = getM (\<lambda>c. CheckError (authentication_query_id c))"

text \<open>A query whose failure repeats the current state.\<close>

definition auth_query :: "td_function \<Rightarrow> (td_client, unit) prog" where
  "auth_query f = bindM create_authentication_query_handler (auth_send_query f)"

section \<open>Authorization states\<close>

definition handle_state :: "settings \<Rightarrow> authorization_state \<Rightarrow> (td_client, unit) prog" where
  "handle_state s st = (case st of
     authorizationStateReady \<Rightarrow>
       thenM (modifyM (\<lambda>c. c\<lparr>sequence_done := True\<rparr>)) (say ''Authorization OK'')
   | authorizationStateLoggingOut \<Rightarrow>
       thenM (modifyM (\<lambda>c. c\<lparr>sequence_done := True\<rparr>)) (say ''Logging out'')
   | authorizationStateClosing \<Rightarrow> say ''Closing''
   | authorizationStateClosed \<Rightarrow>
       thenM (modifyM (\<lambda>c. c\<lparr>sequence_done := True\<rparr>)) (say ''Terminated'')
   | authorizationStateWaitCode \<Rightarrow> bindM read_word (\<lambda>x. auth_query (checkAuthenticationCode x))
   | authorizationStateWaitRegistration \<Rightarrow>
       bindM read_word (\<lambda>first_name. bindM read_word (\<lambda>last_name. auth_query (registerUser first_name last_name False)))
   | authorizationStateWaitPassword \<Rightarrow> bindM read_word (\<lambda>x. auth_query (checkAuthenticationPassword x))
   | authorizationStateWaitOtherDeviceConfirmation link \<Rightarrow> say (''Confirm this login link on another device: '' @ link)
   | authorizationStateWaitPhoneNumber \<Rightarrow> bindM read_word (\<lambda>x. auth_query (setAuthenticationPhoneNumber x))
   | authorizationStateWaitPremiumPurchase \<Rightarrow> say ''This account requires a Telegram Premium purchase to log in - unsupported here''
   | authorizationStateWaitEmailAddress \<Rightarrow> say ''This account requires email-based login - unsupported here''
   | authorizationStateWaitEmailCode \<Rightarrow> say ''This account requires an email login code - unsupported here''
   | authorizationStateWaitTdlibParameters \<Rightarrow>
       thenM (auth_send_query (init_proxy s) NoAction) (auth_query (init_lib_parameters s)))"

text \<open>The state is dereferenced: without one this is undefined.\<close>

definition auth_on_authorization_state_update :: "settings \<Rightarrow> (td_client, unit) prog" where
  "auth_on_authorization_state_update s =
     thenM (modifyM (\<lambda>c. c\<lparr>authentication_query_id := authentication_query_id c + 1\<rparr>))
       (bindM (getM auth_state) (\<lambda>st.
          case st of
            None \<Rightarrow> throwM (Undefined ''null authorization state'')
          | Some st \<Rightarrow> handle_state s st))"

definition auth_check_authentication_error :: "settings \<Rightarrow> td_object \<Rightarrow> (td_client, unit) prog" where
  "auth_check_authentication_error s obj = (case obj of
     td_error _ message \<Rightarrow> thenM (say (''Error: '' @ message)) (auth_on_authorization_state_update s)
   | _ \<Rightarrow> returnM ())"

definition auth_run_handler :: "settings \<Rightarrow> auth_handler \<Rightarrow> td_object \<Rightarrow> (td_client, unit) prog" where
  "auth_run_handler s h obj = (case h of
     NoAction \<Rightarrow> returnM ()
   | CheckError k \<Rightarrow>
       bindM (getM authentication_query_id) (\<lambda>cur.
         whenM (k = cur) (auth_check_authentication_error s obj)))"

section \<open>Responses\<close>

definition auth_process_update :: "settings \<Rightarrow> td_object \<Rightarrow> (td_client, unit) prog" where
  "auth_process_update s obj = (case obj of
     updateAuthorizationState st \<Rightarrow>
       thenM (modifyM (\<lambda>c. c\<lparr>auth_state := Some st\<rparr>)) (auth_on_authorization_state_update s)
   | _ \<Rightarrow> returnM ())"

definition auth_process_response :: "settings \<Rightarrow> 64 word \<times> td_object option \<Rightarrow> (td_client, unit) prog" where
  "auth_process_response s response =
     (case response of (rid, obj) \<Rightarrow>
        case obj of
          None \<Rightarrow> returnM ()
        | Some obj \<Rightarrow>
            if rid = 0 then auth_process_update s obj
            else bindM (getM auth_handlers) (\<lambda>hs.
              case hs rid of
                None \<Rightarrow> returnM ()
              | Some h \<Rightarrow>
                  thenM (auth_run_handler s h obj)
                    (modifyM (\<lambda>c. c\<lparr>auth_handlers := map_erase rid (auth_handlers c)\<rparr>))))"

text \<open>The loop on the responses that arrive: whether it has ended when they are used up.\<close>

fun auth :: "settings \<Rightarrow> (64 word \<times> td_object option) list \<Rightarrow> (td_client, bool) prog" where
  "auth s rs =
     bindM (getM sequence_done) (\<lambda>finished.
       if finished then returnM True
       else (case rs of
               [] \<Rightarrow> returnM False
             | r # rs' \<Rightarrow> thenM (auth_process_response s r) (auth s rs')))"

declare auth.simps [simp del]

section \<open>Invariant\<close>

text \<open>
  At most one pending query belongs to the current authorization state, and a state is known
  whenever such a query is pending.
\<close>

definition auth_inv :: "td_client \<Rightarrow> bool" where
  "auth_inv c \<longleftrightarrow>
     (\<forall>q h. auth_handlers c q = Some h \<longrightarrow> 0 < unat q \<and> unat q \<le> unat (current_query_id c))
     \<and> (\<forall>q k. auth_handlers c q = Some (CheckError k) \<longrightarrow> unat k \<le> unat (authentication_query_id c) \<and> auth_state c \<noteq> None)
     \<and> (\<forall>q q'. auth_handlers c q = Some (CheckError (authentication_query_id c)) \<longrightarrow>
          auth_handlers c q' = Some (CheckError (authentication_query_id c)) \<longrightarrow> q = q')"

text \<open>No pending query belongs to the current state: what holds right after the state was counted up.\<close>

definition no_current :: "td_client \<Rightarrow> bool" where
  "no_current c \<longleftrightarrow> (\<forall>q. auth_handlers c q \<noteq> Some (CheckError (authentication_query_id c)))"

definition auth_room :: "nat \<Rightarrow> td_client \<Rightarrow> bool" where
  "auth_room n c \<longleftrightarrow> unat (current_query_id c) + n \<le> 18446744073709551615
     \<and> unat (authentication_query_id c) < 18446744073709551615"

lemma unat_Suc: "unat (x :: 64 word) < 18446744073709551615 \<Longrightarrow> unat (x + 1) = Suc (unat x)"
  by (subst unat_add_lem [THEN iffD1]) auto

lemma auth_send_eq:
  assumes "auth_inv c" and "auth_room (Suc n) c"
  shows "auth_send_query f h c = (Inr (), c\<lparr>current_query_id := current_query_id c + 1,
    auth_handlers := (auth_handlers c)(current_query_id c + 1 \<mapsto> h),
    auth_sent := auth_sent c @ [(current_query_id c + 1, f)]\<rparr>)"
proof -
  have "auth_handlers c (current_query_id c + 1) = None"
    using assms unat_Suc [of "current_query_id c"]
    by (cases "auth_handlers c (current_query_id c + 1)") (fastforce simp: auth_inv_def auth_room_def)+
  then show ?thesis
    by (simp add: auth_send_query_def auth_next_query_id_def map_emplace_def prog_simps)
qed

lemma auth_inv_send:
  assumes "auth_inv c" and "auth_room (Suc n) c" and "auth_state c \<noteq> None"
    and "h = NoAction \<or> h = CheckError (authentication_query_id c) \<and> no_current c"
  shows "auth_inv (snd (auth_send_query f h c))" and "auth_room n (snd (auth_send_query f h c))"
proof -
  have nxt: "unat (current_query_id c + 1) = Suc (unat (current_query_id c))"
    using assms(2) by (intro unat_Suc) (simp add: auth_room_def)
  have le: "unat q \<le> Suc (unat (current_query_id c))" if "auth_handlers c q = Some h" for q h
    using assms(1) that by (fastforce simp: auth_inv_def)
  show "auth_inv (snd (auth_send_query f h c))"
    using assms(1,3,4) le unfolding auth_send_eq [OF assms(1,2)] auth_inv_def no_current_def by (auto simp: nxt)
  show "auth_room n (snd (auth_send_query f h c))"
    using assms(2) nxt unfolding auth_send_eq [OF assms(1,2)] by (simp add: auth_room_def)
qed

lemma auth_inv_fields [simp]:
  "auth_inv (c\<lparr>sequence_done := d\<rparr>) = auth_inv c" "auth_inv (c\<lparr>auth_words := ws\<rparr>) = auth_inv c"
  "auth_inv (c\<lparr>auth_said := ts\<rparr>) = auth_inv c" "no_current (c\<lparr>auth_words := ws\<rparr>) = no_current c"
  "auth_room n (c\<lparr>auth_words := ws\<rparr>) = auth_room n c" "auth_room n (c\<lparr>auth_said := ts\<rparr>) = auth_room n c"
  by (simp_all add: auth_inv_def no_current_def auth_room_def)

text \<open>What handling a state leaves: the invariant, given that no query belongs to the state yet.\<close>

definition ready :: "nat \<Rightarrow> td_client \<Rightarrow> bool" where
  "ready n c \<longleftrightarrow> auth_inv c \<and> no_current c \<and> auth_state c \<noteq> None \<and> auth_room n c"

lemma ready_query:
  assumes "ready (Suc n) c"
  shows "auth_inv (snd (auth_query f c))"
proof -
  have "auth_query f c = auth_send_query f (CheckError (authentication_query_id c)) c"
    by (simp add: auth_query_def create_authentication_query_handler_def bindM_def getM_def)
  then show ?thesis using assms auth_inv_send(1) [of c n] by (simp add: ready_def)
qed

lemma ready_word:
  assumes "ready n c"
  shows "\<exists>x c'. read_word c = (Inr x, c') \<and> ready n c'"
  using assms by (cases "auth_words c") (auto simp: read_word_def ready_def prog_simps)

lemma ready_word_query:
  assumes "ready (Suc n) c" and "\<And>x c'. ready (Suc n) c' \<Longrightarrow> auth_inv (snd (m x c'))"
  shows "auth_inv (snd (bindM read_word m c))"
  using ready_word [OF assms(1)] assms(2) by (auto simp: bindM_def)

lemma ready_say: "ready n c \<Longrightarrow> auth_inv (snd (say t c))"
  "ready n c \<Longrightarrow> auth_inv (snd (thenM (modifyM (\<lambda>c. c\<lparr>sequence_done := True\<rparr>)) (say t) c))"
  by (simp_all add: say_def thenM_def bindM_def modifyM_def ready_def)

lemma ready_parameters:
  assumes "ready 2 c"
  shows "auth_inv (snd (thenM (auth_send_query p NoAction) (auth_query f) c))"
proof -
  have c: "auth_inv c" "auth_room (Suc 1) c" "auth_state c \<noteq> None" "no_current c"
    using assms by (simp_all add: ready_def auth_room_def)
  obtain d where d: "auth_send_query p NoAction c = (Inr (), d)" by (simp add: auth_send_eq [OF c(1,2)])
  have "no_current d" "auth_state d \<noteq> None"
    using d c(3,4) by (auto simp: auth_send_eq [OF c(1,2)] no_current_def split: if_splits)
  moreover have "auth_inv d" "auth_room 1 d" using auth_inv_send [OF c(1-3), of NoAction p] d by simp_all
  ultimately have "ready (Suc 0) d" by (simp add: ready_def)
  then show ?thesis using ready_query [of 0 d f] d by (simp add: thenM_def bindM_def)
qed

lemma handle_state_inv:
  assumes "ready 2 c"
  shows "auth_inv (snd (handle_state s st c))"
proof -
  have one: "ready (Suc 1) c" using assms by (simp add: ready_def auth_room_def)
  show ?thesis
    using ready_parameters [OF assms] ready_say [OF one]
    by (cases st) (auto simp: handle_state_def intro!: ready_word_query [OF one] ready_query ready_word_query [where n = 1])
qed


lemma count_up_ready:
  assumes "auth_inv c" and "auth_room 2 c" and "auth_state c \<noteq> None" and "unat (authentication_query_id c) + 1 < 18446744073709551615"
  shows "ready 2 (c\<lparr>authentication_query_id := authentication_query_id c + 1\<rparr>)"
proof -
  have nxt: "unat (authentication_query_id c + 1) = Suc (unat (authentication_query_id c))"
    using assms(4) by (intro unat_Suc) simp
  have "auth_handlers c q \<noteq> Some (CheckError (authentication_query_id c + 1))" for q
  proof
    assume "auth_handlers c q = Some (CheckError (authentication_query_id c + 1))"
    then have "unat (authentication_query_id c + 1) \<le> unat (authentication_query_id c)"
      using assms(1) by (auto simp: auth_inv_def)
    then show False using nxt by simp
  qed
  then show ?thesis
    using assms nxt by (fastforce simp: ready_def auth_inv_def no_current_def auth_room_def)
qed

lemma auth_update_eq:
  assumes "auth_state c = Some st"
  shows "auth_on_authorization_state_update s c =
    handle_state s st (c\<lparr>authentication_query_id := authentication_query_id c + 1\<rparr>)"
  using assms by (simp add: auth_on_authorization_state_update_def thenM_def bindM_def modifyM_def getM_def)

lemma auth_update_inv:
  assumes "auth_inv c" and "auth_room 2 c" and "auth_state c \<noteq> None" and "unat (authentication_query_id c) + 1 < 18446744073709551615"
  shows "auth_inv (snd (auth_on_authorization_state_update s c))"
  using handle_state_inv [OF count_up_ready [OF assms]] assms(3) by (auto simp: auth_update_eq)

text \<open>The steps: responses, as long as the identifiers do not run out.\<close>

inductive auth_step :: "settings \<Rightarrow> td_client \<Rightarrow> td_client \<Rightarrow> bool" for s where
  auth_response: "auth_room 2 c \<Longrightarrow> unat (authentication_query_id c) + 1 < 18446744073709551615 \<Longrightarrow>
    auth_step s c (snd (auth_process_response s r c))"

lemma auth_inv_erase: "auth_inv c \<Longrightarrow> auth_inv (c\<lparr>auth_handlers := map_erase q (auth_handlers c)\<rparr>)"
  by (fastforce simp: auth_inv_def map_erase_def split: if_splits)

lemma auth_run_handler_inv:
  assumes "auth_inv c" and "auth_room 2 c" and "unat (authentication_query_id c) + 1 < 18446744073709551615"
    and "auth_handlers c q = Some h"
  shows "auth_inv (snd (auth_run_handler s h obj c))"
proof (cases "\<exists>n m. h = CheckError (authentication_query_id c) \<and> obj = td_error n m")
  case True
  then have "auth_state c \<noteq> None" using assms(1,4) by (auto simp: auth_inv_def)
  then show ?thesis
    using True assms auth_update_inv [of "c\<lparr>auth_said := auth_said c @ [''Error: '' @ m]\<rparr>" s for m]
    by (auto simp: auth_run_handler_def auth_check_authentication_error_def say_def whenM_def thenM_def bindM_def getM_def modifyM_def)
next
  case False
  then show ?thesis
    using assms(1) by (auto simp: auth_run_handler_def auth_check_authentication_error_def whenM_def bindM_def getM_def returnM_def
        split: auth_handler.splits td_object.splits)
qed

lemma auth_response_inv:
  assumes "auth_inv c" and "auth_room 2 c" and "unat (authentication_query_id c) + 1 < 18446744073709551615"
  shows "auth_inv (snd (auth_process_response s r c))"
proof -
  obtain q obj where r: "r = (q, obj)" by fastforce
  consider "obj = None" | x where "obj = Some x" "q = 0" | x where "obj = Some x" "q \<noteq> 0" by (cases obj) auto
  then show ?thesis
  proof cases
    case 1
    then show ?thesis using assms(1) by (simp add: auth_process_response_def r returnM_def)
  next
    case (2 x)
    have "auth_inv (c\<lparr>auth_state := Some st\<rparr>)" for st using assms(1) by (auto simp: auth_inv_def)
    moreover have "auth_room 2 (c\<lparr>auth_state := Some st\<rparr>)" for st using assms(2) by (simp add: auth_room_def)
    ultimately show ?thesis
      using 2 assms auth_update_inv [of "c\<lparr>auth_state := Some st\<rparr>" s for st]
      by (auto simp: auth_process_response_def r auth_process_update_def returnM_def thenM_def bindM_def modifyM_def split: td_object.split)
  next
    case (3 x)
    show ?thesis
    proof (cases "auth_handlers c q")
      case None
      then show ?thesis using 3 assms(1) by (simp add: auth_process_response_def r bindM_def getM_def returnM_def)
    next
      case (Some h)
      obtain o' d where d: "auth_run_handler s h x c = (o', d)" by fastforce
      then have "auth_inv d" using auth_run_handler_inv [OF assms Some, of s x] by simp
      then show ?thesis
        using 3 Some d auth_inv_erase by (cases o') (simp_all add: auth_process_response_def r bindM_def getM_def thenM_def modifyM_def)
    qed
  qed
qed

interpretation gdb: invariant_system "\<lambda>c. \<exists>input. c = new_TDClient input" "auth_step s" auth_inv for s
proof
  show "\<exists>input. c = new_TDClient input \<Longrightarrow> auth_inv c" for c
    by (auto simp: auth_inv_def new_TDClient_def)
  show "auth_inv c \<Longrightarrow> auth_step s c d \<Longrightarrow> auth_inv d" for c d
    by (auto elim!: auth_step.cases intro: auth_response_inv)
qed


section \<open>Properties\<close>

text \<open>
  C36. A rejected input is asked for again, and only once. In every state that responses can lead to,
  at most one pending query belongs to the current authorization state. An error in answer to that
  query is reported and then has exactly the effect of the state being announced again (the next
  input is read and sent); an error in answer to a query of an earlier state, and any other
  answer, only removes the handler.
\<close>

theorem auth_retry:
  assumes "reach (\<lambda>c. \<exists>input. c = new_TDClient input) (auth_step s) c" and "auth_handlers c q = Some (CheckError k)"
  shows "(k = authentication_query_id c \<longrightarrow>
      (\<exists>st. auth_state c = Some st
        \<and> auth_process_response s (q, Some (td_error n m)) c =
            thenM (auth_process_update s (updateAuthorizationState st))
              (modifyM (\<lambda>d. d\<lparr>auth_handlers := map_erase q (auth_handlers d)\<rparr>)) (c\<lparr>auth_said := auth_said c @ [''Error: '' @ m]\<rparr>))
      \<and> (\<forall>q'. auth_handlers c q' = Some (CheckError k) \<longrightarrow> q' = q))
    \<and> (k \<noteq> authentication_query_id c \<or> (\<forall>n m. obj \<noteq> td_error n m) \<longrightarrow>
      auth_process_response s (q, Some obj) c = (Inr (), c\<lparr>auth_handlers := map_erase q (auth_handlers c)\<rparr>))"
proof -
  have inv: "auth_inv c" using assms(1) by (rule gdb.reach_inv)
  then have q: "q \<noteq> 0" using assms(2) by (auto simp: auth_inv_def)
  have run: "auth_process_response s (q, Some x) c = thenM (auth_run_handler s (CheckError k) x)
      (modifyM (\<lambda>d. d\<lparr>auth_handlers := map_erase q (auth_handlers d)\<rparr>)) c" for x
    using q assms(2) by (simp add: auth_process_response_def bindM_def getM_def)
  have "auth_state c \<noteq> None" using inv assms(2) unfolding auth_inv_def by blast
  then obtain st where st: "auth_state c = Some st" by blast
  have again: "auth_run_handler s (CheckError k) (td_error n m) c =
      auth_process_update s (updateAuthorizationState st) (c\<lparr>auth_said := auth_said c @ [''Error: '' @ m]\<rparr>)"
    if "k = authentication_query_id c"
    using that st by (cases c) (simp add: auth_run_handler_def auth_check_authentication_error_def say_def auth_process_update_def
        whenM_def thenM_def bindM_def getM_def modifyM_def)
  have one: "\<forall>q'. auth_handlers c q' = Some (CheckError k) \<longrightarrow> q' = q" if "k = authentication_query_id c"
    using that inv assms(2) by (auto simp: auth_inv_def)
  have skip: "auth_run_handler s (CheckError k) obj c = (Inr (), c)"
    if "k \<noteq> authentication_query_id c \<or> (\<forall>n m. obj \<noteq> td_error n m)"
    using that by (auto simp: auth_run_handler_def auth_check_authentication_error_def whenM_def bindM_def getM_def returnM_def
        split: td_object.split)
  show ?thesis
  proof (intro conjI impI)
    assume k: "k = authentication_query_id c"
    show "\<exists>st. auth_state c = Some st
        \<and> auth_process_response s (q, Some (td_error n m)) c =
            thenM (auth_process_update s (updateAuthorizationState st))
              (modifyM (\<lambda>d. d\<lparr>auth_handlers := map_erase q (auth_handlers d)\<rparr>)) (c\<lparr>auth_said := auth_said c @ [''Error: '' @ m]\<rparr>)"
      using st again [OF k] by (intro exI [of _ st]) (simp add: run thenM_def bindM_def)
    show "\<forall>q'. auth_handlers c q' = Some (CheckError k) \<longrightarrow> q' = q" using one [OF k] .
  next
    assume "k \<noteq> authentication_query_id c \<or> (\<forall>n m. obj \<noteq> td_error n m)"
    then show "auth_process_response s (q, Some obj) c = (Inr (), c\<lparr>auth_handlers := map_erase q (auth_handlers c)\<rparr>)"
      unfolding run thenM_def bindM_def using skip by (simp add: modifyM_def)
  qed
qed

definition asked_code :: td_client where
  "asked_code = snd (auth_process_response undefined (0, Some (updateAuthorizationState authorizationStateWaitCode))
     (new_TDClient [''11'', ''22'']))"

theorem auth_retry_witness:
  "map snd (auth_sent (snd (auth_process_response undefined (1, Some (td_error 400 ''PHONE_CODE_INVALID'')) asked_code)))
     = [checkAuthenticationCode ''11'', checkAuthenticationCode ''22'']"
proof -
  have a: "asked_code = \<lparr>sequence_done = False, auth_state = Some authorizationStateWaitCode, current_query_id = 1,
      authentication_query_id = 1, auth_handlers = [1 \<mapsto> CheckError 1], auth_sent = [(1, checkAuthenticationCode ''11'')],
      auth_words = [''22''], auth_said = []\<rparr>"
    by (simp add: asked_code_def auth_process_response_def auth_process_update_def auth_on_authorization_state_update_def
        handle_state_def read_word_def auth_query_def create_authentication_query_handler_def auth_send_query_def
        auth_next_query_id_def map_emplace_def new_TDClient_def prog_simps)
  have r: "reach (\<lambda>c. \<exists>input. c = new_TDClient input) (auth_step undefined) asked_code"
    unfolding asked_code_def
  proof (rule reach_step)
    show "reach (\<lambda>c. \<exists>input. c = new_TDClient input) (auth_step undefined) (new_TDClient [''11'', ''22''])"
      by (rule reach_init) blast
  qed (rule auth_response; simp add: auth_room_def new_TDClient_def)
  have "auth_handlers asked_code 1 = Some (CheckError 1)" by (simp add: a)
  note auth_retry [OF r this, of 400 "''PHONE_CODE_INVALID''"]
  then have "auth_process_response undefined (1, Some (td_error 400 ''PHONE_CODE_INVALID'')) asked_code =
      thenM (auth_process_update undefined (updateAuthorizationState authorizationStateWaitCode))
              (modifyM (\<lambda>d. d\<lparr>auth_handlers := map_erase 1 (auth_handlers d)\<rparr>))
        (asked_code\<lparr>auth_said := auth_said asked_code @ [''Error: '' @ ''PHONE_CODE_INVALID'']\<rparr>)"
    by (simp add: a)
  then show ?thesis
    by (simp add: a auth_process_update_def auth_on_authorization_state_update_def handle_state_def read_word_def auth_query_def
        create_authentication_query_handler_def auth_send_query_def auth_next_query_id_def map_emplace_def prog_simps)
qed

text \<open>
  A whole sign-on with a mistyped code: the proxy setting and the parameters, the phone number,
  both codes and the password are sent in this order, each once and with its own identifier; the
  loop ends with the authorization, no handler is left, and input after that is not read.
\<close>

lemma login_sequence:
  "auth s [(0, Some (updateAuthorizationState authorizationStateWaitTdlibParameters)), (1, Some td_ok), (2, Some td_ok),
      (0, Some (updateAuthorizationState authorizationStateWaitPhoneNumber)), (3, Some td_ok),
      (0, Some (updateAuthorizationState authorizationStateWaitCode)), (4, Some (td_error 400 msg)), (5, Some td_ok),
      (0, Some (updateAuthorizationState authorizationStateWaitPassword)), (6, Some td_ok),
      (0, Some (updateAuthorizationState authorizationStateReady)), r]
      (new_TDClient ([phone, mistyped, typed, password] @ rest)) =
    (Inr True, \<lparr>sequence_done = True, auth_state = Some authorizationStateReady, current_query_id = 6,
      authentication_query_id = 6, auth_handlers = Map.empty,
      auth_sent = [(1, init_proxy s), (2, init_lib_parameters s), (3, setAuthenticationPhoneNumber phone),
        (4, checkAuthenticationCode mistyped), (5, checkAuthenticationCode typed), (6, checkAuthenticationPassword password)],
      auth_words = rest, auth_said = [''Error: '' @ msg, ''Authorization OK'']\<rparr>)"
  by (simp add: auth.simps auth_process_response_def auth_process_update_def auth_on_authorization_state_update_def
      handle_state_def read_word_def auth_query_def create_authentication_query_handler_def auth_send_query_def
      auth_next_query_id_def auth_run_handler_def auth_check_authentication_error_def say_def map_emplace_def map_erase_def
      new_TDClient_def prog_simps fun_upd_twist fun_eq_iff)

end
