(* ===== verification/Main_Program.thy ===== *)
theory Main_Program
  imports Gateway_Demo Gen_Db Logging_Model
begin

text \<open>
  The two executables: \<^verbatim>\<open>main\<close> of \<^verbatim>\<open>tg2sip/main.cpp\<close>, which sets up the
  components in order and runs the gateway, and \<^verbatim>\<open>main\<close> of
  \<^verbatim>\<open>tg2sip/gen_db.cpp\<close>. How a process ends is a value: a return code, a call of
  \<^verbatim>\<open>std::abort\<close> after an exception that nothing caught, or undefined behaviour.
\<close>

section \<open>Process\<close>

text \<open>
  What the operating system supplies: which files exist, what they hold, the error of opening the
  log file, and the storage the settings object is built in.
\<close>

record os_env =
  os_exists :: "string \<Rightarrow> bool"
  os_files :: "string \<Rightarrow> string option"
  os_open_log :: "string \<Rightarrow> string option"
  os_storage :: settings

text \<open>
  What the other threads contribute: the responses that the Telegram client handles within the five
  seconds that \<^verbatim>\<open>main\<close> waits, those during the load of the contacts, and what happens before
  each round of the gateway's loop until a signal ends it.
\<close>

record threads =
  th_sign_on :: "(64 word \<times> td_object option) list"
  th_contacts :: "(64 word \<times> td_object option) list"
  th_rounds :: "unit gwp list"

text \<open>
  The lines recorded in \<open>pr_logs\<close> are those of \<^verbatim>\<open>main\<close> itself, the report of the terminate
  handler (without the text of the exception) and what pjsip writes to the log writer it was given;
  the messages of the clients and of the gateway to the \<^verbatim>\<open>core\<close> logger are left out.
\<close>

record process =
  pr_logs :: log_state
  pr_terminate_set :: bool
  pr_sip :: "sip_client option"
  pr_tg :: "tg_client option"
  pr_gateway :: "gateway option"

datatype ending = Exit int | Abort exn | UndefinedBehaviour string

definition boot :: process where
  "boot = \<lparr>pr_logs = no_loggers, pr_terminate_set = False, pr_sip = None, pr_tg = None, pr_gateway = None\<rparr>"

section \<open>Exceptions that nothing catches\<close>

text \<open>
  The handler given to \<^verbatim>\<open>std::set_terminate\<close>. It rethrows the current exception and logs it
  if it is a \<^verbatim>\<open>std::exception\<close>; a \<^verbatim>\<open>pj::Error\<close> leaves the handler, which ends the
  process without the log line; without a current exception the rethrow is undefined.
\<close>

definition terminate_handler :: "exn \<Rightarrow> process \<Rightarrow> ending \<times> process" where
  "terminate_handler e p = (case e of
     PjError r \<Rightarrow> (Abort e, p)
   | NoActiveException \<Rightarrow> (UndefinedBehaviour ''rethrow of a null exception'', p)
   | Undefined why \<Rightarrow> (UndefinedBehaviour why, p)
   | _ \<Rightarrow> (Abort e, p\<lparr>pr_logs := (log_to ''core'' 5 ''Unhandled exception'' (pr_logs p))\<lparr>registry := Map.empty\<rparr>\<rparr>))"

definition terminate_process :: "exn \<Rightarrow> process \<Rightarrow> ending \<times> process" where
  "terminate_process e p =
     (if pr_terminate_set p then terminate_handler e p
      else case e of Undefined why \<Rightarrow> (UndefinedBehaviour why, p) | _ \<Rightarrow> (Abort e, p))"

section \<open>Start of the gateway program\<close>

definition load_settings :: "os_env \<Rightarrow> string list \<Rightarrow> settings" where
  "load_settings os argv =
     Settings (os_storage os) (INIReader (os_files os) (resolve_config_path (os_exists os) argv))"

text \<open>What is printed when the settings were not loaded; otherwise the constructor prints nothing.\<close>

definition config_failure :: "os_env \<Rightarrow> string list \<Rightarrow> log_state \<Rightarrow> log_state" where
  "config_failure os argv st =
     (let config_path = resolve_config_path (os_exists os) argv in
      st\<lparr>cerr := cerr st @ Settings_cerr (INIReader (os_files os) config_path)
        @ [''Failed to load config file: '' @ config_path]\<rparr>)"

definition on_logs :: "(log_state, 'a) prog \<Rightarrow> (process, 'a) prog" where
  "on_logs m = liftM pr_logs (\<lambda>l p. p\<lparr>pr_logs := l\<rparr>) m"

definition log_pjsip :: "(int \<times> string) list \<Rightarrow> log_state \<Rightarrow> log_state" where
  "log_pjsip entries st = fold (\<lambda>(level, msg). LogWriter_write level msg) entries st"

text \<open>
  The SIP client: constructor and \<^verbatim>\<open>start\<close>. What pjsip has to say while it handles their
  requests goes to the log writer.
\<close>

definition start_sip :: "pj_env \<Rightarrow> settings \<Rightarrow> (process, sip_client) prog" where
  "start_sip penv s =
     liftM (\<lambda>_. new_sip_client s)
       (\<lambda>c p. p\<lparr>pr_sip := Some c, pr_logs := log_pjsip (pj_output penv [] (pj_ops c)) (pr_logs p)\<rparr>)
       (thenM (init_pj_endpoint penv s) (thenM (sip_start penv) (getM (\<lambda>c. c))))"

text \<open>The Telegram client: constructor, \<^verbatim>\<open>start\<close> and the wait for the sign-on.\<close>

definition start_tg :: "threads \<Rightarrow> settings \<Rightarrow> (process, tg_client) prog" where
  "start_tg th s =
     liftM (\<lambda>_. new_tg_client s) (\<lambda>c p. p\<lparr>pr_tg := Some c\<rparr>)
       (thenM (tg_loop (th_sign_on th)) (getM (\<lambda>c. c)))"

text \<open>
  The gateway: constructor and \<^verbatim>\<open>start\<close>. It works on the two clients by reference; its requests
  to pjsip are those that follow the earlier ones of the SIP client.
\<close>

definition gateway_requests :: "sip_client \<Rightarrow> gateway \<Rightarrow> pj_op list" where
  "gateway_requests sip g = drop (length (pj_ops sip)) (pj_ops (w_sip (gw_world g)))"

definition start_gateway :: "env \<Rightarrow> threads \<Rightarrow> sip_client \<Rightarrow> tg_client \<Rightarrow> (process, unit) prog" where
  "start_gateway env th sip tg =
     liftM (\<lambda>_. new_Gateway env sip tg empty_rt)
       (\<lambda>g p. p\<lparr>pr_sip := Some (w_sip (gw_world g)), pr_tg := Some (w_tg (gw_world g)), pr_gateway := Some g,
                 pr_logs := log_pjsip (pj_output (e_pj env) (pj_ops sip) (gateway_requests sip g)) (pr_logs p)\<rparr>)
       (gw_start env (th_contacts th) (th_rounds th))"

text \<open>Leaving the function destroys the Telegram client, which closes it and ends its thread.\<close>

definition leave_main :: "int \<Rightarrow> (process, int) prog" where
  "leave_main status =
     thenM (modifyM (\<lambda>p. p\<lparr>pr_tg := map_option destroy_tg_client (pr_tg p)\<rparr>)) (returnM status)"

definition main_body :: "os_env \<Rightarrow> env \<Rightarrow> threads \<Rightarrow> string list \<Rightarrow> (process, int) prog" where
  "main_body os env th argv =
     (let s = load_settings os argv in
      if \<not> is_loaded s then thenM (on_logs (modifyM (config_failure os argv))) (leave_main 1)
      else
        thenM (on_logs (init_logging (os_open_log os) s))
       (thenM (modifyM (\<lambda>p. p\<lparr>pr_terminate_set := True\<rparr>))
       (bindM (start_sip (e_pj env) s) (\<lambda>sip.
        bindM (start_tg th s) (\<lambda>tg.
        if tg_is_ready tg \<noteq> Some True then
          thenM (on_logs (modifyM (log_to ''core'' 5 ''failed to start TG client''))) (leave_main 1)
        else
          thenM (start_gateway (env\<lparr>e_settings := s\<rparr>) th sip tg)
         (thenM (on_logs (modifyM (log_to ''core'' spd_info ''performing a graceful shutdown...'')))
         (thenM (on_logs (modifyM (\<lambda>l. l\<lparr>registry := Map.empty\<rparr>)))
           (leave_main 0))))))))"

definition tg2sip_main :: "os_env \<Rightarrow> env \<Rightarrow> threads \<Rightarrow> string list \<Rightarrow> ending \<times> process" where
  "tg2sip_main os env th argv =
     (case main_body os env th argv boot of
        (Inr status, p) \<Rightarrow> (Exit status, p)
      | (Inl e, p) \<Rightarrow> terminate_process e p)"

section \<open>The sign-on program\<close>

text \<open>
  \<open>None\<close> when the program still waits for a response after those of the list. No terminate handler
  is set.
\<close>

definition gen_db_main ::
    "os_env \<Rightarrow> string list \<Rightarrow> (64 word \<times> td_object option) list \<Rightarrow> string list \<Rightarrow> (ending option \<times> td_client option) \<times> log_state" where
  "gen_db_main os argv rs input =
     (let s = load_settings os argv in
      if \<not> is_loaded s then ((Some (Exit 1), None), config_failure os argv no_loggers)
      else case auth s rs (new_TDClient input) of
          (Inl e, c) \<Rightarrow> ((Some (fst (terminate_process e boot)), Some c), no_loggers\<lparr>td_verbosity := 1\<rparr>)
        | (Inr finished, c) \<Rightarrow> ((if finished then Some (Exit 0) else None, Some c), no_loggers\<lparr>td_verbosity := 1\<rparr>))"

lemma gen_db_exit:
  "fst (fst (gen_db_main os argv rs input)) = Some (Exit n) \<longleftrightarrow>
     (if is_loaded (load_settings os argv)
      then n = 0 \<and> (\<exists>c. auth (load_settings os argv) rs (new_TDClient input) = (Inr True, c))
      else n = 1)"
  by (auto simp: gen_db_main_def Let_def terminate_process_def boot_def split: prod.splits sum.splits exn.splits if_splits)

section \<open>Stages\<close>

text \<open>
  The stages of the start with their results: the SIP client that registered, the Telegram client
  after the wait, and the gateway after its loop.
\<close>

definition sip_up :: "env \<Rightarrow> settings \<Rightarrow> (exn + unit) \<times> sip_client" where
  "sip_up env s = thenM (init_pj_endpoint (e_pj env) s) (sip_start (e_pj env)) (new_sip_client s)"

definition tg_up :: "threads \<Rightarrow> settings \<Rightarrow> (exn + unit) \<times> tg_client" where
  "tg_up th s = tg_loop (th_sign_on th) (new_tg_client s)"

definition gateway_run :: "env \<Rightarrow> threads \<Rightarrow> settings \<Rightarrow> sip_client \<Rightarrow> tg_client \<Rightarrow> (exn + unit) \<times> gateway" where
  "gateway_run env th s sip tg =
     gw_start (env\<lparr>e_settings := s\<rparr>) (th_contacts th) (th_rounds th) (new_Gateway (env\<lparr>e_settings := s\<rparr>) sip tg empty_rt)"

lemma start_sip_eq:
  "start_sip (e_pj env) s p = (case sip_up env s of (Inl e, c) \<Rightarrow> Inl e | (Inr _, c) \<Rightarrow> Inr c,
     p\<lparr>pr_sip := Some (snd (sip_up env s)),
       pr_logs := log_pjsip (pj_output (e_pj env) [] (pj_ops (snd (sip_up env s)))) (pr_logs p)\<rparr>)"
  by (simp add: start_sip_def sip_up_def prog_simps split: prod.splits sum.splits)

lemma start_tg_eq:
  "start_tg th s p = (case tg_up th s of (Inl e, c) \<Rightarrow> Inl e | (Inr _, c) \<Rightarrow> Inr c, p\<lparr>pr_tg := Some (snd (tg_up th s))\<rparr>)"
  by (simp add: start_tg_def tg_up_def prog_simps split: prod.splits sum.splits)

lemma start_gateway_eq:
  "start_gateway (env\<lparr>e_settings := s\<rparr>) th sip tg p =
    (case gateway_run env th s sip tg of (r, g) \<Rightarrow>
       (r, p\<lparr>pr_sip := Some (w_sip (gw_world g)), pr_tg := Some (w_tg (gw_world g)), pr_gateway := Some g,
              pr_logs := log_pjsip (pj_output (e_pj env) (pj_ops sip) (gateway_requests sip g)) (pr_logs p)\<rparr>))"
  by (simp add: start_gateway_def gateway_run_def liftM_def)

lemma log_pjsip_lines:
  "log_lines (log_pjsip entries st) = log_lines st @ map (\<lambda>(level, msg). (''pjsip'', LogWriter_level level, msg)) entries"
  by (induction entries arbitrary: st) (simp_all add: log_pjsip_def LogWriter_write_def log_to_def split: prod.split)

text \<open>The reports of the terminate handler among the lines of the log.\<close>

definition crash_reports :: "log_state \<Rightarrow> (string \<times> int \<times> string) list" where
  "crash_reports l = filter (\<lambda>line. line = (''core'', 5, ''Unhandled exception'')) (log_lines l)"

lemma crash_reports_pjsip [simp]: "crash_reports (log_pjsip entries l) = crash_reports l"
proof -
  have "filter (\<lambda>line. line = (''core'', 5, ''Unhandled exception'')) (map (\<lambda>(level, msg). (''pjsip'', f level, msg)) entries) = []"
    for f :: "int \<Rightarrow> int"
    by (auto simp: filter_empty_conv)
  then show ?thesis by (simp add: crash_reports_def log_pjsip_lines)
qed

lemma init_logging_lines: "log_lines (snd (init_logging open_file s l)) = log_lines l"
  by (simp add: init_logging_def prog_simps register_logger_def get_set_level_def apply_all_level_def Let_def
      split: option.split sum.split prod.split exn.split)

text \<open>The program after a configuration that loads and a log file that opens.\<close>

lemma main_started:
  assumes "is_loaded (load_settings os argv)"
    and "os_open_log os (LogFilePath (log_folder (load_settings os argv)) ''tg2sip.log'') = None"
  shows "\<exists>p0. log_lines (pr_logs p0) = [] \<and> pr_terminate_set p0 \<and> pr_tg p0 = None \<and> pr_gateway p0 = None \<and>
    main_body os env th argv boot =
      bindM (start_sip (e_pj env) (load_settings os argv)) (\<lambda>sip.
        bindM (start_tg th (load_settings os argv)) (\<lambda>tg.
        if tg_is_ready tg \<noteq> Some True then
          thenM (on_logs (modifyM (log_to ''core'' 5 ''failed to start TG client''))) (leave_main 1)
        else
          thenM (start_gateway (env\<lparr>e_settings := load_settings os argv\<rparr>) th sip tg)
         (thenM (on_logs (modifyM (log_to ''core'' spd_info ''performing a graceful shutdown...'')))
         (thenM (on_logs (modifyM (\<lambda>l. l\<lparr>registry := Map.empty\<rparr>)))
           (leave_main 0))))) p0"
proof -
  obtain l where l: "init_logging (os_open_log os) (load_settings os argv) no_loggers = (Inr (), l)"
    using init_logging_ok [of "os_open_log os" "load_settings os argv"] assms(2) by blast
  have "log_lines l = []"
    using init_logging_lines [of "os_open_log os" "load_settings os argv" no_loggers] l by (simp add: no_loggers_def)
  then show ?thesis
    using assms(1)
    by (intro exI [of _ "boot\<lparr>pr_logs := l, pr_terminate_set := True\<rparr>"])
      (simp add: main_body_def Let_def thenM_def bindM_def on_logs_def liftM_def modifyM_def boot_def l)
qed

text \<open>How the process ends, as a function of the stages.\<close>

definition uncaught :: "exn \<Rightarrow> ending" where
  "uncaught e = (case e of
     NoActiveException \<Rightarrow> UndefinedBehaviour ''rethrow of a null exception''
   | Undefined why \<Rightarrow> UndefinedBehaviour why
   | _ \<Rightarrow> Abort e)"

definition is_pj_error :: "exn \<Rightarrow> bool" where
  "is_pj_error e = (case e of PjError _ \<Rightarrow> True | _ \<Rightarrow> False)"

definition run_ending :: "env \<Rightarrow> threads \<Rightarrow> settings \<Rightarrow> ending" where
  "run_ending env th s = (case sip_up env s of
     (Inl e, _) \<Rightarrow> uncaught e
   | (Inr _, sip) \<Rightarrow> (case tg_up th s of
       (Inl e, _) \<Rightarrow> uncaught e
     | (Inr _, tg) \<Rightarrow>
         if tg_is_ready tg \<noteq> Some True then Exit 1
         else (case gateway_run env th s sip tg of (Inl e, _) \<Rightarrow> uncaught e | (Inr _, g) \<Rightarrow> Exit 0)))"

lemma uncaught_simps [simp]:
  "fst (terminate_handler e p) = uncaught e" "uncaught e \<noteq> Exit n"
  "uncaught e = Abort e' \<longleftrightarrow> e = e' \<and> e \<noteq> NoActiveException \<and> (\<forall>why. e \<noteq> Undefined why)"
  by (cases e; simp add: terminate_handler_def uncaught_def; fail)+

lemma terminate_handler_snd [simp]:
  "pr_tg (snd (terminate_handler e p)) = pr_tg p" "pr_gateway (snd (terminate_handler e p)) = pr_gateway p"
  by (cases e; simp add: terminate_handler_def)+

lemma terminate_handler_lines:
  "uncaught e = Abort e' \<Longrightarrow> log_lines (pr_logs (snd (terminate_handler e p))) =
     log_lines (pr_logs p) @ (if is_pj_error e then [] else [(''core'', 5, ''Unhandled exception'')])"
  by (cases e; simp only: uncaught_simps; clarify; simp add: terminate_handler_def log_to_def is_pj_error_def)

lemma terminate_handler_reports:
  "uncaught e = Abort e' \<Longrightarrow> crash_reports (pr_logs (snd (terminate_handler e p))) =
     crash_reports (pr_logs p) @ (if is_pj_error e then [] else [(''core'', 5, ''Unhandled exception'')])"
  by (drule terminate_handler_lines [where p = p]) (simp add: crash_reports_def)

lemma main_started_ending:
  assumes s: "s = load_settings os argv" and "is_loaded s"
    and "os_open_log os (LogFilePath (log_folder s) ''tg2sip.log'') = None"
  shows "fst (tg2sip_main os env th argv) = run_ending env th s"
    and "fst (tg2sip_main os env th argv) = Abort e \<Longrightarrow> crash_reports (pr_logs (snd (tg2sip_main os env th argv))) =
        (if is_pj_error e then [] else [(''core'', 5, ''Unhandled exception'')])"
    and "sip_up env s = (Inl e, sip) \<Longrightarrow> is_pj_error e \<Longrightarrow> log_lines (pr_logs (snd (tg2sip_main os env th argv))) =
        map (\<lambda>(level, msg). (''pjsip'', LogWriter_level level, msg)) (pj_output (e_pj env) [] (pj_ops sip))"
    and "pr_gateway (snd (tg2sip_main os env th argv)) \<noteq> None \<longleftrightarrow>
        (\<exists>sip tg. sip_up env s = (Inr (), sip) \<and> tg_up th s = (Inr (), tg) \<and> tg_is_ready tg = Some True)"
    and "fst (tg2sip_main os env th argv) = Exit n \<Longrightarrow>
        \<exists>tg. pr_tg (snd (tg2sip_main os env th argv)) = Some tg \<and> tg_is_closed tg"
proof -
  obtain p0 where p0: "log_lines (pr_logs p0) = []" "pr_terminate_set p0" "pr_tg p0 = None" "pr_gateway p0 = None"
    and run: "main_body os env th argv boot =
      bindM (start_sip (e_pj env) s) (\<lambda>sip.
        bindM (start_tg th s) (\<lambda>tg.
        if tg_is_ready tg \<noteq> Some True then
          thenM (on_logs (modifyM (log_to ''core'' 5 ''failed to start TG client''))) (leave_main 1)
        else
          thenM (start_gateway (env\<lparr>e_settings := s\<rparr>) th sip tg)
         (thenM (on_logs (modifyM (log_to ''core'' spd_info ''performing a graceful shutdown...'')))
         (thenM (on_logs (modifyM (\<lambda>l. l\<lparr>registry := Map.empty\<rparr>)))
           (leave_main 0))))) p0"
    using main_started [of os argv env th] assms(2,3) unfolding s by blast
  note unfold = tg2sip_main_def run bindM_def thenM_def start_sip_eq start_tg_eq start_gateway_eq on_logs_def liftM_def
    modifyM_def leave_main_def returnM_def run_ending_def terminate_process_def
  show "fst (tg2sip_main os env th argv) = run_ending env th s"
    using p0(2) by (simp add: unfold split: prod.split sum.split)
  have none: "crash_reports (pr_logs p0) = []" using p0(1) by (simp add: crash_reports_def)
  show "crash_reports (pr_logs (snd (tg2sip_main os env th argv))) =
        (if is_pj_error e then [] else [(''core'', 5, ''Unhandled exception'')])"
    if "fst (tg2sip_main os env th argv) = Abort e"
    using p0(2) that by (auto simp: unfold terminate_handler_reports none split: prod.splits sum.splits if_splits)
  show "log_lines (pr_logs (snd (tg2sip_main os env th argv))) =
        map (\<lambda>(level, msg). (''pjsip'', LogWriter_level level, msg)) (pj_output (e_pj env) [] (pj_ops sip))"
    if "sip_up env s = (Inl e, sip)" "is_pj_error e"
    using p0(1,2) that by (cases e) (simp_all add: unfold terminate_handler_def is_pj_error_def log_pjsip_lines)
  show "pr_gateway (snd (tg2sip_main os env th argv)) \<noteq> None \<longleftrightarrow>
        (\<exists>sip tg. sip_up env s = (Inr (), sip) \<and> tg_up th s = (Inr (), tg) \<and> tg_is_ready tg = Some True)"
    using p0(2,4) by (auto simp: unfold split: prod.splits sum.splits if_splits)
  show "\<exists>tg. pr_tg (snd (tg2sip_main os env th argv)) = Some tg \<and> tg_is_closed tg"
    if "fst (tg2sip_main os env th argv) = Exit n"
    using p0(2) that by (auto simp: unfold destroy_tg_client_def split: prod.splits sum.splits if_splits)
qed

lemma main_not_loaded:
  "\<not> is_loaded (load_settings os argv) \<Longrightarrow>
     tg2sip_main os env th argv = (Exit 1, boot\<lparr>pr_logs := config_failure os argv no_loggers\<rparr>)"
  by (simp add: tg2sip_main_def main_body_def Let_def thenM_def bindM_def on_logs_def liftM_def modifyM_def
      leave_main_def returnM_def boot_def)

lemma main_log_unopened:
  assumes "is_loaded (load_settings os argv)"
    and "os_open_log os (LogFilePath (log_folder (load_settings os argv)) ''tg2sip.log'') = Some what"
  shows "fst (tg2sip_main os env th argv) = UndefinedBehaviour ''null logger'' \<and> pr_gateway (snd (tg2sip_main os env th argv)) = None"
proof -
  obtain l where "init_logging (os_open_log os) (load_settings os argv) no_loggers = (Inl (Undefined ''null logger''), l)"
    using init_logging_unopened [of "os_open_log os" "load_settings os argv"] assms(2) by (metis prod.collapse)
  then show ?thesis
    using assms(1) by (simp add: tg2sip_main_def main_body_def Let_def thenM_def bindM_def on_logs_def liftM_def boot_def
        terminate_process_def)
qed


section \<open>Properties\<close>

text \<open>
  C24. Start and exit of the program. It returns 0 exactly when the configuration was loaded, the
  log file opened, the SIP endpoint came up and registered, the Telegram client reported a
  successful sign-on within the wait, and the gateway's loop ended without an exception; the
  gateway exists only after all the stages before it; a configuration that is not loaded is
  reported and nothing else happens; with an unusable log file the program reaches a null
  dereference; and whenever it returns after the start of the Telegram client, that client is closed.
\<close>

theorem main_exit:
  assumes s: "s = load_settings os argv" and r: "r = tg2sip_main os env th argv"
  shows "(fst r = Exit 0 \<longleftrightarrow> is_loaded s \<and> os_open_log os (LogFilePath (log_folder s) ''tg2sip.log'') = None
        \<and> (\<exists>sip tg g. sip_up env s = (Inr (), sip) \<and> tg_up th s = (Inr (), tg) \<and> tg_is_ready tg = Some True
             \<and> gateway_run env th s sip tg = (Inr (), g)))
    \<and> (pr_gateway (snd r) \<noteq> None \<longrightarrow>
         (\<exists>sip tg. sip_up env s = (Inr (), sip) \<and> tg_up th s = (Inr (), tg) \<and> tg_is_ready tg = Some True))
    \<and> (\<not> is_loaded s \<longrightarrow> r = (Exit 1, boot\<lparr>pr_logs := config_failure os argv no_loggers\<rparr>))
    \<and> (is_loaded s \<and> os_open_log os (LogFilePath (log_folder s) ''tg2sip.log'') \<noteq> None \<longrightarrow>
         fst r = UndefinedBehaviour ''null logger'')
    \<and> (\<forall>n tg. fst r = Exit n \<longrightarrow> n \<in> {0, 1} \<and> (pr_tg (snd r) = Some tg \<longrightarrow> tg_is_closed tg))"
proof -
  consider (no) "\<not> is_loaded s"
    | (log) what where "is_loaded s" "os_open_log os (LogFilePath (log_folder s) ''tg2sip.log'') = Some what"
    | (up) "is_loaded s" "os_open_log os (LogFilePath (log_folder s) ''tg2sip.log'') = None"
    by blast
  then show ?thesis
  proof cases
    case no
    then show ?thesis using main_not_loaded [of os argv env th] by (simp add: s r boot_def)
  next
    case log
    then show ?thesis using main_log_unopened [of os argv what env th] by (simp add: s r)
  next
    case up
    note ends = main_started_ending [OF s up, where env = env and th = th, folded r]
    have "fst r = Exit 0 \<longleftrightarrow> (\<exists>sip tg g. sip_up env s = (Inr (), sip) \<and> tg_up th s = (Inr (), tg)
        \<and> tg_is_ready tg = Some True \<and> gateway_run env th s sip tg = (Inr (), g))"
      unfolding ends(1) by (auto simp: run_ending_def split: prod.splits sum.splits)
    moreover have "fst r = Exit n \<Longrightarrow> n \<in> {0, 1}" for n
      unfolding ends(1) by (auto simp: run_ending_def split: prod.splits sum.splits if_splits)
    ultimately show ?thesis using up ends(4,5) by fastforce
  qed
qed

definition demo_config :: "(string \<times> string \<times> string) list" where
  "demo_config = [(''telegram'', ''api_id'', ''17''), (''telegram'', ''api_hash'', ''ab'')]"

definition demo_os :: os_env where
  "demo_os = \<lparr>os_exists = (\<lambda>_. False), os_files = [''tg2sip.conf'' \<mapsto> render demo_config],
     os_open_log = (\<lambda>_. None), os_storage = demo_settings\<rparr>"

definition no_contacts :: env where
  "no_contacts = demo_env\<lparr>e_td := \<lparr>td_answer = (\<lambda>_ _. td_error 400 ''no contacts'')\<rparr>\<rparr>"

definition demo_threads :: threads where
  "demo_threads = \<lparr>th_sign_on = [(0, Some (updateAuthorizationState authorizationStateReady))], th_contacts = [],
     th_rounds = [returnM ()]\<rparr>"

lemma demo_os_simps [simp]:
  "os_open_log demo_os f = None" "resolve_config_path (os_exists demo_os) [''tg2sip''] = ''tg2sip.conf''"
  "os_files demo_os ''tg2sip.conf'' = Some (render demo_config)"
  by (simp_all add: demo_os_def resolve_config_path_def)

lemma demo_loaded: "is_loaded (load_settings demo_os [''tg2sip''])"
proof -
  have "list_all plain_entry demo_config" "distinct (map entry_key demo_config)" by code_simp+
  note reader = INIReader_render [of demo_config "os_files demo_os" "''tg2sip.conf''", OF this demo_os_simps(3)]
  have "map_of (map (\<lambda>e. (entry_key e, snd (snd e))) demo_config) (MakeKey ''telegram'' ''api_id'') = Some ''17''"
    "map_of (map (\<lambda>e. (entry_key e, snd (snd e))) demo_config) (MakeKey ''telegram'' ''api_hash'') = Some ''ab''"
    by code_simp+
  then have "Get (INIReader (os_files demo_os) ''tg2sip.conf'') ''telegram'' ''api_id'' d = ''17''"
    "Get (INIReader (os_files demo_os) ''tg2sip.conf'') ''telegram'' ''api_hash'' d = ''ab''" for d
    by (simp_all add: Get_def reader)
  moreover have "to_int32 (GetInteger (INIReader (os_files demo_os) ''tg2sip.conf'') ''telegram'' ''api_id'' 0) = 17"
    unfolding GetInteger_def calculation by code_simp
  ultimately show ?thesis
    by (simp add: load_settings_def Settings_is_loaded ParseError_def reader)
qed

text \<open>With libraries that accept everything the three stages succeed, whatever the settings.\<close>

lemma quiet_run_pj: "run_pj quiet_pj ops c = (Inr (), c\<lparr>pj_ops := pj_ops c @ ops\<rparr>)"
  by (induction ops arbitrary: c) (simp_all add: returnM_def thenM_pj quiet_pj_def)

lemma demo_sip_up: "\<exists>sip. sip_up no_contacts s = (Inr (), sip) \<and> sip_events sip = queue_empty"
  by (simp add: sip_up_def no_contacts_def demo_env_def init_pj_endpoint_run thenM_def bindM_def pj_note_def modifyM_def
      quiet_run_pj sip_start_def getM_def pj_eq new_sip_client_def) (simp add: quiet_pj_def)

lemma demo_tg_up:
  "tg_up demo_threads s = (Inr (), (new_tg_client s)\<lparr>tg_is_ready := Some True, tg_log := [''TG client authorization ready'']\<rparr>)"
  by (simp add: tg_up_def demo_threads_def thenM_def bindM_def getM_def returnM_def process_response_def process_update_def
      on_authorization_final) (simp add: new_tg_client_def)

lemma demo_gateway_run:
  assumes "sip_events sip = queue_empty" and "tg = (new_tg_client s)\<lparr>tg_is_ready := Some True, tg_log := l\<rparr>"
  shows "\<exists>g. gateway_run no_contacts demo_threads s sip tg = (Inr (), g)"
proof -
  have tg: "tg_inv tg" "ids_left tg" "tg_events tg = queue_empty"
    using tg_inv_new [of s] by (simp_all add: assms(2) tg_inv_def ids_left_def new_tg_client_def)
  show ?thesis
    by (simp add: gateway_run_def gw_start_def demo_threads_def load_cache_def gw_tg_def liftM_def thenM_def bindM_def
        td_get_eq [OF tg(1,2)] no_contacts_def new_Gateway_def returnM_def tick_def pop_internal_def pop_tg_def pop_sip_def
        getM_def modifyM_def queue_pop_def queue_empty_def tg(3) assms(1))
qed

theorem main_exit_witness:
  "fst (tg2sip_main demo_os no_contacts demo_threads [''tg2sip'']) = Exit 0
   \<and> fst (tg2sip_main demo_os no_contacts demo_threads [''tg2sip'', ''/nowhere'']) = Exit 1"
proof -
  let ?s = "load_settings demo_os [''tg2sip'']"
  obtain sip where sip: "sip_up no_contacts ?s = (Inr (), sip)" "sip_events sip = queue_empty"
    using demo_sip_up by blast
  moreover have "\<exists>g. gateway_run no_contacts demo_threads ?s sip (snd (tg_up demo_threads ?s)) = (Inr (), g)"
    by (rule demo_gateway_run [OF sip(2)]) (simp add: demo_tg_up)
  moreover have "\<not> is_loaded (load_settings demo_os [''tg2sip'', ''/nowhere''])"
    by (simp add: load_settings_def resolve_config_path_def demo_os_def INIReader_def Settings_is_loaded ParseError_def)
  ultimately show ?thesis
    using main_exit [OF refl refl, where os = demo_os and env = no_contacts and th = demo_threads and argv = "[''tg2sip'']"] demo_loaded
      main_exit [OF refl refl, where os = demo_os and env = no_contacts and th = demo_threads and argv = "[''tg2sip'', ''/nowhere'']"]
    by (auto simp: demo_tg_up)
qed




end
