(* ===== verification/Spec2Isabelle.thy ===== *)
theory Spec2Isabelle
  imports Event_Queue Ring_Buffer_SPSC Logging_Model Controller Audio_Path Gateway_Props Gateway_Calls Gateway_Events
    Gateway_Cache Gateway_Progress Gateway_Lifecycle Gateway_Safety Gateway_Backend Main_Program
begin

text \<open>
  A verification development for tg2sip-webrtc, a gateway that connects Telegram calls with SIP
  calls. The repository's C++ is under \<^verbatim>\<open>src/\<close>; file names below are relative to it.

  \<^bold>\<open>The program.\<close> The SIP client (\<^verbatim>\<open>tg2sip/sip.cpp\<close>) wraps pjsua2, the Telegram client
  (\<^verbatim>\<open>tg2sip/tg.cpp\<close>) wraps TDLib and runs a thread that routes responses and updates. Both
  put events into queues (\<^verbatim>\<open>tg2sip/queue.h\<close>) that the gateway (\<^verbatim>\<open>tg2sip/gateway.cpp\<close>)
  polls, together with a third queue of its own internal events. Each call is a bridge: a context
  and a state machine built with \<^verbatim>\<open>include/boost/sml.hpp\<close>, whose guards and actions call
  the two clients and, once a call is ready, create a controller (\<^verbatim>\<open>tg2sip/voip/controller.cpp\<close>).
  The controller talks to the calling library ntgcalls through a process-wide runtime
  (\<^verbatim>\<open>tg2sip/voip/ntgcalls_runtime.cpp\<close>) and exchanges audio with two pjmedia ports
  (\<^verbatim>\<open>tg2sip/voip/audio_bridge.cpp\<close>) over two lock-free ring buffers
  (\<^verbatim>\<open>tg2sip/voip/ring_buffer.h\<close>). \<^verbatim>\<open>tg2sip/main.cpp\<close> starts all this from a
  configuration file (\<^verbatim>\<open>include/INIReader.h\<close>, \<^verbatim>\<open>tg2sip/settings.cpp\<close>) after setting
  up the loggers (\<^verbatim>\<open>tg2sip/logging.cpp\<close>); \<^verbatim>\<open>tg2sip/gen_db.cpp\<close> is a second program that
  signs a user on.

  \<^bold>\<open>How the code is modelled.\<close> \<open>Prelude\<close> has the type of programs that read and write a state and may
  throw (the state a program leaves is kept when it throws), exceptions as a datatype that tells
  \<^verbatim>\<open>pj::Error\<close> from \<^verbatim>\<open>std::exception\<close> and from undefined behaviour, reachability, and the
  locale \<open>invariant_system\<close> that turns a preserved predicate into an invariant. Objects are records,
  pointers to controllers are addresses in an explicit heap, machine integers are words where the
  width matters (buffer indices and query identifiers of 64 bits, the 32-bit sums of waiting times,
  16-bit samples). The third-party libraries are parameters: \<open>pj_env\<close>, \<open>td_env\<close> and \<open>ntg_env\<close> say
  for each request, depending on the requests before it, whether it is refused and what it returns;
  \<open>pj_env\<close> also says what pjsip writes to the log writer that the program gives it.

  \<^bold>\<open>Theories and what they show.\<close>
  \<^item> \<open>Utils\<close>: number parsing of the C library, \<^verbatim>\<open>is_digits\<close>, the choice of the configuration file.
  \<^item> \<open>Event_Queue\<close>: the queue, with the locale of its contract and its interpretation.
  \<^item> \<open>Ring_Buffer\<close>: push and pop on words, refined by a bounded sequence. \<open>Ring_Buffer_SPSC\<close>: the same code
    as single memory accesses of two threads: order and content for every interleaving, no slot
    used by both sides, every call ends within its own steps.
  \<^item> \<open>Ini_Reader\<close>, \<open>Settings_Model\<close>, \<open>Logging_Model\<close>: the parser of inih with its line and name limits, a
    round trip for rendered files, inline comments; every setting with its conversions; the start
    of logging on both outcomes.
  \<^item> \<open>Audio_Bridge\<close>, \<open>Ntg_Runtime\<close>, \<open>Controller\<close>: the two ports, the table of sinks, the life of a
    controller with its feeder: no callback ever reaches a freed controller, the order of the start
    requests, what one round of the feeder sends, where playback frames go. \<open>Audio_Path\<close>: the audio of
    all calls from end to end, with their threads in any order: what a call delivers is what entered on
    its other side, in order, and no call hears another.
  \<^item> \<open>Td_Api\<close>, \<open>Tg_Client\<close>: TDLib's objects as far as the code uses them; answers reach their queries,
    the sign-on, the second final state. \<open>Gen_Db\<close>: the sign-on program, its retry logic and a whole
    session.
  \<^item> \<open>Sip_Client\<close>: endpoint set-up, bridging of audio (\<open>first_audio\<close> is the stream it has to use), entries of
    calls that have ended.
  \<^item> \<open>Sml_Engine\<close>: the execution of transition tables, as the library's documentation describes it and as
    the gateway uses it. \<open>Sml_Backend\<close>: the library's own way to it, with rows grouped by event and state,
    states as numbers, a choice of dispatch per compiler, the specialisations of a row, the events of
    the library itself, the calls to a logger and a pool of machines. \<open>Sml_Logging\<close>: a logger changes
    neither the state nor the result of a machine. \<open>Sml_Trace\<close>: the locale \<open>traced\<close> of the machines
    with one region; the last state change in what their logger collected names the state they are in. \<open>Sml_Refinement\<close>: the locale \<open>two_level\<close> of the machines for
    which the back end does what the engine does. \<open>Sml_Front\<close>: the notation of tables.
    \<open>Gateway_Backend\<close>: the gateway's tables as they are written, its trace logger, and the interpretations of both
    locales on them: what the engine does is what the library does, with whatever logger.
  \<^item> \<open>Gateway_Actions\<close>: every guard and action.
    \<open>Gateway\<close>: the tables, bridges, event handlers, the contact cache and the main loop.
  \<^item> \<open>Gateway_Inv\<close> and \<open>Gateway_Props\<close>: the invariant of all reachable states (loop, callbacks and audio
    threads in any order), errors and hang-ups. \<open>Gateway_Lifecycle\<close>: the tables implement a flat
    automaton of nine phases. \<open>Gateway_Dialing\<close>: extensions, resolution of callees, flood control.
    \<open>Gateway_Calls\<close>: how calls of both directions are set up and connected. \<open>Gateway_Events\<close>: messages as
    DTMF, signaling data, events without a call. \<open>Gateway_Cache\<close>: the contacts. \<open>Gateway_Progress\<close>: every
    queued event is handled. \<open>Gateway_Frame\<close>: the locale of the properties of the shared world that every
    action and handler keeps. \<open>Tg_Sane\<close> and \<open>Gateway_Safety\<close>: the documented types of TDLib's answers, and
    how a round of the loop can end: no undefined
    behaviour, and three kinds of exception, among them the refusal of an audio port (\<open>register_ports\<close> in
    \<open>Gateway_Actions\<close>). \<open>Gateway_Demo\<close>: the environment the witnesses run in.
  \<^item> \<open>Main_Program\<close>: the start in stages, exit codes, and what is in the log when an exception ends the process: the
    report of the terminate handler and what pjsip wrote to its log writer.

  \<^bold>\<open>Threads.\<close> The queues and the table of sinks are protected by mutexes, so each of their operations is one step.
  The ring buffers are modelled access by access, on a sequentially consistent memory: the code's
  acquire and release operations on the two indices order exactly the accesses to the slots. For the gateway
  the actions of other threads happen between the rounds of its loop or while it waits for an
  answer; the code shares the handlers of the Telegram client and the calls of the SIP client
  between threads without a lock, and a data race on these is outside the model: each of their
  operations is taken as one step.

  \<^bold>\<open>Bounds.\<close> Query identifiers are 64-bit words; theorems about queries assume that fewer than
  \<^verbatim>\<open>2^64\<close> have been sent (\<open>ids_left\<close>, \<open>can_ask\<close>, \<open>auth_room\<close>, \<open>sent_bound\<close>), as an identifier of 0 would be taken for an update. The
  ring buffer needs a capacity below \<^verbatim>\<open>SIZE_MAX\<close>; the code uses 48000 samples. Loops that end
  with a signal or an external event are driven by the list of what arrives, so no fuel is used. The one
  exception is the back end of the state machine library, where a depth stands for the recursion of its
  templates over events and sub-machines: \<open>library_runs_tables\<close> shows that three levels are
  enough for the gateway, as running out of them is an exception that the engine never throws.

  \<^bold>\<open>Not modelled.\<close> Texts that are only logged, except those of \<^verbatim>\<open>main\<close>, of pjsip's log writer and of the state
  machine's trace logger, where the library's names of types and the rendering of TDLib's objects are parameters; the sleep between rounds;
  time except where the code compares it (flood control). Of
  \<^verbatim>\<open>sml.hpp\<close> rows for exceptions and for unexpected events, the queues of deferred and posted
  events, the policies for testing and threads, and the injection of dependencies into guards
  and actions (the gateway's take the event and the context, which the model passes on). Floating-point numbers: the
  conversion that \<^verbatim>\<open>INIReader.h\<close> calls is a parameter. pjsua2,
  TDLib, ntgcalls and spdlog themselves, whose sources are not part of the repository; build and packaging files.
\<close>

end
